(* ===== verification/Prelude.thy ===== *)
theory Prelude
  imports Main
begin

text \<open>
  Shared material of the development: the model of Go errors and of functions that return
  \<open>(value, error)\<close>, the list functions behind the code's loops over slices, and the generic
  lemmas the component theories use. Nothing here is specific to one package of the program.
\<close>

section \<open>Collections of rules\<close>

named_theorems res_simps \<open>evaluation of the result combinators\<close>
named_theorems go_eval \<open>evaluation of the library functions on literals\<close>
named_theorems okE_intros \<open>introduction rules for properties of returned slices\<close>
named_theorems keepsS_intros \<open>introduction rules for properties of the state a step keeps\<close>
named_theorems succeedsS_intros \<open>introduction rules for steps that cannot fail\<close>
named_theorems errE_intros \<open>introduction rules for properties of returned errors\<close>
named_theorems res_dests \<open>inversion of a successful result\<close>

section \<open>Errors\<close>

text \<open>
  A Go error is a tree: a leaf made by \<^verbatim>\<open>errors.New\<close> or by a failing library call,
  \<^verbatim>\<open>fmt.Errorf\<close> with any number of \<^verbatim>\<open>%w\<close> verbs around other errors, or
  \<^verbatim>\<open>errors.Join\<close>. A message is kept as the constant text at the head of its format string;
  the values interpolated into it are not modelled. The sentinels are the package-level error
  variables that callers test with \<^verbatim>\<open>errors.Is\<close>.
\<close>

datatype sentinel =
    ErrNoRows
  | ErrPreviewValidation
  | ErrPreviewFailClosed
  | ErrPushQueueFull

datatype goerr =
    Sentinel sentinel
  | Leaf string
  | Wrap string "goerr list"
  | Joined "goerr list"

type_synonym 'a res = "goerr + 'a"

text \<open>\<^verbatim>\<open>errors.Is\<close>: the sentinel occurs somewhere in the tree.\<close>

fun errIs :: "goerr \<Rightarrow> sentinel \<Rightarrow> bool" where
  "errIs (Sentinel t) s = (t = s)"
| "errIs (Leaf _) s = False"
| "errIs (Wrap _ es) s = list_ex (\<lambda>e. errIs e s) es"
| "errIs (Joined es) s = list_ex (\<lambda>e. errIs e s) es"

section \<open>Results\<close>

text \<open>\<open>bindE m f\<close> is the Go idiom \<^verbatim>\<open>v, err := m; if err != nil { return err }; f(v)\<close>.\<close>

definition bindE :: "'a res \<Rightarrow> ('a \<Rightarrow> 'b res) \<Rightarrow> 'b res" where
  "bindE m f = (case m of Inl e \<Rightarrow> Inl e | Inr v \<Rightarrow> f v)"

text \<open>\<open>wrapE msg m\<close> is \<^verbatim>\<open>fmt.Errorf("msg: %w", err)\<close> on the error branch.\<close>

definition wrapE :: "string \<Rightarrow> 'a res \<Rightarrow> 'a res" where
  "wrapE msg m = (case m of Inl e \<Rightarrow> Inl (Wrap msg [e]) | Inr v \<Rightarrow> Inr v)"

text \<open>\<open>wrapE2\<close> joins a second error as \<^verbatim>\<open>fmt.Errorf("msg: %w: %w", err, sentinel)\<close> does.\<close>

definition wrapE2 :: "string \<Rightarrow> sentinel \<Rightarrow> 'a res \<Rightarrow> 'a res" where
  "wrapE2 msg s m = (case m of Inl e \<Rightarrow> Inl (Wrap msg [e, Sentinel s]) | Inr v \<Rightarrow> Inr v)"

text \<open>A loop that appends one result per element and returns at the first error.\<close>

fun mapE :: "('a \<Rightarrow> 'b res) \<Rightarrow> 'a list \<Rightarrow> 'b list res" where
  "mapE f [] = Inr []"
| "mapE f (x # xs) = bindE (f x) (\<lambda>y. bindE (mapE f xs) (\<lambda>ys. Inr (y # ys)))"

text \<open>A loop that appends a slice per element and returns at the first error.\<close>

definition concatMapE :: "('a \<Rightarrow> 'b list res) \<Rightarrow> 'a list \<Rightarrow> 'b list res" where
  "concatMapE f xs = bindE (mapE f xs) (\<lambda>yss. Inr (concat yss))"

lemma bindE_Inl [simp, res_simps]: "bindE (Inl e) f = Inl e"
  by (simp add: bindE_def)

lemma bindE_Inr [simp, res_simps]: "bindE (Inr v) f = f v"
  by (simp add: bindE_def)

lemma bindE_eq_Inr [res_dests]:
  "bindE m f = Inr r \<longleftrightarrow> (\<exists>v. m = Inr v \<and> f v = Inr r)"
  by (cases m) simp_all

lemma bindE_eq_Inl:
  "bindE m f = Inl e \<longleftrightarrow> m = Inl e \<or> (\<exists>v. m = Inr v \<and> f v = Inl e)"
  by (cases m) simp_all

lemma wrapE_Inl [simp, res_simps]: "wrapE msg (Inl e) = Inl (Wrap msg [e])"
  by (simp add: wrapE_def)

lemma wrapE_Inr [simp, res_simps]: "wrapE msg (Inr v) = Inr v"
  by (simp add: wrapE_def)

lemma wrapE_eq_Inr [simp, res_dests]: "wrapE msg m = Inr r \<longleftrightarrow> m = Inr r"
  by (cases m) simp_all

lemma wrapE_eq_Inl: "wrapE msg m = Inl e \<longleftrightarrow> (\<exists>e'. m = Inl e' \<and> e = Wrap msg [e'])"
  by (cases m) auto

lemma wrapE2_Inl [simp, res_simps]: "wrapE2 msg s (Inl e) = Inl (Wrap msg [e, Sentinel s])"
  by (simp add: wrapE2_def)

lemma wrapE2_Inr [simp, res_simps]: "wrapE2 msg s (Inr v) = Inr v"
  by (simp add: wrapE2_def)

lemma wrapE2_eq_Inr [simp, res_dests]: "wrapE2 msg s m = Inr r \<longleftrightarrow> m = Inr r"
  by (cases m) simp_all

lemma not_isl_obtain: "\<not> isl m \<Longrightarrow> \<exists>v. m = Inr v"
  by (cases m) auto

lemma mapE_Inr_iff:
  "mapE f xs = Inr ys \<longleftrightarrow> list_all2 (\<lambda>x y. f x = Inr y) xs ys"
proof (induction xs arbitrary: ys)
  case Nil
  then show ?case by auto
next
  case (Cons x xs)
  show ?case
    by (cases ys) (auto simp: bindE_eq_Inr Cons.IH list_all2_Cons1)
qed

lemma mapE_map: "(\<And>x. x \<in> set xs \<Longrightarrow> f x = Inr (g x)) \<Longrightarrow> mapE f xs = Inr (map g xs)"
  by (induction xs) simp_all

lemma concatMapE_concat:
  "(\<And>x. x \<in> set xs \<Longrightarrow> f x = Inr (g x)) \<Longrightarrow> concatMapE f xs = Inr (concat (map g xs))"
  by (simp add: concatMapE_def mapE_map)

lemma concatMapE_pure [simp]: "concatMapE (\<lambda>x. Inr (g x)) xs = Inr (concat (map g xs))"
  by (simp add: concatMapE_concat)

lemma mapE_Inl_some: "mapE f xs = Inl e \<Longrightarrow> \<exists>x \<in> set xs. f x = Inl e"
  by (induction xs) (auto simp: bindE_eq_Inl)

lemma mapE_Inr_all: "mapE f xs = Inr ys \<Longrightarrow> x \<in> set xs \<Longrightarrow> \<exists>y \<in> set ys. f x = Inr y"
  by (auto simp: mapE_Inr_iff list_all2_conv_all_nth in_set_conv_nth)

lemma mapE_Inr_origin: "mapE f xs = Inr ys \<Longrightarrow> y \<in> set ys \<Longrightarrow> \<exists>x \<in> set xs. f x = Inr y"
  by (fastforce simp: mapE_Inr_iff list_all2_conv_all_nth in_set_conv_nth Bex_def)

lemma concatMapE_origin:
  assumes "concatMapE f xs = Inr r" and "y \<in> set r"
  shows "\<exists>x \<in> set xs. \<exists>ys. f x = Inr ys \<and> y \<in> set ys"
proof -
  from assms(1) obtain yss where m: "mapE f xs = Inr yss" and r: "r = concat yss"
    by (auto simp: concatMapE_def bindE_eq_Inr)
  from assms(2) r obtain ys where "ys \<in> set yss" "y \<in> set ys" by auto
  with m show ?thesis by (blast dest: mapE_Inr_origin)
qed

lemma concatMapE_member:
  assumes "concatMapE f xs = Inr r" "x \<in> set xs"
  shows "\<exists>ys. f x = Inr ys \<and> set ys \<subseteq> set r"
  using assms by (auto simp: concatMapE_def bindE_eq_Inr dest!: mapE_Inr_all)

lemma concatMapE_set:
  assumes "concatMapE f xs = Inr r" and "\<And>x ys. x \<in> set xs \<Longrightarrow> f x = Inr ys \<Longrightarrow> set ys = g x"
  shows "set r = (\<Union>x \<in> set xs. g x)"
proof -
  from assms(1) obtain yss where m: "mapE f xs = Inr yss" and r: "r = concat yss"
    by (auto simp: concatMapE_def bindE_eq_Inr)
  from m assms(2) have "list_all2 (\<lambda>x ys. x \<in> set xs \<and> set ys = g x) xs yss"
    by (auto simp: mapE_Inr_iff list_all2_conv_all_nth)
  then have "map g xs = map set yss"
    by (auto simp: list_all2_conv_all_nth intro: nth_equalityI)
  then have "g ` set xs = set ` set yss" by (metis list.set_map)
  then show ?thesis using r by simp
qed

lemma concatMapE_eq_Inr:
  "concatMapE f [] = Inr []"
  "concatMapE f (x # xs) = bindE (f x) (\<lambda>ys. bindE (concatMapE f xs) (\<lambda>zs. Inr (ys @ zs)))"
  by (auto simp: concatMapE_def bindE_def split: sum.splits)

text \<open>
  \<open>okE P m\<close>: whatever slice \<open>m\<close> returns, its elements satisfy \<open>P\<close>. The rules follow the
  structure of a function that accumulates results.
\<close>

definition okE :: "('a \<Rightarrow> bool) \<Rightarrow> 'a list res \<Rightarrow> bool" where
  "okE P m = (\<forall>xs. m = Inr xs \<longrightarrow> list_all P xs)"

lemma okE_D: "okE P m \<Longrightarrow> m = Inr xs \<Longrightarrow> x \<in> set xs \<Longrightarrow> P x"
  by (simp add: okE_def list_all_iff)

lemma okE_Inl [okE_intros]: "okE P (Inl e)"
  by (simp add: okE_def)

lemma okE_Inr [okE_intros]: "list_all P xs \<Longrightarrow> okE P (Inr xs)"
  by (simp add: okE_def)

lemma okE_wrapE [okE_intros]: "okE P m \<Longrightarrow> okE P (wrapE msg m)"
  by (simp add: okE_def)

lemma okE_bindE: "(\<And>v. m = Inr v \<Longrightarrow> okE P (f v)) \<Longrightarrow> okE P (bindE m f)"
  by (auto simp: okE_def bindE_eq_Inr)

lemma okE_bindE_list:
  "okE P m \<Longrightarrow> (\<And>v. list_all P v \<Longrightarrow> okE P (f v)) \<Longrightarrow> okE P (bindE m f)"
  by (auto simp: okE_def bindE_eq_Inr)

lemma okE_if [okE_intros]: "(b \<Longrightarrow> okE P m) \<Longrightarrow> (\<not> b \<Longrightarrow> okE P n) \<Longrightarrow> okE P (if b then m else n)"
  by simp

lemma okE_concatMapE [okE_intros]:
  "(\<And>x. x \<in> set xs \<Longrightarrow> okE P (f x)) \<Longrightarrow> okE P (concatMapE f xs)"
  by (auto simp: okE_def list_all_iff dest!: concatMapE_origin)

lemma okE_concatMapE_all:
  "list_all Q xs \<Longrightarrow> (\<And>x. Q x \<Longrightarrow> okE P (f x)) \<Longrightarrow> okE P (concatMapE f xs)"
  by (rule okE_concatMapE) (simp add: list_all_iff)

lemma list_all_mapI: "list_all Q xs \<Longrightarrow> (\<And>x. Q x \<Longrightarrow> P (f x)) \<Longrightarrow> list_all P (map f xs)"
  by (simp add: list_all_iff)

text \<open>\<open>errE Q m\<close>: if \<open>m\<close> fails, its error satisfies \<open>Q\<close>.\<close>

definition errE :: "(goerr \<Rightarrow> bool) \<Rightarrow> 'a res \<Rightarrow> bool" where
  "errE Q m = (\<forall>e. m = Inl e \<longrightarrow> Q e)"

lemma errE_Inr [errE_intros]: "errE Q (Inr v)"
  by (simp add: errE_def)

lemma errE_Inl [errE_intros]: "Q e \<Longrightarrow> errE Q (Inl e)"
  by (simp add: errE_def)

lemma errE_bindE [errE_intros]:
  "errE Q m \<Longrightarrow> (\<And>v. m = Inr v \<Longrightarrow> errE Q (f v)) \<Longrightarrow> errE Q (bindE m f)"
  by (auto simp: errE_def bindE_eq_Inl)

lemma errE_if [errE_intros]: "(b \<Longrightarrow> errE Q m) \<Longrightarrow> (\<not> b \<Longrightarrow> errE Q n) \<Longrightarrow> errE Q (if b then m else n)"
  by simp

lemma errE_mapE [errE_intros]: "(\<And>x. x \<in> set xs \<Longrightarrow> errE Q (f x)) \<Longrightarrow> errE Q (mapE f xs)"
  by (auto simp: errE_def dest!: mapE_Inl_some)

lemma errE_concatMapE [errE_intros]: "(\<And>x. x \<in> set xs \<Longrightarrow> errE Q (f x)) \<Longrightarrow> errE Q (concatMapE f xs)"
  unfolding concatMapE_def by (intro errE_intros)

section \<open>Results with a state\<close>

text \<open>
  Code that changes a state and may fail: the state of a failed step is kept, since nothing is
  rolled back. \<open>ignoreS\<close> is a call whose error is only logged.
\<close>

type_synonym ('a, 's) step = "'s \<Rightarrow> 'a res \<times> 's"

definition returnS :: "'a \<Rightarrow> ('a, 's) step" where
  "returnS v s = (Inr v, s)"

definition failS :: "goerr \<Rightarrow> ('a, 's) step" where
  "failS e s = (Inl e, s)"

definition bindS :: "('a, 's) step \<Rightarrow> ('a \<Rightarrow> ('b, 's) step) \<Rightarrow> ('b, 's) step" where
  "bindS m f s = (case m s of (Inl e, s') \<Rightarrow> (Inl e, s') | (Inr v, s') \<Rightarrow> f v s')"

definition wrapS :: "string \<Rightarrow> ('a, 's) step \<Rightarrow> ('a, 's) step" where
  "wrapS msg m s = (case m s of (r, s') \<Rightarrow> (wrapE msg r, s'))"

definition ignoreS :: "('a, 's) step \<Rightarrow> 's \<Rightarrow> 's" where
  "ignoreS m s = snd (m s)"

lemma bindS_eq:
  "bindS m f s = (r, t) \<longleftrightarrow> (\<exists>e. m s = (Inl e, t) \<and> r = Inl e) \<or> (\<exists>v s'. m s = (Inr v, s') \<and> f v s' = (r, t))"
  by (auto simp: bindS_def split: prod.splits sum.splits)

lemma bindS_Inr: "bindS m f s = (Inr v, t) \<longleftrightarrow> (\<exists>u s'. m s = (Inr u, s') \<and> f u s' = (Inr v, t))"
  by (auto simp: bindS_eq)

lemma stepS_simps [simp]: "returnS v s = (Inr v, s)" "failS e s = (Inl e, s)"
  by (simp_all add: returnS_def failS_def)

text \<open>A property of the state that a step keeps, whatever its result.\<close>

definition keepsS :: "('s \<Rightarrow> bool) \<Rightarrow> ('a, 's) step \<Rightarrow> bool" where
  "keepsS P m = (\<forall>s. P s \<longrightarrow> P (snd (m s)))"

lemma keepsS_return [keepsS_intros]: "keepsS P (returnS v)" "keepsS P (failS e)"
  by (simp_all add: keepsS_def)

lemma keepsS_bind [keepsS_intros]: "keepsS P m \<Longrightarrow> (\<And>v. keepsS P (f v)) \<Longrightarrow> keepsS P (bindS m f)"
  by (fastforce simp: keepsS_def bindS_def split: prod.splits sum.splits)

lemma keepsS_wrap [keepsS_intros]: "keepsS P m \<Longrightarrow> keepsS P (wrapS msg m)"
  by (fastforce simp: keepsS_def wrapS_def split: prod.splits)

lemma keepsS_if [keepsS_intros]: "(b \<Longrightarrow> keepsS P m) \<Longrightarrow> (\<not> b \<Longrightarrow> keepsS P n) \<Longrightarrow> keepsS P (if b then m else n)"
  by simp

lemma keepsS_ignore: "keepsS P m \<Longrightarrow> P s \<Longrightarrow> P (ignoreS m s)"
  by (simp add: keepsS_def ignoreS_def)

text \<open>A step that succeeds in every state.\<close>

definition succeedsS :: "('a, 's) step \<Rightarrow> bool" where
  "succeedsS m = (\<forall>s. \<exists>v t. m s = (Inr v, t))"

lemma succeedsS_return [succeedsS_intros]: "succeedsS (returnS v)"
  by (simp add: succeedsS_def)

lemma succeedsS_bind [succeedsS_intros]: "succeedsS m \<Longrightarrow> (\<And>v. succeedsS (f v)) \<Longrightarrow> succeedsS (bindS m f)"
  by (simp add: succeedsS_def bindS_Inr) metis

lemma succeedsS_wrap [succeedsS_intros]:
  assumes "succeedsS m"
  shows "succeedsS (wrapS msg m)"
  unfolding succeedsS_def
proof
  fix s
  obtain v t where "m s = (Inr v, t)" using assms unfolding succeedsS_def by blast
  then show "\<exists>v t. wrapS msg m s = (Inr v, t)" by (simp add: wrapS_def)
qed

lemma succeedsS_if [succeedsS_intros]: "(b \<Longrightarrow> succeedsS m) \<Longrightarrow> (\<not> b \<Longrightarrow> succeedsS n) \<Longrightarrow> succeedsS (if b then m else n)"
  by simp

lemma succeedsS_unit: "succeedsS m \<Longrightarrow> \<exists>t. m s = (Inr (), t)"
  by (simp add: succeedsS_def)

lemma keepsS_D: "keepsS P m \<Longrightarrow> m s = (r, t) \<Longrightarrow> P s \<Longrightarrow> P t"
  by (metis keepsS_def snd_conv)

section \<open>Loops over slices\<close>

text \<open>
  The \<^verbatim>\<open>seen\<close>-map idiom: keep the first occurrence of each element, in order. HOL's
  \<open>remdups\<close> keeps the last one.
\<close>

fun dedup_from :: "'a list \<Rightarrow> 'a list \<Rightarrow> 'a list" where
  "dedup_from seen [] = []"
| "dedup_from seen (x # xs) =
     (if x \<in> set seen then dedup_from seen xs else x # dedup_from (x # seen) xs)"

definition dedup :: "'a list \<Rightarrow> 'a list" where
  "dedup xs = dedup_from [] xs"

lemma set_dedup_from: "set (dedup_from seen xs) = set xs - set seen"
  by (induction seen xs rule: dedup_from.induct) auto

lemma set_dedup [simp]: "set (dedup xs) = set xs"
  by (simp add: dedup_def set_dedup_from)

lemma distinct_dedup_from: "distinct (dedup_from seen xs)"
  by (induction seen xs rule: dedup_from.induct) (auto simp: set_dedup_from)

lemma distinct_dedup [simp]: "distinct (dedup xs)"
  by (simp add: dedup_def distinct_dedup_from)

lemma dedup_from_id: "distinct xs \<Longrightarrow> set xs \<inter> set seen = {} \<Longrightarrow> dedup_from seen xs = xs"
  by (induction seen xs rule: dedup_from.induct) auto

lemma dedup_id: "distinct xs \<Longrightarrow> dedup xs = xs"
  by (simp add: dedup_def dedup_from_id)

lemma dedup_from_snoc:
  "dedup_from seen (xs @ [x]) = dedup_from seen xs @ (if x \<in> set seen \<union> set xs then [] else [x])"
  by (induction seen xs rule: dedup_from.induct) auto

lemma dedup_snoc: "dedup (xs @ [x]) = (if x \<in> set xs then dedup xs else dedup xs @ [x])"
  by (simp add: dedup_def dedup_from_snoc)

lemma sorted_strict_unique:
  fixes xs ys :: "'a::linorder list"
  assumes "sorted xs" "distinct xs" "sorted ys" "distinct ys" "set xs = set ys"
  shows "xs = ys"
  using assms by (rule sorted_distinct_set_unique)

lemma distinct_map_unique: "distinct (map f xs) \<Longrightarrow> x \<in> set xs \<Longrightarrow> y \<in> set xs \<Longrightarrow> f x = f y \<Longrightarrow> x = y"
  by (auto simp: distinct_map dest: inj_onD)

lemma filter_head: "filter P xs = z # zs \<Longrightarrow> z \<in> set xs \<and> P z"
  by (auto dest!: arg_cong [of _ _ set])

lemma split_at_first:
  "c \<in> set s \<Longrightarrow>
     s = takeWhile (\<lambda>d. d \<noteq> c) s @ c # drop (Suc (length (takeWhile (\<lambda>d. d \<noteq> c) s))) s"
  by (induction s) auto

lemma takeWhile_first: "c \<notin> set a \<Longrightarrow> takeWhile (\<lambda>d. d \<noteq> c) (a @ c # b) = a"
  by (induction a) auto

lemma split_first_unique:
  assumes "a @ c # b = a' @ c # b'" "c \<notin> set a" "c \<notin> set a'"
  shows "a = a' \<and> b = b'"
  using takeWhile_first [OF assms(2), of b] takeWhile_first [OF assms(3), of b'] assms(1) by auto

section \<open>Text as lines\<close>

text \<open>
  The compiler writes whole lines into a \<^verbatim>\<open>strings.Builder\<close>. The model keeps the builder as
  the list of its lines without their newline; \<open>unlines\<close> is the text the builder returns.
\<close>

abbreviation NL :: char where "NL \<equiv> CHR 0x0A"

type_synonym builder = "string list"

definition unlines :: "builder \<Rightarrow> string" where
  "unlines ls = concat (map (\<lambda>l. l @ [NL]) ls)"

lemma unlines_Nil [simp]: "unlines [] = []"
  by (simp add: unlines_def)

lemma unlines_Cons [simp]: "unlines (l # ls) = l @ [NL] @ unlines ls"
  by (simp add: unlines_def)

lemma unlines_append [simp]: "unlines (xs @ ys) = unlines xs @ unlines ys"
  by (simp add: unlines_def)

end
