(* ===== verification/Go_Strings.thy ===== *)
theory Go_Strings
  imports Prelude "HOL-Library.Sublist"
begin

text \<open>
  The functions of Go's \<^verbatim>\<open>strings\<close>, \<^verbatim>\<open>strconv\<close> and \<^verbatim>\<open>fmt\<close> packages that the program
  calls, on byte strings. A Go string is a sequence of bytes, so \<^typ>\<open>string\<close> (a list of
  8-bit characters) has the same values.
\<close>

section \<open>Substrings\<close>

definition hasPrefix :: "string \<Rightarrow> string \<Rightarrow> bool" where
  "hasPrefix s p = (take (length p) s = p)"

lemma hasPrefix_Cons [simp]: "hasPrefix (c # s) (d # p) \<longleftrightarrow> c = d \<and> hasPrefix s p" "hasPrefix s []"
    "hasPrefix [] p \<longleftrightarrow> p = []"
  by (auto simp: hasPrefix_def)

lemma hasPrefix_code [code]:
  "hasPrefix s [] = True" "hasPrefix [] (d # p) = False" "hasPrefix (c # s) (d # p) = (c = d \<and> hasPrefix s p)"
  by simp_all

definition trimPrefix :: "string \<Rightarrow> string \<Rightarrow> string" where
  "trimPrefix s p = (if hasPrefix s p then drop (length p) s else s)"

text \<open>\<^verbatim>\<open>strings.Contains\<close> for a one-byte substring.\<close>

definition containsByte :: "string \<Rightarrow> char \<Rightarrow> bool" where
  "containsByte s c = (c \<in> set s)"

text \<open>\<^verbatim>\<open>strings.Count\<close> for a one-byte substring.\<close>

definition countByte :: "string \<Rightarrow> char \<Rightarrow> nat" where
  "countByte s c = length (filter (\<lambda>d. d = c) s)"

text \<open>\<^verbatim>\<open>strings.Split\<close> on a one-byte separator: always at least one piece.\<close>

fun splitByte :: "char \<Rightarrow> string \<Rightarrow> string list" where
  "splitByte c [] = [[]]"
| "splitByte c (d # s) =
     (if d = c then [] # splitByte c s
      else (case splitByte c s of [] \<Rightarrow> [[d]] | p # ps \<Rightarrow> (d # p) # ps))"

text \<open>\<^verbatim>\<open>strings.Join\<close>.\<close>

fun join :: "string \<Rightarrow> string list \<Rightarrow> string" where
  "join sep [] = []"
| "join sep [x] = x"
| "join sep (x # y # xs) = x @ sep @ join sep (y # xs)"

text \<open>\<^verbatim>\<open>strings.ReplaceAll\<close> with a non-empty old string: non-overlapping, left to right.\<close>

function replaceAll :: "string \<Rightarrow> string \<Rightarrow> string \<Rightarrow> string" where
  "replaceAll [] old new = []"
| "replaceAll (c # s) old new =
     (if old \<noteq> [] \<and> hasPrefix (c # s) old
      then new @ replaceAll (drop (length old) (c # s)) old new
      else c # replaceAll s old new)"
  by pat_completeness auto
termination
  by (relation "measure (\<lambda>(s, old, new). length s)") auto

lemma splitByte_not_Nil [simp]: "splitByte c s \<noteq> []"
  by (induction c s rule: splitByte.induct) (auto split: list.splits)

lemma splitByte_no_sep: "c \<notin> set s \<Longrightarrow> splitByte c s = [s]"
  by (induction s) auto

lemma splitByte_append_sep:
  "c \<notin> set p \<Longrightarrow> splitByte c (p @ c # s) = p # splitByte c s"
  by (induction p) auto

lemma splitByte_append: "splitByte c (p @ c # s) = splitByte c p @ splitByte c s"
  by (induction p) (auto split: list.splits)

lemma splitByte_parts: "p \<in> set (splitByte c s) \<Longrightarrow> c \<notin> set p"
  by (induction c s arbitrary: p rule: splitByte.induct) (auto split: if_splits list.splits)

lemma splitByte_part_chars: "p \<in> set (splitByte c s) \<Longrightarrow> set p \<subseteq> set s"
proof (induction c s arbitrary: p rule: splitByte.induct)
  case (1 c)
  then show ?case by simp
next
  case (2 c d s)
  show ?case
  proof (cases "splitByte c s")
    case Nil
    then show ?thesis by simp
  next
    case (Cons q qs)
    with 2 show ?thesis by (fastforce split: if_splits)
  qed
qed

lemma join_splitByte: "join [c] (splitByte c s) = s"
proof (induction c s rule: splitByte.induct)
  case (1 c)
  then show ?case by simp
next
  case (2 c d s)
  show ?case
  proof (cases "splitByte c s")
    case Nil
    then show ?thesis by simp
  next
    case (Cons q qs)
    with 2 show ?thesis by (cases qs) auto
  qed
qed

lemma splitByte_join:
  "xs \<noteq> [] \<Longrightarrow> (\<And>x. x \<in> set xs \<Longrightarrow> c \<notin> set x) \<Longrightarrow> splitByte c (join [c] xs) = xs"
proof (induction "[c]" xs rule: join.induct)
  case 1
  then show ?case by simp
next
  case (2 x)
  then show ?case by (simp add: splitByte_no_sep)
next
  case (3 x y xs)
  then show ?case by (simp add: splitByte_append_sep)
qed

lemma hasPrefix_append [simp]: "hasPrefix (p @ s) p"
  by (simp add: hasPrefix_def)

lemma trimPrefix_append [simp]: "trimPrefix (p @ s) p = s"
  by (simp add: trimPrefix_def)

lemma hasPrefixD: "hasPrefix s p \<Longrightarrow> \<exists>t. s = p @ t"
  by (metis append_take_drop_id hasPrefix_def)

text \<open>The index of the last occurrence of a byte.\<close>

definition lastIndexByte :: "string \<Rightarrow> char \<Rightarrow> nat option" where
  "lastIndexByte s c =
     (if c \<in> set s then Some (length s - Suc (length (takeWhile (\<lambda>d. d \<noteq> c) (rev s)))) else None)"

lemma lastIndexByte_append:
  assumes "c \<notin> set t"
  shows "lastIndexByte (s @ c # t) c = Some (length s)"
proof -
  have "takeWhile (\<lambda>d. d \<noteq> c) (rev t @ c # rev s) = rev t"
    using assms by (induction t rule: rev_induct) auto
  then show ?thesis by (simp add: lastIndexByte_def)
qed

section \<open>Letter case\<close>

definition isUpper :: "char \<Rightarrow> bool" where
  "isUpper c = (let n = (of_char c :: nat) in 65 \<le> n \<and> n \<le> 90)"

definition isLower :: "char \<Rightarrow> bool" where
  "isLower c = (let n = (of_char c :: nat) in 97 \<le> n \<and> n \<le> 122)"

definition isDigit :: "char \<Rightarrow> bool" where
  "isDigit c = (let n = (of_char c :: nat) in 48 \<le> n \<and> n \<le> 57)"

definition lowerByte :: "char \<Rightarrow> char" where
  "lowerByte c = (if isUpper c then char_of ((of_char c :: nat) + 32) else c)"

text \<open>
  \<^verbatim>\<open>strings.ToLower\<close>. Beside the ASCII letters, two code points have an ASCII lower case:
  U+0130 (bytes C4 B0) becomes \<^verbatim>\<open>i\<close> and U+212A (bytes E2 84 AA) becomes \<^verbatim>\<open>k\<close>. Every
  other non-ASCII letter has a non-ASCII lower case; its bytes are kept as they are, which no
  caller distinguishes.
\<close>

fun toLower :: "string \<Rightarrow> string" where
  "toLower [] = []"
| "toLower (c # s) =
     (if c = CHR 0xC4 \<and> take 1 s = [CHR 0xB0] then CHR ''i'' # toLower (drop 1 s)
      else if c = CHR 0xE2 \<and> take 2 s = [CHR 0x84, CHR 0xAA] then CHR ''k'' # toLower (drop 2 s)
      else lowerByte c # toLower s)"

text \<open>
  \<^verbatim>\<open>strings.EqualFold(s, t)\<close> for an ASCII \<open>t\<close>. The fold orbit of an ASCII letter is its two
  cases, and also U+017F (bytes C5 BF) for \<^verbatim>\<open>s\<close> and U+212A for \<^verbatim>\<open>k\<close>.
\<close>

fun equalFold :: "string \<Rightarrow> string \<Rightarrow> bool" where
  "equalFold s [] = (s = [])"
| "equalFold [] (d # t) = False"
| "equalFold (c # s) (d # t) =
     (if lowerByte c = lowerByte d then equalFold s t
      else if lowerByte d = CHR ''s'' \<and> c = CHR 0xC5 \<and> take 1 s = [CHR 0xBF]
      then equalFold (drop 1 s) t
      else if lowerByte d = CHR ''k'' \<and> c = CHR 0xE2 \<and> take 2 s = [CHR 0x84, CHR 0xAA]
      then equalFold (drop 2 s) t
      else False)"

lemma equalFold_refl: "equalFold s s"
  by (induction s) auto

section \<open>White space\<close>

text \<open>
  The length in bytes of the Unicode white-space character a string starts with, 0 when it
  starts with anything else. The multi-byte spaces start with a UTF-8 lead byte, so they are
  found at the same positions by a scan over bytes and by a scan over runes.
\<close>

definition spaceLen :: "string \<Rightarrow> nat" where
  "spaceLen s =
     (if s = [] then 0
      else if hd s \<in> set [CHR 0x09, CHR 0x0A, CHR 0x0B, CHR 0x0C, CHR 0x0D, CHR 0x20] then 1
      else if take 2 s \<in> set [[CHR 0xC2, CHR 0x85], [CHR 0xC2, CHR 0xA0]] then 2
      else if take 3 s \<in> set
        [[CHR 0xE1, CHR 0x9A, CHR 0x80], [CHR 0xE2, CHR 0x80, CHR 0x80],
         [CHR 0xE2, CHR 0x80, CHR 0x81], [CHR 0xE2, CHR 0x80, CHR 0x82],
         [CHR 0xE2, CHR 0x80, CHR 0x83], [CHR 0xE2, CHR 0x80, CHR 0x84],
         [CHR 0xE2, CHR 0x80, CHR 0x85], [CHR 0xE2, CHR 0x80, CHR 0x86],
         [CHR 0xE2, CHR 0x80, CHR 0x87], [CHR 0xE2, CHR 0x80, CHR 0x88],
         [CHR 0xE2, CHR 0x80, CHR 0x89], [CHR 0xE2, CHR 0x80, CHR 0x8A],
         [CHR 0xE2, CHR 0x80, CHR 0xA8], [CHR 0xE2, CHR 0x80, CHR 0xA9],
         [CHR 0xE2, CHR 0x80, CHR 0xAF], [CHR 0xE2, CHR 0x81, CHR 0x9F],
         [CHR 0xE3, CHR 0x80, CHR 0x80]] then 3
      else 0)"

text \<open>A string as units: each unit is a white-space character or one other byte.\<close>

function units :: "string \<Rightarrow> (bool \<times> string) list" where
  "units [] = []"
| "units (c # s) =
     (case spaceLen (c # s) of
        0 \<Rightarrow> (False, [c]) # units s
      | Suc n \<Rightarrow> (True, take (Suc n) (c # s)) # units (drop n s))"
  by pat_completeness auto
termination
  by (relation "measure length") auto

text \<open>\<^verbatim>\<open>strings.TrimSpace\<close>.\<close>

definition trimSpace :: "string \<Rightarrow> string" where
  "trimSpace s = concat (map snd (rev (dropWhile fst (rev (dropWhile fst (units s))))))"

text \<open>\<^verbatim>\<open>strings.Fields\<close>: the maximal runs of non-space characters.\<close>

fun fieldsFrom :: "string \<Rightarrow> (bool \<times> string) list \<Rightarrow> string list" where
  "fieldsFrom acc [] = (if acc = [] then [] else [acc])"
| "fieldsFrom acc ((True, u) # us) =
     (if acc = [] then fieldsFrom [] us else acc # fieldsFrom [] us)"
| "fieldsFrom acc ((False, u) # us) = fieldsFrom (acc @ u) us"

definition stringFields :: "string \<Rightarrow> string list" where
  "stringFields s = fieldsFrom [] (units s)"

text \<open>A token: non-empty, printable ASCII without white space.\<close>

definition tokenChar :: "char \<Rightarrow> bool" where
  "tokenChar c = (let n = (of_char c :: nat) in 32 < n \<and> n < 128)"

definition isToken :: "string \<Rightarrow> bool" where
  "isToken s = (s \<noteq> [] \<and> list_all tokenChar s)"

lemma spaceLen_tokenChar:
  assumes "tokenChar c"
  shows "spaceLen (c # s) = 0"
proof -
  have "\<not> tokenChar x" if "x \<in> set [CHR 0x09, CHR 0x0A, CHR 0x0B, CHR 0x0C, CHR 0x0D, CHR 0x20, CHR 0xC2, CHR 0xE1, CHR 0xE2, CHR 0xE3]" for x
    using that by (auto simp: tokenChar_def)
  with assms have "c \<notin> set [CHR 0x09, CHR 0x0A, CHR 0x0B, CHR 0x0C, CHR 0x0D, CHR 0x20, CHR 0xC2, CHR 0xE1, CHR 0xE2, CHR 0xE3]"
    by blast
  then have "c \<noteq> CHR 0x09" "c \<noteq> CHR 0x0A" "c \<noteq> CHR 0x0B" "c \<noteq> CHR 0x0C" "c \<noteq> CHR 0x0D" "c \<noteq> CHR 0x20"
    "c \<noteq> CHR 0xC2" "c \<noteq> CHR 0xE1" "c \<noteq> CHR 0xE2" "c \<noteq> CHR 0xE3"
    by simp_all
  then show ?thesis by (simp add: spaceLen_def)
qed

lemma fieldsFrom_space [simp]:
  "fieldsFrom acc (units (CHR '' '' # s)) = (if acc = [] then fieldsFrom [] (units s) else acc # fieldsFrom [] (units s))"
  by (simp add: spaceLen_def)

lemma fieldsFrom_tokenChar: "tokenChar c \<Longrightarrow> fieldsFrom acc (units (c # s)) = fieldsFrom (acc @ [c]) (units s)"
  by (simp add: spaceLen_tokenChar)

lemma fieldsFrom_token: "list_all tokenChar t \<Longrightarrow> fieldsFrom acc (units (t @ s)) = fieldsFrom (acc @ t) (units s)"
  by (induction t arbitrary: acc) (simp_all add: fieldsFrom_tokenChar del: units.simps)

lemma stringFields_token: "isToken t \<Longrightarrow> stringFields t = [t]"
  using fieldsFrom_token [of t "[]" "[]"] by (simp add: stringFields_def isToken_def)

lemma stringFields_token_space: "isToken t \<Longrightarrow> stringFields (t @ CHR '' '' # s) = t # stringFields s"
  using fieldsFrom_token [of t "[]" "CHR '' '' # s"] by (simp add: stringFields_def isToken_def del: units.simps)

lemma stringFields_space [simp]: "stringFields (CHR '' '' # s) = stringFields s" "stringFields [] = []"
  by (simp_all add: stringFields_def del: units.simps(2))

text \<open>\<^verbatim>\<open>strings.Trim(s, cut)\<close> for a one-byte cut set.\<close>

definition trimByte :: "char \<Rightarrow> string \<Rightarrow> string" where
  "trimByte c s = rev (dropWhile (\<lambda>d. d = c) (rev (dropWhile (\<lambda>d. d = c) s)))"

section \<open>Substrings\<close>

text \<open>\<^verbatim>\<open>strings.Index\<close> and \<^verbatim>\<open>strings.Contains\<close>.\<close>

fun indexStr :: "string \<Rightarrow> string \<Rightarrow> nat option" where
  "indexStr [] p = (if p = [] then Some 0 else None)"
| "indexStr (c # s) p = (if hasPrefix (c # s) p then Some 0 else map_option Suc (indexStr s p))"

definition containsStr :: "string \<Rightarrow> string \<Rightarrow> bool" where
  "containsStr s p = (indexStr s p \<noteq> None)"

text \<open>\<^verbatim>\<open>strings.TrimRight\<close> for a one-byte cut set.\<close>

definition trimRightByte :: "char \<Rightarrow> string \<Rightarrow> string" where
  "trimRightByte c s = rev (dropWhile (\<lambda>d. d = c) (rev s))"

lemma hasPrefix_iff: "hasPrefix s p \<longleftrightarrow> (\<exists>t. s = p @ t)"
  by (auto dest: hasPrefixD)

lemma containsStr_iff: "containsStr s p \<longleftrightarrow> (\<exists>a b. s = a @ p @ b)"
proof (induction s)
  case Nil
  then show ?case by (simp add: containsStr_def)
next
  case (Cons c s)
  have "(\<exists>a b. c # s = a @ p @ b) \<longleftrightarrow> hasPrefix (c # s) p \<or> (\<exists>a b. s = a @ p @ b)"
    unfolding hasPrefix_iff by (metis append_Cons append_Nil list.exhaust list.inject)
  with Cons show ?case by (auto simp: containsStr_def)
qed

lemma containsStr_line:
  assumes "c \<notin> set p" "p \<noteq> []"
  shows "containsStr (l @ c # s) p \<longleftrightarrow> containsStr l p \<or> containsStr s p"
proof
  assume "containsStr (l @ c # s) p"
  then obtain a b where "l @ c # s = a @ p @ b" by (auto simp: containsStr_iff)
  then consider u where "l = a @ u" "u @ c # s = p @ b" | u where "l @ u = a" "c # s = u @ p @ b"
    by (auto simp: append_eq_append_conv2)
  then show "containsStr l p \<or> containsStr s p"
  proof cases
    case 1
    from 1(2) consider v where "u = p @ v" | v where "u @ v = p" "c # s = v @ b" by (auto simp: append_eq_append_conv2)
    then show ?thesis
    proof cases
      case 1
      with \<open>l = a @ u\<close> show ?thesis by (auto simp: containsStr_iff)
    next
      case (2 v)
      with assms(1) have "v = []" by (cases v) auto
      with 2 \<open>l = a @ u\<close> have "l = a @ p @ []" by simp
      then show ?thesis unfolding containsStr_iff by blast
    qed
  next
    case (2 u)
    with assms obtain u' where "s = u' @ p @ b" by (cases u) (auto simp: Cons_eq_append_conv)
    then show ?thesis by (auto simp: containsStr_iff)
  qed
next
  assume "containsStr l p \<or> containsStr s p"
  then show "containsStr (l @ c # s) p"
    by (auto simp: containsStr_iff) (metis append_assoc, metis append_Cons append_assoc)
qed

lemma hasPrefix_line: "c \<notin> set p \<Longrightarrow> hasPrefix (l @ c # s) p \<longleftrightarrow> hasPrefix l p"
proof (induction l arbitrary: p)
  case Nil
  then show ?case by (cases p) auto
next
  case (Cons d l)
  then show ?case by (cases p) auto
qed

lemma indexStr_line:
  "c \<notin> set p \<Longrightarrow> p \<noteq> [] \<Longrightarrow> \<not> containsStr l p \<Longrightarrow>
     indexStr (l @ c # s) p = map_option (\<lambda>i. i + length l + 1) (indexStr s p)"
proof (induction l)
  case Nil
  then have "\<not> hasPrefix (c # s) p" by (cases p) (auto simp: hasPrefix_def)
  then show ?case by (cases "indexStr s p") simp_all
next
  case (Cons d l)
  then have "\<not> hasPrefix (d # l) p" "\<not> containsStr l p" by (auto simp: containsStr_def split: if_splits)
  with Cons hasPrefix_line [of c p "d # l" s] show ?case by (cases "indexStr s p") simp_all
qed

lemma indexStr_prefix: "hasPrefix s p \<Longrightarrow> indexStr s p = Some 0"
  by (cases s) (simp_all add: hasPrefix_def)

lemma containsStr_char: "containsStr s p \<Longrightarrow> c \<in> set p \<Longrightarrow> c \<in> set s"
  by (auto simp: containsStr_iff)

section \<open>Numbers\<close>

definition digitVal :: "char \<Rightarrow> nat" where
  "digitVal c = (of_char c :: nat) - 48"

definition digitChar :: "nat \<Rightarrow> char" where
  "digitChar d = ''0123456789'' ! d"

text \<open>The value of a digit string, most significant digit first.\<close>

fun decFrom :: "nat \<Rightarrow> string \<Rightarrow> nat" where
  "decFrom acc [] = acc"
| "decFrom acc (c # s) = decFrom (acc * 10 + digitVal c) s"

text \<open>
  \<^verbatim>\<open>strconv.Atoi\<close>: an optional sign and at least one digit, in the range of a 64-bit
  \<^verbatim>\<open>int\<close>; \<^const>\<open>None\<close> is the error.
\<close>

definition atoi :: "string \<Rightarrow> int option" where
  "atoi s =
     (let neg = (take 1 s = ''-''); body = (if take 1 s = ''-'' \<or> take 1 s = ''+'' then drop 1 s else s)
      in if body = [] \<or> \<not> list_all isDigit body then None
         else let n = int (decFrom 0 body); v = (if neg then - n else n)
              in if - (2 ^ 63) \<le> v \<and> v < 2 ^ 63 then Some v else None)"

text \<open>The \<^verbatim>\<open>%d\<close> verb.\<close>

fun showNat :: "nat \<Rightarrow> string" where
  "showNat n = (if n < 10 then [digitChar n] else showNat (n div 10) @ [digitChar (n mod 10)])"

declare showNat.simps [simp del]

definition itoa :: "int \<Rightarrow> string" where
  "itoa i = (if i < 0 then ''-'' @ showNat (nat (- i)) else showNat (nat i))"

section \<open>Evaluation on literals\<close>

lemma showNat_small: "n < 10 \<Longrightarrow> showNat n = [digitChar n]"
  by (simp add: showNat.simps)

lemma showNat_numeral:
  "showNat (numeral k) =
     (if numeral k < (10 :: nat) then [digitChar (numeral k)]
      else showNat (numeral k div 10) @ [digitChar (numeral k mod 10)])"
  by (simp add: showNat.simps [of "numeral k"])

lemmas string_eval = showNat_small showNat_numeral hasPrefix_def trimPrefix_def containsByte_def countByte_def lastIndexByte_def
  isUpper_def isLower_def isDigit_def lowerByte_def char_of_def bit_Suc_0_iff spaceLen_def
  trimSpace_def stringFields_def trimByte_def digitVal_def digitChar_def atoi_def itoa_def

declare string_eval [go_eval]

end
