(* ===== verification/Go_Net.thy ===== *)
theory Go_Net
  imports Go_Strings "HOL-Library.Word"
begin

text \<open>
  The parts of Go's \<^verbatim>\<open>net\<close> and \<^verbatim>\<open>net/netip\<close> packages that decide which address strings
  the program accepts: \<^verbatim>\<open>ParseIP\<close>, \<^verbatim>\<open>ParseCIDR\<close>, \<^verbatim>\<open>IP.To4\<close>, \<^verbatim>\<open>IP.String\<close> and
  \<^verbatim>\<open>IPMask.Size\<close>. An address is its list of bytes; \<^verbatim>\<open>ParseIP\<close> returns sixteen bytes, an
  IPv4 address in its mapped form. An address with a zone is refused by every function used.
\<close>

unbundle bit_operations_syntax

type_synonym byte = "8 word"

section \<open>Addresses\<close>

text \<open>One IPv4 address: the digit loop of \<^verbatim>\<open>parseIPv4Fields\<close>.\<close>

fun v4scan :: "string \<Rightarrow> nat \<Rightarrow> nat \<Rightarrow> nat list \<Rightarrow> nat list option" where
  "v4scan [] val digLen fs = (if length fs < 3 then None else Some (fs @ [val]))"
| "v4scan (c # s) val digLen fs =
     (if isDigit c then
        (if digLen = 1 \<and> val = 0 then None
         else let val' = val * 10 + digitVal c
              in if val' > 255 then None else v4scan s val' (digLen + 1) fs)
      else if c = CHR ''.'' then
        (if digLen = 0 \<or> s = [] then None
         else if length fs = 3 then None
         else v4scan s 0 0 (fs @ [val]))
      else None)"

definition parseIPv4 :: "string \<Rightarrow> byte list option" where
  "parseIPv4 s = map_option (map of_nat) (v4scan s 0 0 [])"

definition isHex :: "char \<Rightarrow> bool" where
  "isHex c = (let n = (of_char c :: nat) in
     (48 \<le> n \<and> n \<le> 57) \<or> (97 \<le> n \<and> n \<le> 102) \<or> (65 \<le> n \<and> n \<le> 70))"

definition hexVal :: "char \<Rightarrow> nat" where
  "hexVal c = (let n = (of_char c :: nat) in
     if n \<le> 57 then n - 48 else if 97 \<le> n then n - 87 else n - 55)"

fun hexFrom :: "nat \<Rightarrow> string \<Rightarrow> nat" where
  "hexFrom acc [] = acc"
| "hexFrom acc (c # s) = hexFrom (acc * 16 + hexVal c) s"

text \<open>
  The group loop of \<^verbatim>\<open>parseIPv6\<close>. The counter is the number of 16-bit groups that still
  fit, so \<open>length ip = 16 - 2 * n\<close>; \<open>ell\<close> is the position of the ellipsis. The result is what
  is left of the text, the bytes read and the ellipsis.
\<close>

fun v6loop :: "nat \<Rightarrow> string \<Rightarrow> byte list \<Rightarrow> nat option \<Rightarrow> (string \<times> byte list \<times> nat option) option" where
  "v6loop 0 s ip ell = Some (s, ip, ell)"
| "v6loop (Suc n) s ip ell =
     (let hex = takeWhile isHex s; off = length hex; rest = drop off s; acc = hexFrom 0 hex in
      if off > 4 \<or> off = 0 then None
      else if take 1 rest = ''.'' then
        (if ell = None \<and> length ip \<noteq> 12 then None
         else if length ip + 4 > 16 then None
         else (case parseIPv4 s of None \<Rightarrow> None | Some bs \<Rightarrow> Some ([], ip @ bs, ell)))
      else
        (let ip' = ip @ [of_nat (acc div 256), of_nat (acc mod 256)] in
         case rest of
           [] \<Rightarrow> Some ([], ip', ell)
         | c # s1 \<Rightarrow>
             (if c \<noteq> CHR '':'' then None
              else (case s1 of
                      [] \<Rightarrow> None
                    | d # s2 \<Rightarrow>
                        (if d = CHR '':'' then
                           (if ell \<noteq> None then None
                            else if s2 = [] then Some ([], ip', Some (length ip'))
                            else v6loop n s2 ip' (Some (length ip')))
                         else v6loop n (d # s2) ip' ell)))))"

definition v6finish :: "string \<times> byte list \<times> nat option \<Rightarrow> byte list option" where
  "v6finish r = (case r of (s, ip, ell) \<Rightarrow>
     if s \<noteq> [] then None
     else if length ip < 16 then
       (case ell of None \<Rightarrow> None
        | Some e \<Rightarrow> Some (take e ip @ replicate (16 - length ip) 0 @ drop e ip))
     else if ell \<noteq> None then None else Some ip)"

definition parseIPv6 :: "string \<Rightarrow> byte list option" where
  "parseIPv6 s =
     (if CHR ''%'' \<in> set s then None
      else if take 2 s = ''::'' then
        (if drop 2 s = [] then Some (replicate 16 0)
         else Option.bind (v6loop 8 (drop 2 s) [] (Some 0)) v6finish)
      else Option.bind (v6loop 8 s [] None) v6finish)"

text \<open>\<^verbatim>\<open>netip.ParseAddr\<close>: the first of \<^verbatim>\<open>.\<close>, \<^verbatim>\<open>:\<close> and \<^verbatim>\<open>%\<close> selects the family.\<close>

datatype addr = A4 "byte list" | A6 "byte list"

definition parseAddr :: "string \<Rightarrow> addr option" where
  "parseAddr s =
     (case dropWhile (\<lambda>c. c \<noteq> CHR ''.'' \<and> c \<noteq> CHR '':'' \<and> c \<noteq> CHR ''%'') s of
        [] \<Rightarrow> None
      | c # _ \<Rightarrow> if c = CHR ''.'' then map_option A4 (parseIPv4 s)
                else if c = CHR '':'' then map_option A6 (parseIPv6 s)
                else None)"

definition v4prefix :: "byte list" where
  "v4prefix = replicate 10 0 @ [255, 255]"

fun as16 :: "addr \<Rightarrow> byte list" where
  "as16 (A4 bs) = v4prefix @ bs"
| "as16 (A6 bs) = bs"

fun bitLen :: "addr \<Rightarrow> nat" where
  "bitLen (A4 bs) = 32"
| "bitLen (A6 bs) = 128"

definition ParseIP :: "string \<Rightarrow> byte list option" where
  "ParseIP s = map_option as16 (parseAddr s)"

text \<open>\<^verbatim>\<open>IP.To4\<close> on a parsed address.\<close>

definition To4 :: "byte list \<Rightarrow> byte list option" where
  "To4 ip = (if length ip = 4 then Some ip
             else if length ip = 16 \<and> take 12 ip = v4prefix then Some (drop 12 ip)
             else None)"

text \<open>\<^verbatim>\<open>IP.String\<close> on four bytes.\<close>

definition dotted :: "byte list \<Rightarrow> string" where
  "dotted bs = join ''.'' (map (\<lambda>b. showNat (unat b)) bs)"

section \<open>Prefixes\<close>

text \<open>\<^verbatim>\<open>CIDRMask\<close>: \<open>n\<close> one bits over \<open>l\<close> bytes.\<close>

fun cidrMask :: "nat \<Rightarrow> nat \<Rightarrow> byte list" where
  "cidrMask n 0 = []"
| "cidrMask n (Suc l) =
     (if n \<ge> 8 then 255 # cidrMask (n - 8) l else NOT (drop_bit n 255) # cidrMask 0 l)"

record ipnet =
  net_ip :: "byte list"
  net_ones :: nat
  net_mask :: "byte list"

text \<open>
  \<^verbatim>\<open>ParseCIDR\<close>: the address as sixteen bytes, the prefix length (what \<^verbatim>\<open>Mask.Size\<close>
  reports) and the mask bytes, four for an IPv4 and sixteen for an IPv6 address.
\<close>

definition ParseCIDR :: "string \<Rightarrow> ipnet option" where
  "ParseCIDR s =
     (if CHR ''/'' \<notin> set s then None
      else
        (let a = takeWhile (\<lambda>c. c \<noteq> CHR ''/'') s; m = drop (Suc (length a)) s in
         case parseAddr a of
           None \<Rightarrow> None
         | Some ip \<Rightarrow>
             (if m = [] \<or> \<not> list_all isDigit m \<or> decFrom 0 m > bitLen ip then None
              else Some \<lparr>net_ip = as16 ip, net_ones = decFrom 0 m,
                         net_mask = cidrMask (decFrom 0 m) (bitLen ip div 8)\<rparr>)))"

section \<open>Evaluation by rewriting\<close>

lemmas v6loop_numeral = v6loop.simps(2) [of "pred_numeral k", folded numeral_eq_Suc] for k

lemmas cidrMask_numeral = cidrMask.simps(2) [of _ "pred_numeral k", folded numeral_eq_Suc] for k

lemma replicate_numeral_eval: "replicate (numeral k) x = x # replicate (pred_numeral k) x"
  by (simp add: numeral_eq_Suc)

lemmas net_eval = v6loop_numeral cidrMask_numeral replicate_numeral_eval Let_def
  isHex_def hexVal_def v6finish_def parseIPv4_def parseIPv6_def
  parseAddr_def ParseIP_def To4_def v4prefix_def ParseCIDR_def dotted_def

declare net_eval [go_eval]

section \<open>Shapes of the results\<close>

lemma v4scan_length: "v4scan s val d fs = Some r \<Longrightarrow> length fs \<le> 3 \<Longrightarrow> length r = 4"
  by (induction s val d fs rule: v4scan.induct) (auto simp: Let_def split: if_splits)

lemma v4scan_le_255:
  "v4scan s val d fs = Some r \<Longrightarrow> val \<le> 255 \<Longrightarrow> \<forall>f \<in> set fs. f \<le> 255 \<Longrightarrow> \<forall>f \<in> set r. f \<le> 255"
  by (induction s val d fs rule: v4scan.induct) (auto simp: Let_def split: if_splits)

lemma v4scan_chars:
  "v4scan s val d fs = Some r \<Longrightarrow> \<forall>c \<in> set s. isDigit c \<or> c = CHR ''.''"
  by (induction s val d fs rule: v4scan.induct) (auto simp: Let_def split: if_splits)

lemma parseIPv4_length: "parseIPv4 s = Some bs \<Longrightarrow> length bs = 4"
  by (auto simp: parseIPv4_def dest: v4scan_length)

lemma parseIPv4_chars: "parseIPv4 s = Some bs \<Longrightarrow> c \<in> set s \<Longrightarrow> isDigit c \<or> c = CHR ''.''"
  by (auto simp: parseIPv4_def dest: v4scan_chars)

lemma To4_v4prefix [simp]: "length bs = 4 \<Longrightarrow> To4 (v4prefix @ bs) = Some bs"
  by (simp add: To4_def v4prefix_def)

text \<open>An accepted address is made of hexadecimal digits, dots and colons only.\<close>

definition addrChar :: "char \<Rightarrow> bool" where
  "addrChar c = (isHex c \<or> c = CHR ''.'' \<or> c = CHR '':'')"

lemma isDigit_isHex: "isDigit c \<Longrightarrow> isHex c"
  by (auto simp: isDigit_def isHex_def Let_def)

lemma parseIPv4_addrChar: "parseIPv4 s = Some bs \<Longrightarrow> c \<in> set s \<Longrightarrow> addrChar c"
  by (auto simp: addrChar_def dest: parseIPv4_chars isDigit_isHex)

lemma set_take_drop_isHex:
  "c \<in> set s \<Longrightarrow> isHex c \<or> c \<in> set (drop (length (takeWhile isHex s)) s)"
  by (metis Un_iff dropWhile_eq_drop set_append set_takeWhileD takeWhile_dropWhile_id)

lemma v6loop_Suc_Some:
  assumes "v6loop (Suc n) s ip ell = Some r"
    and rest: "drop (length (takeWhile isHex s)) s = rest"
  shows "(\<exists>bs. parseIPv4 s = Some bs) \<or> rest = [] \<or> rest = ''::'' \<or>
    (\<exists>s2 ip' ell'. set rest \<subseteq> {CHR '':''} \<union> set s2 \<and> v6loop n s2 ip' ell' = Some r)"
proof (cases "take 1 rest = ''.''")
  case True
  with assms show ?thesis by (auto simp: Let_def split: if_splits option.splits)
next
  case nodot: False
  show ?thesis
  proof (cases rest)
    case (Cons c s1)
    with assms nodot obtain d s2 where c: "c = CHR '':''" and s1: "s1 = d # s2"
      by (cases s1) (auto simp: Let_def split: if_splits)
    let ?ip = "ip @ [of_nat (hexFrom 0 (takeWhile isHex s) div 256), of_nat (hexFrom 0 (takeWhile isHex s) mod 256)]"
    from assms Cons nodot c s1 consider "d = CHR '':''" "s2 = []"
      | "d = CHR '':''" "v6loop n s2 ?ip (Some (length ?ip)) = Some r"
      | "v6loop n (d # s2) ?ip ell = Some r"
      by (auto simp: Let_def split: if_splits)
    then show ?thesis
    proof cases
      case 3
      moreover have "set rest \<subseteq> {CHR '':''} \<union> set (d # s2)" using Cons c s1 by auto
      ultimately show ?thesis by blast
    qed (use Cons c s1 in auto)
  qed simp
qed

lemma v6loop_chars:
  "v6loop n s ip ell = Some ([], ip', ell') \<Longrightarrow> c \<in> set s \<Longrightarrow> addrChar c"
proof (induction n arbitrary: s ip ell)
  case 0
  then show ?case by simp
next
  case (Suc n)
  let ?rest = "drop (length (takeWhile isHex s)) s"
  have c: "addrChar c \<or> c \<in> set ?rest"
    using set_take_drop_isHex [OF Suc.prems(2)] by (auto simp: addrChar_def)
  from v6loop_Suc_Some [OF Suc.prems(1) refl] show ?case
  proof (elim disjE exE conjE)
    fix s2 ip'' ell''
    assume "set ?rest \<subseteq> {CHR '':''} \<union> set s2" "v6loop n s2 ip'' ell'' = Some ([], ip', ell')"
    with c Suc.IH show ?thesis by (auto simp: addrChar_def)
  qed (use c Suc.prems(2) in \<open>auto simp: addrChar_def dest: parseIPv4_addrChar\<close>)
qed

lemma v6finish_Some: "v6finish (s, ip, ell) = Some x \<Longrightarrow> s = []"
  by (auto simp: v6finish_def split: if_splits)

lemma v6parse_chars:
  "Option.bind (v6loop n s ip ell) v6finish = Some bs \<Longrightarrow> c \<in> set s \<Longrightarrow> addrChar c"
  by (auto simp: bind_eq_Some_conv dest!: v6finish_Some intro: v6loop_chars)

lemma parseIPv6_chars:
  assumes "parseIPv6 s = Some bs" and "c \<in> set s"
  shows "addrChar c"
proof (cases "take 2 s = ''::''")
  case True
  then have "s = ''::'' @ drop 2 s" by (metis append_take_drop_id)
  with assms(2) have "c \<in> set ''::'' \<or> c \<in> set (drop 2 s)" by (metis Un_iff set_append)
  with assms(1) True show ?thesis
    by (auto simp: parseIPv6_def addrChar_def dest: v6parse_chars split: if_splits)
next
  case False
  with assms show ?thesis
    by (auto simp: parseIPv6_def dest: v6parse_chars split: if_splits)
qed

lemma parseAddr_chars: "parseAddr s = Some a \<Longrightarrow> c \<in> set s \<Longrightarrow> addrChar c"
  by (auto simp: parseAddr_def split: list.splits if_splits
      dest: parseIPv4_addrChar parseIPv6_chars)

lemma parseAddr_nonempty: "parseAddr s = Some a \<Longrightarrow> s \<noteq> []"
  by (auto simp: parseAddr_def)

lemma ParseIP_chars: "ParseIP s = Some ip \<Longrightarrow> c \<in> set s \<Longrightarrow> addrChar c"
  by (auto simp: ParseIP_def dest: parseAddr_chars)

lemma ParseCIDR_Some:
  assumes "ParseCIDR s = Some n"
  obtains a m ip where "s = a @ CHR ''/'' # m" "CHR ''/'' \<notin> set a" "parseAddr a = Some ip"
    "m \<noteq> []" "list_all isDigit m" "decFrom 0 m \<le> bitLen ip"
    "n = \<lparr>net_ip = as16 ip, net_ones = decFrom 0 m, net_mask = cidrMask (decFrom 0 m) (bitLen ip div 8)\<rparr>"
proof -
  let ?a = "takeWhile (\<lambda>c. c \<noteq> CHR ''/'') s" and ?m = "drop (Suc (length (takeWhile (\<lambda>c. c \<noteq> CHR ''/'') s))) s"
  have "CHR ''/'' \<in> set s" using assms by (auto simp: ParseCIDR_def split: if_splits)
  then have "s = ?a @ CHR ''/'' # ?m" by (rule split_at_first)
  moreover have "CHR ''/'' \<notin> set ?a" using set_takeWhileD by fastforce
  moreover obtain ip where "parseAddr ?a = Some ip" "?m \<noteq> []" "list_all isDigit ?m" "decFrom 0 ?m \<le> bitLen ip"
    "n = \<lparr>net_ip = as16 ip, net_ones = decFrom 0 ?m, net_mask = cidrMask (decFrom 0 ?m) (bitLen ip div 8)\<rparr>"
    using assms by (auto simp: ParseCIDR_def Let_def not_less split: if_splits option.splits)
  ultimately show ?thesis by (rule that)
qed

lemma ParseCIDR_chars:
  assumes "ParseCIDR s = Some n" and "c \<in> set s"
  shows "addrChar c \<or> c = CHR ''/''"
  using assms by (elim ParseCIDR_Some)
    (auto dest: parseAddr_chars isDigit_isHex simp: list_all_iff addrChar_def)

lemma ParseCIDR_build:
  assumes "CHR ''/'' \<notin> set a" "parseAddr a = Some ip" "m \<noteq> []" "list_all isDigit m"
    "decFrom 0 m \<le> bitLen ip"
  shows "ParseCIDR (a @ CHR ''/'' # m) =
    Some \<lparr>net_ip = as16 ip, net_ones = decFrom 0 m, net_mask = cidrMask (decFrom 0 m) (bitLen ip div 8)\<rparr>"
proof -
  have "takeWhile (\<lambda>c. c \<noteq> CHR ''/'') (a @ CHR ''/'' # m) = a"
    using assms(1) by (induction a) auto
  with assms show ?thesis by (simp add: ParseCIDR_def Let_def)
qed

section \<open>Printing and parsing IPv4 addresses\<close>

lemma digitChar_props [simp]:
  "d < 10 \<Longrightarrow> isDigit (digitChar d)"
  "d < 10 \<Longrightarrow> digitVal (digitChar d) = d"
  by (auto simp: digitChar_def isDigit_def digitVal_def Let_def numeral_eq_Suc less_Suc_eq)

lemma showNat_digits [simp]: "list_all isDigit (showNat n)"
proof (induction n rule: showNat.induct)
  case (1 n)
  then show ?case by (subst showNat.simps) auto
qed

lemma showNat_nonempty [simp]: "showNat n \<noteq> []"
  by (subst showNat.simps) auto

lemma decFrom_append: "decFrom acc (s @ t) = decFrom (decFrom acc s) t"
  by (induction s arbitrary: acc) auto

lemma decFrom_showNat [simp]: "decFrom 0 (showNat n) = n"
proof (induction n rule: showNat.induct)
  case (1 n)
  then show ?case by (subst showNat.simps) (auto simp: decFrom_append)
qed

text \<open>Reading the digits of an octet in front of the rest of the text.\<close>

lemma v4scan_octet:
  "n \<le> 255 \<Longrightarrow> v4scan (showNat n @ rest) 0 0 fs = v4scan rest n (length (showNat n)) fs"
proof (induction n arbitrary: rest rule: showNat.induct)
  case (1 n)
  show ?case
  proof (cases "n < 10")
    case True
    then show ?thesis by (simp add: showNat.simps [of n] Let_def)
  next
    case False
    then have "n div 10 \<noteq> 0" "n div 10 \<le> 255" "n div 10 * 10 + n mod 10 = n"
      using "1.prems" by auto
    with False "1.prems" "1.IH" [of "digitChar (n mod 10) # rest"] show ?thesis
      by (simp add: showNat.simps [of n] Let_def)
  qed
qed

lemma parseIPv4_dotted: "parseIPv4 (dotted [a, b, c, d]) = Some [a, b, c, d]"
proof -
  have u: "unat (x :: byte) \<le> 255" for x
    using unsigned_less [of x, where 'a = nat] by simp
  have dot: "\<not> isDigit CHR ''.''" by (simp add: isDigit_def)
  have ne: "length (showNat k) \<noteq> 0" "showNat k \<noteq> []" for k by simp_all
  show ?thesis
    using ne by (simp add: parseIPv4_def dotted_def v4scan_octet u dot
        v4scan_octet [where rest = "[]", simplified])
qed

end
