(* ===== verification/Resolve.thy ===== *)
theory Resolve
  imports Go_Net
begin

text \<open>
  Package \<^verbatim>\<open>internal/resolve\<close>: the special target identifiers, the allow-lists of policy
  fields, validation and normalisation of peer addresses, and broadcast addresses. Everything
  that reaches a rule as an address literal passes through the validators of this theory.
\<close>

section \<open>Constants and allow-lists\<close>

abbreviation (input) SpecialIDSubnetBroadcast :: int where "SpecialIDSubnetBroadcast \<equiv> 1"
abbreviation (input) SpecialIDLimitedBroadcast :: int where "SpecialIDLimitedBroadcast \<equiv> 2"
abbreviation (input) SpecialIDAllHosts :: int where "SpecialIDAllHosts \<equiv> 3"
abbreviation (input) SpecialIDmDNS :: int where "SpecialIDmDNS \<equiv> 4"
abbreviation (input) SpecialIDLoopback :: int where "SpecialIDLoopback \<equiv> 5"
abbreviation (input) SpecialIDAnyIP :: int where "SpecialIDAnyIP \<equiv> 6"
abbreviation (input) SpecialIDAllPeers :: int where "SpecialIDAllPeers \<equiv> 7"
abbreviation (input) SpecialIDIGMPv3 :: int where "SpecialIDIGMPv3 \<equiv> 8"
abbreviation (input) SpecialIDInternet :: int where "SpecialIDInternet \<equiv> 9"

definition InternetSentinel :: string where
  "InternetSentinel = ''__internet__''"

definition IsValidDirection :: "string \<Rightarrow> bool" where
  "IsValidDirection v = (v = ''both'' \<or> v = ''forward'' \<or> v = ''backward'')"

definition IsValidTargetScope :: "string \<Rightarrow> bool" where
  "IsValidTargetScope v = (v = ''both'' \<or> v = ''host'' \<or> v = ''docker'')"

definition IsValidEntityType :: "string \<Rightarrow> bool" where
  "IsValidEntityType v = (v = ''peer'' \<or> v = ''group'' \<or> v = ''special'')"

definition IsValidAction :: "string \<Rightarrow> bool" where
  "IsValidAction v = (v = ''ACCEPT'' \<or> v = ''DROP'' \<or> v = ''LOG_DROP'')"

section \<open>Validation\<close>

definition ValidateIPOrCIDR :: "string \<Rightarrow> unit res" where
  "ValidateIPOrCIDR s =
     (if s = [] then Inl (Leaf ''IP address is required'')
      else if ParseIP s \<noteq> None then Inr ()
      else if ParseCIDR s = None then Inl (Leaf ''invalid IP address or CIDR notation'')
      else Inr ())"

definition ValidatePeerCIDR :: "string \<Rightarrow> unit res" where
  "ValidatePeerCIDR s =
     bindE (ValidateIPOrCIDR s) (\<lambda>_.
       if containsByte s CHR ''/'' then
         (case ParseCIDR s of
            None \<Rightarrow> Inl (Leaf ''invalid IP address or CIDR notation'')
          | Some n \<Rightarrow>
              if net_ones n = 0
              then Inl (Leaf ''CIDR prefix length /0 (allow-all) is not allowed for peer addresses'')
              else Inr ())
       else Inr ())"

definition ValidateGroupCIDR :: "string \<Rightarrow> unit res" where
  "ValidateGroupCIDR s = ValidateIPOrCIDR s"

section \<open>Normalisation\<close>

definition isV6 :: "string \<Rightarrow> bool" where
  "isV6 s = (case ParseIP s of Some ip \<Rightarrow> To4 ip = None | None \<Rightarrow> False)"

definition isV4 :: "string \<Rightarrow> bool" where
  "isV4 s = (case ParseIP s of Some ip \<Rightarrow> To4 ip \<noteq> None | None \<Rightarrow> False)"

definition NormalizeToCIDR :: "string \<Rightarrow> string" where
  "NormalizeToCIDR ip =
     (if ip = [] then ip
      else if containsByte ip CHR ''/'' then ip
      else if isV6 ip then ip @ ''/128''
      else ip @ ''/32'')"

definition NormalizeIP :: "string \<Rightarrow> string" where
  "NormalizeIP ip =
     (case lastIndexByte ip CHR ''/'' of
        None \<Rightarrow> ip
      | Some k \<Rightarrow>
          (let suffix = drop k ip; addrPart = take k ip in
           if suffix = ''/32'' then (if isV4 addrPart then addrPart else ip)
           else if suffix = ''/128'' then (if isV6 addrPart then addrPart else ip)
           else ip))"

section \<open>Broadcast addresses\<close>

definition splitIPv4 :: "string \<Rightarrow> string list option" where
  "splitIPv4 ip =
     (if countByte ip CHR ''.'' \<noteq> 3 then None
      else if length (splitByte CHR ''.'' ip) \<noteq> 4 then None
      else Some (splitByte CHR ''.'' ip))"

definition joinIPv4 :: "string list \<Rightarrow> string" where
  "joinIPv4 parts = parts ! 0 @ ''.'' @ parts ! 1 @ ''.'' @ parts ! 2 @ ''.'' @ parts ! 3"

text \<open>The byte loop \<^verbatim>\<open>ip.To4()[i] | ^mask[i]\<close> over the first four mask bytes.\<close>

definition orNotMask :: "byte list \<Rightarrow> byte list \<Rightarrow> byte list" where
  "orNotMask ip msk = map2 (\<lambda>b m. b OR NOT m) ip (take 4 msk)"

definition ComputeSubnetBroadcast :: "string \<Rightarrow> string" where
  "ComputeSubnetBroadcast peerIP =
     (if peerIP = [] then []
      else if \<not> containsByte peerIP CHR ''/'' then
        (case splitIPv4 peerIP of
           None \<Rightarrow> []
         | Some parts \<Rightarrow> joinIPv4 (parts[3 := ''255'']))
      else
        (case ParseCIDR peerIP of
           None \<Rightarrow> []
         | Some n \<Rightarrow>
             (case To4 (net_ip n) of
                None \<Rightarrow> []
              | Some ip4 \<Rightarrow> dotted (orNotMask ip4 (net_mask n)))))"

fun subnetBroadcastLoop :: "string \<Rightarrow> string list \<Rightarrow> int" where
  "subnetBroadcastLoop cleanDest [] = 0"
| "subnetBroadcastLoop cleanDest (peerIP # rest) =
     (let broadcast = ComputeSubnetBroadcast peerIP in
      if broadcast \<noteq> [] \<and> cleanDest = broadcast then SpecialIDSubnetBroadcast
      else subnetBroadcastLoop cleanDest rest)"

definition IsSubnetBroadcastDest :: "string \<Rightarrow> string list \<Rightarrow> int" where
  "IsSubnetBroadcastDest destIP peerIPs =
     (if peerIPs = [] then 0
      else let cleanDest = NormalizeIP destIP in
        if cleanDest = [] then 0 else subnetBroadcastLoop cleanDest peerIPs)"

definition IsLimitedBroadcastDest :: "string \<Rightarrow> bool" where
  "IsLimitedBroadcastDest destIP = (NormalizeIP destIP = ''255.255.255.255'')"

definition IsBroadcastDest :: "string \<Rightarrow> string \<Rightarrow> string list \<Rightarrow> int" where
  "IsBroadcastDest destIP chain peerIPs =
     (if chain \<noteq> ''INPUT'' \<and> chain \<noteq> ''DOCKER-USER'' then 0
      else let d = NormalizeIP destIP in
        if d = [] then 0
        else if d = ''255.255.255.255'' then SpecialIDLimitedBroadcast
        else IsSubnetBroadcastDest d peerIPs)"

section \<open>What validation guarantees\<close>

lemma ValidateIPOrCIDR_ok:
  "ValidateIPOrCIDR s = Inr u \<longleftrightarrow> ParseIP s \<noteq> None \<or> ParseCIDR s \<noteq> None"
proof -
  have "ParseIP [] = None" "ParseCIDR [] = None"
    by (simp_all add: ParseIP_def parseAddr_def ParseCIDR_def)
  then show ?thesis
    by (auto simp: ValidateIPOrCIDR_def)
qed

lemma ParseIP_no_slash: "ParseIP s \<noteq> None \<Longrightarrow> CHR ''/'' \<notin> set s"
proof
  assume "ParseIP s \<noteq> None" and "CHR ''/'' \<in> set s"
  then have "addrChar CHR ''/''" by (auto dest: ParseIP_chars)
  then show False by (simp add: addrChar_def isHex_def)
qed

lemma ParseCIDR_slash: "ParseCIDR s \<noteq> None \<Longrightarrow> CHR ''/'' \<in> set s"
  by (auto simp: ParseCIDR_def split: if_splits)

text \<open>The bytes an accepted address can hold: nothing that ends a rule, a line or a token.\<close>

definition cidrChar :: "char \<Rightarrow> bool" where
  "cidrChar c = (addrChar c \<or> c = CHR ''/'')"

lemma ValidateIPOrCIDR_chars: "ValidateIPOrCIDR s = Inr u \<Longrightarrow> c \<in> set s \<Longrightarrow> cidrChar c"
  by (auto simp: ValidateIPOrCIDR_ok cidrChar_def dest: ParseIP_chars ParseCIDR_chars)

lemma ValidatePeerCIDR_generic: "ValidatePeerCIDR s = Inr u \<Longrightarrow> ValidateIPOrCIDR s = Inr ()"
  by (auto simp: ValidatePeerCIDR_def bindE_eq_Inr)

lemma ValidatePeerCIDR_iff:
  "ValidatePeerCIDR s = Inr () \<longleftrightarrow>
     ParseIP s \<noteq> None \<or> (\<exists>n. ParseCIDR s = Some n \<and> net_ones n > 0)"
proof (cases "ParseIP s = None")
  case True
  then show ?thesis
    using ParseCIDR_slash [of s]
    by (auto simp: ValidatePeerCIDR_def bindE_eq_Inr ValidateIPOrCIDR_ok containsByte_def
        split: option.splits)
next
  case False
  then have "CHR ''/'' \<notin> set s" by (rule ParseIP_no_slash)
  with False show ?thesis
    by (simp add: ValidatePeerCIDR_def bindE_eq_Inr ValidateIPOrCIDR_ok containsByte_def)
qed

lemma NormalizeToCIDR_chars:
  "ValidateIPOrCIDR s = Inr u \<Longrightarrow> c \<in> set (NormalizeToCIDR s) \<Longrightarrow> cidrChar c"
proof -
  assume v: "ValidateIPOrCIDR s = Inr u" and c: "c \<in> set (NormalizeToCIDR s)"
  have "c \<in> set s \<or> c \<in> set ''/128'' \<or> c \<in> set ''/32''"
    using c by (auto simp: NormalizeToCIDR_def split: if_splits)
  then show "cidrChar c"
    using v by (auto dest: ValidateIPOrCIDR_chars simp: cidrChar_def addrChar_def isHex_def)
qed

lemma NormalizeToCIDR_slash: "s \<noteq> [] \<Longrightarrow> CHR ''/'' \<in> set (NormalizeToCIDR s)"
  by (simp add: NormalizeToCIDR_def containsByte_def)

lemma parseAddr_ParseIP: "ParseIP s = Some ip \<Longrightarrow> \<exists>a. parseAddr s = Some a \<and> ip = as16 a"
  by (auto simp: ParseIP_def)

lemma parseIPv4_no_colon: "parseIPv4 s = Some bs \<Longrightarrow> CHR '':'' \<notin> set s"
  by (auto dest!: parseIPv4_chars simp: isDigit_def)

lemma dropWhile_sep_notin:
  "dropWhile (\<lambda>c. c \<noteq> x \<and> c \<noteq> y \<and> c \<noteq> z) s = c # t \<Longrightarrow> c = x \<or> c = y \<or> c = z"
  by (metis (mono_tags, lifting) hd_dropWhile list.distinct(1) list.sel(1))

lemma isV6_parse: "isV6 s \<Longrightarrow> \<exists>bs. parseAddr s = Some (A6 bs)"
proof -
  assume "isV6 s"
  then obtain a where a: "parseAddr s = Some a" and t: "To4 (as16 a) = None"
    by (auto simp: isV6_def ParseIP_def split: option.splits)
  show ?thesis
  proof (cases a)
    case (A4 bs)
    with a have "length bs = 4"
      by (auto simp: parseAddr_def split: list.splits if_splits dest: parseIPv4_length)
    with A4 t show ?thesis by simp
  qed (use a in auto)
qed

text \<open>
  Normalising a valid bare address yields a CIDR that parses to the same address with the full
  prefix of its family, except for an IPv4-mapped IPv6 address, which gets \<^verbatim>\<open>/32\<close>.
\<close>

lemma NormalizeToCIDR_parses:
  assumes "parseAddr s = Some a"
  shows "\<exists>n. ParseCIDR (NormalizeToCIDR s) = Some n \<and> net_ip n = as16 a \<and>
    net_ones n = (if isV6 s then 128 else 32)"
proof -
  have ip: "ParseIP s \<noteq> None" using assms by (simp add: ParseIP_def)
  then have ns: "CHR ''/'' \<notin> set s" by (rule ParseIP_no_slash)
  have ne: "s \<noteq> []" using assms by (rule parseAddr_nonempty)
  show ?thesis
  proof (cases "isV6 s")
    case True
    with assms obtain bs where "a = A6 bs" using isV6_parse by fastforce
    with True assms ns ne show ?thesis
      by (simp add: NormalizeToCIDR_def containsByte_def ParseCIDR_build [where m = "''128''", simplified]
          isDigit_def digitVal_def)
  next
    case False
    then show ?thesis
      using assms ns ne
      by (cases a) (simp_all add: NormalizeToCIDR_def containsByte_def isDigit_def digitVal_def
          ParseCIDR_build [where m = "''32''", simplified])
  qed
qed

section \<open>Properties\<close>

text \<open>
  An address accepted for a peer always normalises to a CIDR that parses and whose
  prefix is not \<^verbatim>\<open>/0\<close>, so a peer row cannot turn into an allow-all literal.
\<close>

theorem ValidatePeerCIDR_never_allow_all:
  assumes "ValidatePeerCIDR s = Inr ()"
  shows "\<exists>n. ParseCIDR (NormalizeToCIDR s) = Some n \<and> net_ones n > 0"
proof (cases "ParseIP s = None")
  case True
  with assms obtain n where n: "ParseCIDR s = Some n" "net_ones n > 0"
    by (auto simp: ValidatePeerCIDR_iff)
  then have "NormalizeToCIDR s = s"
    using ParseCIDR_slash [of s] by (auto simp: NormalizeToCIDR_def containsByte_def)
  with n show ?thesis by simp
next
  case False
  then obtain a where "parseAddr s = Some a" by (auto simp: ParseIP_def)
  from NormalizeToCIDR_parses [OF this] show ?thesis by (auto split: if_splits)
qed

theorem ValidatePeerCIDR_never_allow_all_witness:
  "\<exists>n. ParseCIDR (NormalizeToCIDR ''10.0.0.0/8'') = Some n \<and> net_ones n > 0"
  by (rule ValidatePeerCIDR_never_allow_all) code_simp

text \<open>
  Stripping the host suffix undoes normalisation for every bare address, IPv4 or
  IPv6.
\<close>

theorem NormalizeIP_NormalizeToCIDR:
  assumes "ParseIP s \<noteq> None"
  shows "NormalizeIP (NormalizeToCIDR s) = s"
proof -
  have ns: "CHR ''/'' \<notin> set s" using assms by (rule ParseIP_no_slash)
  have ne: "s \<noteq> []" using assms by (auto simp: ParseIP_def dest: parseAddr_nonempty)
  have v: "isV4 s = (\<not> isV6 s)" using assms by (auto simp: isV4_def isV6_def)
  show ?thesis
    using ns ne v lastIndexByte_append [of "CHR ''/''" "''32''" s] lastIndexByte_append [of "CHR ''/''" "''128''" s]
    by (simp add: NormalizeToCIDR_def containsByte_def NormalizeIP_def)
qed

theorem NormalizeIP_NormalizeToCIDR_witness: "NormalizeIP (NormalizeToCIDR ''10.0.0.1'') = ''10.0.0.1''"
  by (rule NormalizeIP_NormalizeToCIDR) code_simp

lemma cidrMask_length [simp]: "length (cidrMask n l) = l"
  by (induction l arbitrary: n) auto

lemma dotted_chars: "c \<in> set (dotted [a, b, x, d]) \<Longrightarrow> isDigit c \<or> c = CHR ''.''"
  using showNat_digits by (auto simp: dotted_def list_all_iff)

lemma dotted_no_slash: "CHR ''/'' \<notin> set (dotted [a, b, x, d])"
  using dotted_chars [of "CHR ''/''"] by (auto simp: isDigit_def)

lemma dotted_nonempty [simp]: "dotted [a, b, x, d] \<noteq> []"
  by (simp add: dotted_def)

lemma parseAddr_dotted: "parseAddr (dotted [a, b, x, d]) = Some (A4 [a, b, x, d])"
proof -
  have digits: "\<forall>c \<in> set (showNat k). c \<noteq> CHR ''.'' \<and> c \<noteq> CHR '':'' \<and> c \<noteq> CHR ''%''" for k
    using showNat_digits [of k] by (auto simp: list_all_iff isDigit_def)
  have "dropWhile (\<lambda>c. c \<noteq> CHR ''.'' \<and> c \<noteq> CHR '':'' \<and> c \<noteq> CHR ''%'') (showNat k @ CHR ''.'' # r)
      = CHR ''.'' # r" for k r
    using digits [of k] by (subst dropWhile_append2) auto
  then have "\<exists>r. dropWhile (\<lambda>c. c \<noteq> CHR ''.'' \<and> c \<noteq> CHR '':'' \<and> c \<noteq> CHR ''%'') (dotted [a, b, x, d])
      = CHR ''.'' # r"
    by (simp add: dotted_def)
  then show ?thesis by (auto simp: parseAddr_def parseIPv4_dotted)
qed

lemma ParseCIDR_dotted:
  "n \<le> 32 \<Longrightarrow> ParseCIDR (dotted [a, b, x, d] @ ''/'' @ showNat n) =
     Some \<lparr>net_ip = v4prefix @ [a, b, x, d], net_ones = n, net_mask = cidrMask n 4\<rparr>"
  using ParseCIDR_build [of "dotted [a, b, x, d]" "A4 [a, b, x, d]" "showNat n"]
  by (simp add: dotted_no_slash parseAddr_dotted)

text \<open>
  C34 (BROADCAST): for an IPv4 address with a prefix length, the computed address is the subnet
  broadcast: it agrees with the peer's address on the network bits and has every host bit set.
\<close>

theorem ComputeSubnetBroadcast_correct:
  assumes "n \<le> 32"
  shows "\<exists>bs. ComputeSubnetBroadcast (dotted [a, b, x, d] @ ''/'' @ showNat n) = dotted bs \<and>
    length bs = 4 \<and>
    (\<forall>i < 4. bs ! i AND cidrMask n 4 ! i = [a, b, x, d] ! i AND cidrMask n 4 ! i \<and>
             bs ! i OR cidrMask n 4 ! i = - 1)"
proof -
  let ?ip = "[a, b, x, d]" and ?m = "cidrMask n 4"
  let ?bs = "orNotMask ?ip ?m"
  have c: "ComputeSubnetBroadcast (dotted ?ip @ ''/'' @ showNat n) = dotted ?bs"
    using ParseCIDR_dotted [OF assms, of a b x d]
    by (simp add: ComputeSubnetBroadcast_def containsByte_def)
  have nth: "i < 4 \<Longrightarrow> ?bs ! i = ?ip ! i OR NOT (?m ! i)" for i
    by (simp add: orNotMask_def)
  have "(y OR NOT m) AND m = y AND m" "(y OR NOT m) OR m = - 1" for y m :: byte
    by (rule bit_word_eqI, auto simp: bit_simps)+
  then show ?thesis using c nth by (intro exI [of _ ?bs]) (simp add: orNotMask_def)
qed

theorem ComputeSubnetBroadcast_correct_witness:
  "\<exists>bs. ComputeSubnetBroadcast (dotted [10, 0, 0, 1] @ ''/'' @ showNat 24) = dotted bs \<and> length bs = 4"
  using ComputeSubnetBroadcast_correct [of 24 10 0 0 1] by auto

text \<open>
  For an IPv4-mapped IPv6 address the same function applies the first bytes of the
  sixteen-byte mask to the four IPv4 bytes, so the result is not the broadcast of the subnet: a
  \<^verbatim>\<open>/120\<close> prefix yields the host address itself.
\<close>

theorem ComputeSubnetBroadcast_mapped:
  "ComputeSubnetBroadcast ''::ffff:10.0.0.1/120'' = ''10.0.0.1''"
  by (simp add: ComputeSubnetBroadcast_def orNotMask_def go_eval)

end
