(* ===== verification/Database.thy ===== *)
theory Database
  imports Prelude Complex_Main
begin

text \<open>
  The part of the SQLite database (\<^verbatim>\<open>internal/db/schema.sql\<close>) that the control plane's
  engine reads and writes. A table is the list of its rows in the order SQLite returns them;
  a nullable column is an option or a \<open>sqlval\<close>. Every statement the code issues has a name
  in \<open>query\<close>, and the state says which of them fail (a timeout, a lost connection, a corrupt
  row), so every error branch of the callers is reachable in the model.
\<close>

section \<open>Values and rows\<close>

text \<open>A driver value scanned into \<^verbatim>\<open>any\<close>.\<close>

datatype sqlval =
    SNull
  | SBool bool
  | SInt int
  | SFloat rat
  | SText string
  | SBytes string

record peer_row =
  p_id :: int
  p_hostname :: string
  p_ip_address :: string
  p_has_docker :: sqlval
  p_has_ipset :: sqlval
  p_hmac_key :: string
  p_is_manual :: bool

record group_row =
  g_id :: int
  g_name :: string
  g_description :: string
  g_is_system :: bool
  g_pending_delete :: bool

record member_row =
  m_group_id :: int
  m_peer_id :: int

record service_row =
  s_id :: int
  s_name :: string
  s_ports :: string
  s_source_ports :: "string option"
  s_protocol :: string
  s_no_conntrack :: sqlval
  s_is_system :: bool
  s_pending_delete :: bool

record policy_row =
  pl_id :: int
  pl_name :: string
  pl_source_id :: int
  pl_source_type :: string
  pl_service_id :: int
  pl_target_id :: int
  pl_target_type :: string
  pl_source_ip :: "string option"
  pl_target_ip :: "string option"
  pl_action :: string
  pl_priority :: int
  pl_enabled :: bool
  pl_target_scope :: string
  pl_direction :: "string option"
  pl_pending_delete :: bool

record bundle_row =
  b_id :: int
  b_peer_id :: int
  b_version :: string
  b_version_number :: int
  b_rules_content :: string
  b_hmac :: string

record change_row =
  c_peer_id :: int
  c_change_type :: string
  c_change_id :: int
  c_change_action :: string
  c_summary :: string

record preview_row =
  pv_peer_id :: int
  pv_rules_content :: string
  pv_diff_content :: string
  pv_version_hash :: string

record PushJob =
  j_ID :: string
  j_InitiatedBy :: string
  j_TotalPeers :: int
  j_Succeeded :: int
  j_Failed :: int
  j_Status :: string
  j_CompletedAt :: "string option"

record PushJobPeer =
  jp_JobID :: string
  jp_PeerID :: int
  jp_Hostname :: string
  jp_Status :: string
  jp_ErrorMessage :: "string option"

text \<open>The JSON text of a snapshot is modelled by the value it encodes.\<close>

datatype snapshotData =
    GroupSnapshot group_row "member_row list"
  | ServiceSnapshot service_row
  | PolicySnapshot policy_row

record snapshot_row =
  sn_entity_type :: string
  sn_entity_id :: int
  sn_action :: string
  sn_data :: "snapshotData option"

section \<open>Statements that can fail\<close>

datatype query =
    QPeerData int
  | QPolicies int
  | QServices
  | QControlPlanePort
  | QHostname int
  | QGroupName int
  | QPeerIP int
  | QAllPeerIPs
  | QGroupMembers int
  | QGroupIpset int
  | QPreviewPeer int
  | QPreviewService int
  | QHmacKey int
  | QNextVersion int
  | QSaveBundle int
  | QPoliciesByGroup int
  | QRelatedGroups int
  | QPeerExists int
  | QGroupExists int
  | QGroupMemberPeers int
  | QPolicyEnds int
  | QAllPeerIDs
  | QGroupExistsAny int
  | QAddPending int
  | QNotifyHostnames
  | QPendingForPeer int
  | QClearPending int
  | QPeersWithPending
  | QSavePreview int
  | QDeletePreview int
  | QDeletePendingEntity int
  | QCountPending int
  | QDeleteAllPreviews
  | QCreatePushJob string
  | QCreatePushJobPeers string
  | QPushJob string
  | QPushJobPeers string
  | QPushJobStatus string string
  | QFinalizePushJob string
  | QPushJobPeerStatus string int
  | QTransaction
  | QEntity string string int

record database =
  db_peers :: "peer_row list"
  db_groups :: "group_row list"
  db_members :: "member_row list"
  db_services :: "service_row list"
  db_policies :: "policy_row list"
  db_config :: "(string \<times> string) list"
  db_bundles :: "bundle_row list"
  db_pending :: "change_row list"
  db_previews :: "preview_row list"
  db_pushJobs :: "PushJob list"
  db_pushJobPeers :: "PushJobPeer list"
  db_snapshots :: "snapshot_row list"
  db_fails :: "query \<Rightarrow> bool"

text \<open>A multi-row query, and a \<^verbatim>\<open>QueryRow\<close> whose result is the first row.\<close>

definition queryRows :: "database \<Rightarrow> query \<Rightarrow> 'a list \<Rightarrow> 'a list res" where
  "queryRows db q rows = (if db_fails db q then Inl (Leaf ''database error'') else Inr rows)"

definition queryRow :: "database \<Rightarrow> query \<Rightarrow> 'a list \<Rightarrow> 'a res" where
  "queryRow db q rows =
     (if db_fails db q then Inl (Leaf ''database error'')
      else case rows of [] \<Rightarrow> Inl (Sentinel ErrNoRows) | r # _ \<Rightarrow> Inr r)"

lemma queryRows_Inr: "queryRows db q rows = Inr r \<longleftrightarrow> \<not> db_fails db q \<and> r = rows"
  by (auto simp: queryRows_def)

lemma queryRow_Inr: "queryRow db q rows = Inr r \<longleftrightarrow> \<not> db_fails db q \<and> (\<exists>rs. rows = r # rs)"
  by (auto simp: queryRow_def split: list.splits)

section \<open>Joins\<close>

text \<open>The group is present and not soft-deleted.\<close>

definition liveGroup :: "database \<Rightarrow> int \<Rightarrow> bool" where
  "liveGroup db gid = list_ex (\<lambda>g. g_id g = gid \<and> \<not> g_pending_delete g) (db_groups db)"

text \<open>
  \<^verbatim>\<open>group_members JOIN peers JOIN groups ... WHERE group_id = ? AND is_pending_delete = 0\<close>.
\<close>

definition groupMemberRows :: "database \<Rightarrow> int \<Rightarrow> peer_row list" where
  "groupMemberRows db gid =
     (if liveGroup db gid
      then concat (map (\<lambda>m. filter (\<lambda>p. p_id p = m_peer_id m) (db_peers db))
             (filter (\<lambda>m. m_group_id m = gid) (db_members db)))
      else [])"

text \<open>
  \<^verbatim>\<open>EXISTS (SELECT 1 FROM group_members JOIN groups ... WHERE group_id = ? AND peer_id = ?
  AND is_pending_delete = 0)\<close>.
\<close>

definition inGroup :: "database \<Rightarrow> int \<Rightarrow> int \<Rightarrow> bool" where
  "inGroup db gid peer =
     (liveGroup db gid \<and> list_ex (\<lambda>m. m_group_id m = gid \<and> m_peer_id m = peer) (db_members db))"

text \<open>
  The keys the schema declares: identifiers are primary keys, a membership is stored once and
  refers to an existing peer and group.
\<close>

definition wf_db :: "database \<Rightarrow> bool" where
  "wf_db db =
     (distinct (map p_id (db_peers db)) \<and> distinct (map g_id (db_groups db)) \<and>
      distinct (map s_id (db_services db)) \<and> distinct (map pl_id (db_policies db)) \<and>
      distinct (db_members db) \<and>
      list_all (\<lambda>m. m_peer_id m \<in> set (map p_id (db_peers db)) \<and>
                    m_group_id m \<in> set (map g_id (db_groups db))) (db_members db))"

lemma groupMemberRows_iff:
  "p \<in> set (groupMemberRows db gid) \<longleftrightarrow> p \<in> set (db_peers db) \<and> inGroup db gid (p_id p)"
  by (auto simp: groupMemberRows_def inGroup_def list_ex_iff)

end
