(* ===== verification/Example_Network.thy ===== *)
theory Example_Network
  imports Database
begin

text \<open>
  A small network on which the properties are instantiated: a web server and a client, each
  without docker; the client is also the only member of a group; one service; one policy from
  the client to the server.
\<close>

definition exPeerA :: peer_row where
  "exPeerA = \<lparr>p_id = 1, p_hostname = ''a'', p_ip_address = ''10.0.0.1'', p_has_docker = SInt 0,
     p_has_ipset = SNull, p_hmac_key = ''k'', p_is_manual = False\<rparr>"

definition exPeerB :: peer_row where
  "exPeerB = \<lparr>p_id = 2, p_hostname = ''b'', p_ip_address = ''10.0.0.2'', p_has_docker = SInt 0,
     p_has_ipset = SNull, p_hmac_key = ''k'', p_is_manual = False\<rparr>"

definition exService :: service_row where
  "exService = \<lparr>s_id = 1, s_name = ''web'', s_ports = ''80'', s_source_ports = None, s_protocol = ''tcp'',
     s_no_conntrack = SInt 0, s_is_system = False, s_pending_delete = False\<rparr>"

definition exPolicy :: policy_row where
  "exPolicy = \<lparr>pl_id = 1, pl_name = ''p'', pl_source_id = 1, pl_source_type = ''peer'', pl_service_id = 1,
     pl_target_id = 2, pl_target_type = ''peer'', pl_source_ip = None, pl_target_ip = None, pl_action = ''ACCEPT'',
     pl_priority = 100, pl_enabled = True, pl_target_scope = ''host'', pl_direction = Some ''both'',
     pl_pending_delete = False\<rparr>"

definition exDB :: database where
  "exDB = \<lparr>db_peers = [exPeerA, exPeerB],
     db_groups = [\<lparr>g_id = 1, g_name = ''clients'', g_description = [], g_is_system = False, g_pending_delete = False\<rparr>],
     db_members = [\<lparr>m_group_id = 1, m_peer_id = 1\<rparr>],
     db_services = [exService], db_policies = [exPolicy], db_config = [], db_bundles = [], db_pending = [],
     db_previews = [], db_pushJobs = [], db_pushJobPeers = [], db_snapshots = [],
     db_fails = (\<lambda>_. False)\<rparr>"

text \<open>The same network with set support on the second peer; and with the group as the source.\<close>

definition exSetDB :: database where
  "exSetDB = exDB\<lparr>db_peers := [exPeerA, exPeerB\<lparr>p_has_ipset := SInt 1\<rparr>]\<rparr>"

definition exGroupDB :: database where
  "exGroupDB = exDB\<lparr>db_policies := [exPolicy\<lparr>pl_source_type := ''group''\<rparr>]\<rparr>"

lemmas ex_defs = exPeerA_def exPeerB_def exService_def exPolicy_def exDB_def

end
