(* ===== verification/Resolver.thy ===== *)
theory Resolver
  imports Resolve Example_Network
begin

text \<open>
  The engine's resolver (\<^verbatim>\<open>internal/engine/resolver.go\<close>): from a policy endpoint (a peer, a
  group or a special target) to the CIDR literals of the rules, and from a group to the members
  of its ipset. Validation comes before normalisation on every path.
\<close>

section \<open>Peers and groups\<close>

definition normalizeCIDR :: "string \<Rightarrow> int \<Rightarrow> (string \<Rightarrow> unit res) \<Rightarrow> string res" where
  "normalizeCIDR ipAddress peerID validate =
     (case validate ipAddress of
        Inl e \<Rightarrow>
          (if containsByte ipAddress CHR ''/''
           then Inl (Wrap ''invalid CIDR in peer'' [e, Sentinel ErrPreviewValidation])
           else Inl (Wrap ''invalid IP in peer'' [e, Sentinel ErrPreviewValidation]))
      | Inr _ \<Rightarrow>
          (if containsByte ipAddress CHR ''/'' then Inr ipAddress
           else if isV6 ipAddress then Inr (ipAddress @ ''/128'')
           else Inr (ipAddress @ ''/32'')))"

definition normalizePeerCIDR :: "string \<Rightarrow> int \<Rightarrow> string res" where
  "normalizePeerCIDR ipAddress peerID = normalizeCIDR ipAddress peerID ValidatePeerCIDR"

definition normalizeGroupCIDR :: "string \<Rightarrow> int \<Rightarrow> string res" where
  "normalizeGroupCIDR ipAddress peerID = normalizeCIDR ipAddress peerID ValidateGroupCIDR"

definition ResolveGroup :: "database \<Rightarrow> int \<Rightarrow> string list res" where
  "ResolveGroup db groupID =
     bindE (wrapE ''query group members'' (queryRows db (QGroupMembers groupID) (groupMemberRows db groupID)))
       (\<lambda>rows. bindE (mapE (\<lambda>p. wrapE ''normalize group member''
                                (normalizeGroupCIDR (p_ip_address p) (p_id p))) rows)
         (\<lambda>cidrs. Inr (dedup cidrs)))"

definition ResolveEntity :: "database \<Rightarrow> string \<Rightarrow> int \<Rightarrow> string list res" where
  "ResolveEntity db entityType entityID =
     (if entityType = ''peer'' then
        bindE (wrapE ''resolve peer''
                (queryRow db (QPeerIP entityID)
                  (map p_ip_address (filter (\<lambda>p. p_id p = entityID) (db_peers db)))))
          (\<lambda>ip. bindE (wrapE ''normalize peer'' (normalizePeerCIDR ip entityID)) (\<lambda>cidr. Inr [cidr]))
      else ResolveGroup db entityID)"

section \<open>Special targets\<close>

definition previewErr :: "string \<Rightarrow> goerr" where
  "previewErr msg = Wrap msg [Sentinel ErrPreviewValidation]"

definition subnetBroadcastTarget :: "string \<Rightarrow> string list res" where
  "subnetBroadcastTarget peerIP =
     (if containsByte peerIP CHR ''/'' then
        (case ParseCIDR peerIP of
           None \<Rightarrow> Inl (Wrap ''invalid CIDR for subnet broadcast''
                     [Leaf ''invalid CIDR address'', Sentinel ErrPreviewValidation])
         | Some n \<Rightarrow>
             if To4 (net_ip n) = None then Inl (previewErr ''non-IPv4 address for subnet broadcast'')
             else
               (let broadcast = ComputeSubnetBroadcast peerIP in
                if broadcast = [] then Inl (previewErr ''invalid CIDR for subnet broadcast'')
                else if \<not> isV4 broadcast
                then Inl (previewErr ''non-IPv4 address for subnet broadcast'')
                else Inr [broadcast @ ''/32'']))
      else
        (case ValidatePeerCIDR peerIP of
           Inl e \<Rightarrow> Inl (Wrap ''invalid IPv4 address for subnet broadcast'' [e, Sentinel ErrPreviewValidation])
         | Inr _ \<Rightarrow>
             if \<not> isV4 peerIP then Inl (previewErr ''invalid IPv4 address for subnet broadcast'')
             else
               (let broadcast = ComputeSubnetBroadcast peerIP in
                if broadcast = [] then Inl (previewErr ''invalid IPv4 address for subnet broadcast'')
                else if \<not> isV4 broadcast
                then Inl (previewErr ''invalid IPv4 address for subnet broadcast'')
                else Inr [broadcast @ ''/32''])))"

definition allPeersTarget :: "database \<Rightarrow> string list res" where
  "allPeersTarget db =
     bindE (wrapE ''failed to query peers'' (queryRows db QAllPeerIPs (map p_ip_address (db_peers db))))
       (mapE (\<lambda>ip. bindE (wrapE2 ''invalid peer IP for __all_peers__'' ErrPreviewValidation (ValidatePeerCIDR ip))
                       (\<lambda>_. Inr (NormalizeToCIDR ip))))"

definition ResolveSpecialTarget :: "database \<Rightarrow> int \<Rightarrow> string \<Rightarrow> string list res" where
  "ResolveSpecialTarget db specialID peerIP =
     (if specialID = 1 then subnetBroadcastTarget peerIP
      else if specialID = 2 then Inr [''255.255.255.255/32'']
      else if specialID = 3 then Inr [''224.0.0.1/32'']
      else if specialID = 4 then Inr [''224.0.0.251/32'']
      else if specialID = 5 then Inr [''127.0.0.1/32'']
      else if specialID = 6 then Inr [''0.0.0.0/0'']
      else if specialID = 7 then allPeersTarget db
      else if specialID = 8 then Inr [''224.0.0.22/32'']
      else if specialID = 9 then Inr [InternetSentinel]
      else Inl (previewErr ''unknown special target ID''))"

section \<open>Ipsets\<close>

definition ValidateIPSetName :: "string \<Rightarrow> unit res" where
  "ValidateIPSetName fullName =
     (if length fullName > 32 then Inl (Leaf ''ipset name exceeds Linux kernel limit of 32'') else Inr ())"

text \<open>The rune loop; the flag is \<^verbatim>\<open>prevUnderscore\<close>.\<close>

fun sanitizeLoop :: "bool \<Rightarrow> string \<Rightarrow> string" where
  "sanitizeLoop prev [] = []"
| "sanitizeLoop prev (c # s) =
     (if isLower c \<or> isDigit c then c # sanitizeLoop False s
      else if \<not> prev then CHR ''_'' # sanitizeLoop True s
      else sanitizeLoop prev s)"

definition sanitizeForIpset :: "string \<Rightarrow> string" where
  "sanitizeForIpset name =
     (let result = sanitizeLoop False (toLower name) in
      trimByte CHR ''_'' (if length result > 20 then take 20 result else result))"

definition resolveGroupForIpset :: "database \<Rightarrow> int \<Rightarrow> string list res" where
  "resolveGroupForIpset db groupID =
     bindE (wrapE ''query group members for ipset''
             (queryRows db (QGroupIpset groupID) (map p_ip_address (groupMemberRows db groupID))))
       (\<lambda>ips. bindE (mapE (\<lambda>ip. bindE (wrapE2 ''invalid IP in group'' ErrPreviewValidation (ValidateGroupCIDR ip))
                                       (\<lambda>_. Inr (NormalizeToCIDR ip))) ips)
         (\<lambda>addrs. Inr (dedup addrs)))"

section \<open>Literals are address text\<close>

text \<open>The property of a resolved literal that the rule builders rely on.\<close>

definition cidrText :: "string \<Rightarrow> bool" where
  "cidrText s = (s \<noteq> [] \<and> list_all cidrChar s)"

lemma cidrCharI [intro]: "isDigit c \<Longrightarrow> cidrChar c" "c = CHR ''.'' \<Longrightarrow> cidrChar c" "c = CHR ''/'' \<Longrightarrow> cidrChar c"
  by (auto simp: cidrChar_def addrChar_def dest: isDigit_isHex)

lemma ValidateIPOrCIDR_nonempty: "ValidateIPOrCIDR s = Inr u \<Longrightarrow> s \<noteq> []"
  by (auto simp: ValidateIPOrCIDR_def)

lemma cidrText_normalized:
  assumes "ValidateIPOrCIDR s = Inr u"
  shows "cidrText (NormalizeToCIDR s)"
proof -
  have "s \<noteq> []" using assms by (rule ValidateIPOrCIDR_nonempty)
  then have "NormalizeToCIDR s \<noteq> []" by (simp add: NormalizeToCIDR_def)
  then show ?thesis
    using NormalizeToCIDR_chars [OF assms] by (simp add: cidrText_def list_all_iff)
qed

lemma normalizeCIDR_Inr:
  assumes "validate ip = Inr () \<Longrightarrow> ip \<noteq> []"
  shows "normalizeCIDR ip pid validate = Inr c \<longleftrightarrow> validate ip = Inr () \<and> c = NormalizeToCIDR ip"
  using assms by (auto simp: normalizeCIDR_def NormalizeToCIDR_def split: sum.splits)

lemma normalizeGroupCIDR_Inr:
  "normalizeGroupCIDR ip pid = Inr c \<longleftrightarrow> ValidateGroupCIDR ip = Inr () \<and> c = NormalizeToCIDR ip"
  unfolding normalizeGroupCIDR_def
  by (rule normalizeCIDR_Inr) (simp add: ValidateGroupCIDR_def ValidateIPOrCIDR_nonempty)

lemma normalizePeerCIDR_Inr:
  "normalizePeerCIDR ip pid = Inr c \<longleftrightarrow> ValidatePeerCIDR ip = Inr () \<and> c = NormalizeToCIDR ip"
  unfolding normalizePeerCIDR_def
  by (rule normalizeCIDR_Inr) (blast dest: ValidatePeerCIDR_generic ValidateIPOrCIDR_nonempty)

lemma normalizeGroupCIDR_cidrText: "normalizeGroupCIDR ip pid = Inr c \<Longrightarrow> cidrText c"
  by (auto simp: normalizeGroupCIDR_Inr ValidateGroupCIDR_def intro: cidrText_normalized)

lemma normalizePeerCIDR_cidrText: "normalizePeerCIDR ip pid = Inr c \<Longrightarrow> cidrText c"
  by (auto simp: normalizePeerCIDR_Inr intro: cidrText_normalized ValidatePeerCIDR_generic)

lemma ResolveGroup_cidrText: "ResolveGroup db g = Inr cs \<Longrightarrow> c \<in> set cs \<Longrightarrow> cidrText c"
  by (auto simp: ResolveGroup_def bindE_eq_Inr dest!: mapE_Inr_origin dest: normalizeGroupCIDR_cidrText)

lemma ResolveEntity_cidrText: "ResolveEntity db t i = Inr cs \<Longrightarrow> c \<in> set cs \<Longrightarrow> cidrText c"
  by (auto simp: ResolveEntity_def bindE_eq_Inr split: if_splits
      dest: ResolveGroup_cidrText normalizePeerCIDR_cidrText)

lemma isV4_chars: "isV4 s \<Longrightarrow> list_all cidrChar s \<and> s \<noteq> []"
  by (auto simp: isV4_def list_all_iff cidrChar_def ParseIP_def dest: parseAddr_chars parseAddr_nonempty
      split: option.splits)

lemma subnetBroadcastTarget_cidrText:
  "subnetBroadcastTarget ip = Inr cs \<Longrightarrow> c \<in> set cs \<Longrightarrow> cidrText c"
  by (auto simp: subnetBroadcastTarget_def Let_def cidrText_def cidrChar_def addrChar_def isHex_def
      dest: isV4_chars split: if_splits option.splits sum.splits)

lemma allPeersTarget_cidrText: "allPeersTarget db = Inr cs \<Longrightarrow> c \<in> set cs \<Longrightarrow> cidrText c"
  by (auto simp: allPeersTarget_def bindE_eq_Inr dest!: mapE_Inr_origin ValidatePeerCIDR_generic
      intro: cidrText_normalized)

lemma cidrText_constants:
  "cidrText ''255.255.255.255/32''" "cidrText ''224.0.0.1/32''" "cidrText ''224.0.0.251/32''"
  "cidrText ''127.0.0.1/32''" "cidrText ''0.0.0.0/0''" "cidrText ''224.0.0.22/32''"
  by (simp_all add: cidrText_def cidrChar_def addrChar_def isHex_def)

lemma ResolveSpecialTarget_cidrText:
  assumes "ResolveSpecialTarget db i ip = Inr cs" and "c \<in> set cs"
  shows "cidrText c \<or> (i = SpecialIDInternet \<and> c = InternetSentinel)"
  using assms cidrText_constants
  by (auto simp: ResolveSpecialTarget_def split: if_splits
      dest: subnetBroadcastTarget_cidrText allPeersTarget_cidrText)

lemma cidrText_not_sentinel: "cidrText c \<Longrightarrow> c \<noteq> InternetSentinel \<and> \<not> hasPrefix c (InternetSentinel @ ''/'')"
  by (auto simp: cidrText_def InternetSentinel_def cidrChar_def addrChar_def isHex_def dest!: hasPrefixD)

section \<open>Properties\<close>

text \<open>
  The marker of the internet target is the only thing a resolution returns that is
  not address text, and only the special target \<^verbatim>\<open>__internet__\<close> returns it.
\<close>

theorem ResolveSpecialTarget_sentinel:
  assumes "ResolveSpecialTarget db i ip = Inr cs"
  shows "InternetSentinel \<in> set cs \<longleftrightarrow> i = SpecialIDInternet"
proof
  assume "InternetSentinel \<in> set cs"
  with ResolveSpecialTarget_cidrText [OF assms, of InternetSentinel] cidrText_not_sentinel
  show "i = SpecialIDInternet" by blast
next
  assume "i = SpecialIDInternet"
  with assms show "InternetSentinel \<in> set cs" by (auto simp: ResolveSpecialTarget_def)
qed

theorem ResolveSpecialTarget_sentinel_witness:
  "InternetSentinel \<in> set [InternetSentinel] \<longleftrightarrow> (9 :: int) = SpecialIDInternet"
  by (rule ResolveSpecialTarget_sentinel [of exDB 9 "[]"]) (simp add: ResolveSpecialTarget_def)

text \<open>
  The two resolutions of a group agree. When neither query fails, the CIDR path and
  the ipset path accept the same groups and produce the same members in the same order, without
  duplicates.
\<close>

theorem ResolveGroup_ipset_agree:
  assumes "\<not> db_fails db (QGroupMembers g)" and "\<not> db_fails db (QGroupIpset g)"
  shows "(ResolveGroup db g = Inr cs \<longleftrightarrow> resolveGroupForIpset db g = Inr cs) \<and>
         (ResolveGroup db g = Inr cs \<longrightarrow> distinct cs)"
proof -
  let ?f = "\<lambda>p. wrapE ''normalize group member'' (normalizeGroupCIDR (p_ip_address p) (p_id p))"
  let ?h = "\<lambda>ip. bindE (wrapE2 ''invalid IP in group'' ErrPreviewValidation (ValidateGroupCIDR ip))
              (\<lambda>_. Inr (NormalizeToCIDR ip))"
  have "(\<lambda>p y. ?f p = Inr y) = (\<lambda>p y. ?h (p_ip_address p) = Inr y)"
    by (intro ext) (auto simp: normalizeGroupCIDR_Inr bindE_eq_Inr)
  then have "mapE ?f rows = Inr xs \<longleftrightarrow> mapE ?h (map p_ip_address rows) = Inr xs" for rows xs
    unfolding mapE_Inr_iff list_all2_map1 by (rule arg_cong [where f = "\<lambda>R. list_all2 R rows xs"])
  then show ?thesis
    using assms by (auto simp: ResolveGroup_def resolveGroupForIpset_def bindE_eq_Inr queryRows_Inr)
qed

theorem ResolveGroup_ipset_agree_witness:
  "ResolveGroup exDB 1 = Inr [''10.0.0.1/32''] \<longleftrightarrow> resolveGroupForIpset exDB 1 = Inr [''10.0.0.1/32'']"
  by (rule ResolveGroup_ipset_agree [THEN conjunct1]) (simp_all add: exDB_def)

lemma sanitizeLoop_chars:
  "c \<in> set (sanitizeLoop prev s) \<Longrightarrow> isLower c \<or> isDigit c \<or> c = CHR ''_''"
  by (induction prev s rule: sanitizeLoop.induct) (auto split: if_splits)

lemma trimByte_subset: "c \<in> set (trimByte x s) \<Longrightarrow> c \<in> set s"
  by (auto simp: trimByte_def dest!: set_dropWhileD)

lemma trimByte_length: "length (trimByte x s) \<le> length s"
  by (simp add: trimByte_def) (metis length_dropWhile_le length_rev order_trans)

text \<open>
  The set name derived from any group name is a valid kernel name: at most 32
  bytes with its prefix, and made of lower-case letters, digits and underscores only. The
  length error in the compiler is therefore unreachable.
\<close>

theorem sanitizeForIpset_valid:
  "ValidateIPSetName (''runic_group_'' @ sanitizeForIpset name) = Inr () \<and>
   (\<forall>c \<in> set (sanitizeForIpset name). isLower c \<or> isDigit c \<or> c = CHR ''_'')"
proof
  let ?r = "sanitizeLoop False (toLower name)"
  have "length (sanitizeForIpset name) \<le> 20"
    using trimByte_length [of "CHR ''_''" "take 20 ?r"] trimByte_length [of "CHR ''_''" ?r]
    by (auto simp: sanitizeForIpset_def Let_def)
  then show "ValidateIPSetName (''runic_group_'' @ sanitizeForIpset name) = Inr ()"
    by (simp add: ValidateIPSetName_def)
  have "set (sanitizeForIpset name) \<subseteq> set ?r"
    by (auto simp: sanitizeForIpset_def Let_def dest!: trimByte_subset in_set_takeD split: if_splits)
  then show "\<forall>c \<in> set (sanitizeForIpset name). isLower c \<or> isDigit c \<or> c = CHR ''_''"
    using sanitizeLoop_chars by blast
qed

theorem sanitizeForIpset_valid_witness:
  "ValidateIPSetName (''runic_group_'' @ sanitizeForIpset ''Web Servers'') = Inr () \<and>
   isLower CHR ''w''"
proof -
  have "CHR ''w'' \<in> set (sanitizeForIpset ''Web Servers'')" by code_simp
  with sanitizeForIpset_valid [of "''Web Servers''"] show ?thesis by (auto simp: isDigit_def)
qed

text \<open>
  The derivation is not injective: two groups whose names differ only in punctuation
  get the same set name.
\<close>

theorem sanitizeForIpset_collision:
  "sanitizeForIpset ''web servers'' = sanitizeForIpset ''web-servers''"
  by code_simp

end
