(* ===== verification/Ports.thy ===== *)
theory Ports
  imports Go_Strings
begin

text \<open>
  Service ports (\<^verbatim>\<open>internal/engine/resolver.go\<close>, and the port helpers of
  \<^verbatim>\<open>internal/engine/compiler.go\<close>): validation of the port text of a service, its expansion
  into iptables matches, and the inversion of a match for return traffic.
\<close>

section \<open>Validation\<close>

text \<open>The expression \<^verbatim>\<open>^\d+([,:]\d+)*$\<close>; the flag says whether a digit was just read.\<close>

fun portsReFrom :: "bool \<Rightarrow> string \<Rightarrow> bool" where
  "portsReFrom d [] = d"
| "portsReFrom d (c # s) =
     (if isDigit c then portsReFrom True s
      else if (c = CHR '','' \<or> c = CHR '':'') \<and> d then portsReFrom False s
      else False)"

definition ValidPortsRe :: "string \<Rightarrow> bool" where
  "ValidPortsRe s = portsReFrom False s"

definition validatePortSegment :: "string \<Rightarrow> string \<Rightarrow> unit res" where
  "validatePortSegment ports seg =
     (if containsByte seg CHR '':'' then
        (let p0 = takeWhile (\<lambda>c. c \<noteq> CHR '':'') seg; p1 = drop (Suc (length p0)) seg in
         case atoi p0 of
           None \<Rightarrow> Inl (Wrap ''invalid ports: invalid port'' [Leaf ''strconv.Atoi''])
         | Some lo \<Rightarrow>
             (case atoi p1 of
                None \<Rightarrow> Inl (Wrap ''invalid ports: invalid port'' [Leaf ''strconv.Atoi''])
              | Some hi \<Rightarrow>
                  if lo < 1 \<or> lo > 65535 \<or> hi < 1 \<or> hi > 65535
                  then Inl (Leaf ''invalid ports: port range out of range 1-65535'')
                  else if lo > hi then Inl (Leaf ''invalid ports: port range start greater than end'')
                  else Inr ()))
      else
        (case atoi seg of
           None \<Rightarrow> Inl (Wrap ''invalid ports: invalid port'' [Leaf ''strconv.Atoi''])
         | Some p \<Rightarrow>
             if p < 1 \<or> p > 65535 then Inl (Leaf ''invalid ports: port out of range 1-65535'')
             else Inr ()))"

fun validateSegments :: "string \<Rightarrow> string list \<Rightarrow> unit res" where
  "validateSegments ports [] = Inr ()"
| "validateSegments ports (seg # segs) =
     (if countByte seg CHR '':'' > 1
      then Inl (Leaf ''invalid ports: port range has more than one colon'')
      else bindE (validatePortSegment ports seg) (\<lambda>_. validateSegments ports segs))"

definition ValidatePorts :: "string \<Rightarrow> unit res" where
  "ValidatePorts ports =
     (if ports = [] then Inr ()
      else if \<not> ValidPortsRe ports
      then Inl (Leaf ''invalid ports: must be digits separated by commas or colons'')
      else validateSegments ports (splitByte CHR '','' ports))"

section \<open>Expansion into matches\<close>

record PortClause =
  Protocol :: string
  PortMatch :: string
  SrcPortMatch :: string

definition expandPortsSingle :: "string \<Rightarrow> string \<Rightarrow> string \<Rightarrow> PortClause list" where
  "expandPortsSingle dstPorts srcPorts protocol =
     (let dstMatch =
            (if dstPorts \<noteq> [] then
               (if containsByte dstPorts CHR '','' \<or> containsByte dstPorts CHR '':''
                then ''-m multiport --dports '' @ dstPorts
                else ''--dport '' @ dstPorts)
             else []);
          srcMatch =
            (if srcPorts \<noteq> [] then
               (if containsByte srcPorts CHR '','' \<or> containsByte srcPorts CHR '':''
                then ''-m multiport --sports '' @ srcPorts
                else ''--sport '' @ srcPorts)
             else [])
      in [\<lparr>Protocol = protocol, PortMatch = dstMatch, SrcPortMatch = srcMatch\<rparr>])"

definition ExpandPorts :: "string \<Rightarrow> string \<Rightarrow> string \<Rightarrow> PortClause list res" where
  "ExpandPorts dstPorts srcPorts protocol =
     (if protocol = ''icmp''
      then Inr [\<lparr>Protocol = ''icmp'', PortMatch = [], SrcPortMatch = []\<rparr>]
      else if protocol = ''igmp''
      then Inr [\<lparr>Protocol = ''igmp'', PortMatch = [], SrcPortMatch = []\<rparr>]
      else
        bindE (wrapE ''destination ports'' (ValidatePorts dstPorts)) (\<lambda>_.
        bindE (wrapE ''source ports'' (ValidatePorts srcPorts)) (\<lambda>_.
          if dstPorts = [] \<and> srcPorts = []
          then Inl (Leaf ''at least one port type (destination or source) required for protocol'')
          else if protocol = ''both''
          then Inr (expandPortsSingle dstPorts srcPorts ''tcp'' @ expandPortsSingle dstPorts srcPorts ''udp'')
          else Inr (expandPortsSingle dstPorts srcPorts protocol))))"

section \<open>Return traffic\<close>

definition invertPortMatch :: "string \<Rightarrow> string \<Rightarrow> string" where
  "invertPortMatch dstMatch srcMatch =
     (let result =
            (if dstMatch \<noteq> []
             then replaceAll (replaceAll dstMatch ''--dports'' ''--sports'') ''--dport'' ''--sport''
             else [])
      in if srcMatch \<noteq> [] then
           (let srcToDst = replaceAll (replaceAll srcMatch ''--sports'' ''--dports'') ''--sport'' ''--dport''
            in if result \<noteq> [] then result @ '' '' @ srcToDst else srcToDst)
         else result)"

definition splitPortMatches :: "PortClause \<Rightarrow> string \<times> string" where
  "splitPortMatches pc =
     ((if SrcPortMatch pc \<noteq> [] then SrcPortMatch pc @ '' '' @ PortMatch pc else PortMatch pc),
      invertPortMatch (PortMatch pc) (SrcPortMatch pc))"

definition conntrackMatch :: "bool \<Rightarrow> string" where
  "conntrackMatch noConntrack =
     (if noConntrack then [] else ''-m conntrack --ctstate NEW,ESTABLISHED'')"

definition joinRuleParts :: "string list \<Rightarrow> string" where
  "joinRuleParts parts = join '' '' (filter (\<lambda>p. p \<noteq> []) parts)"

section \<open>What a valid port text is\<close>

text \<open>A segment denotes a non-empty range of ports inside 1 to 65535.\<close>

definition digits :: "string \<Rightarrow> bool" where
  "digits s = (s \<noteq> [] \<and> list_all isDigit s)"

definition portVal :: "string \<Rightarrow> bool" where
  "portVal s = (digits s \<and> 1 \<le> decFrom 0 s \<and> decFrom 0 s \<le> 65535)"

definition validSegment :: "string \<Rightarrow> bool" where
  "validSegment seg =
     (portVal seg \<or>
      (\<exists>a b. seg = a @ CHR '':'' # b \<and> portVal a \<and> portVal b \<and> decFrom 0 a \<le> decFrom 0 b))"

text \<open>The language of the expression, and the automaton that decides it.\<close>

inductive portsLang :: "string \<Rightarrow> bool" where
  number: "digits d \<Longrightarrow> portsLang d"
| more: "portsLang s \<Longrightarrow> c = CHR '','' \<or> c = CHR '':'' \<Longrightarrow> digits d \<Longrightarrow> portsLang (s @ c # d)"

lemma isDigit_sep [simp]: "\<not> isDigit CHR '',''" "\<not> isDigit CHR '':''" "\<not> isDigit CHR ''-''"
    "\<not> isDigit CHR ''+''" "\<not> isDigit CHR '' ''"
  by (simp_all add: isDigit_def)

lemma portsReFrom_digits:
  "list_all isDigit d \<Longrightarrow> portsReFrom b (d @ s) = portsReFrom (b \<or> d \<noteq> []) s"
  by (induction d arbitrary: b) auto

lemma portsLang_snoc_digit: "portsLang p \<Longrightarrow> isDigit c \<Longrightarrow> portsLang (p @ [c])"
proof (induction rule: portsLang.induct)
  case (number d)
  then show ?case by (auto simp: digits_def intro!: portsLang.number)
next
  case (more s c' d)
  then have "portsLang (s @ c' # (d @ [c]))"
    by (intro portsLang.more) (auto simp: digits_def)
  then show ?case by simp
qed

lemma portsLang_accepted:
  "portsLang s \<Longrightarrow> portsReFrom False (s @ t) = portsReFrom True t"
proof (induction arbitrary: t rule: portsLang.induct)
  case (number d)
  then show ?case by (simp add: digits_def portsReFrom_digits)
next
  case (more s c d)
  then show ?case by (auto simp: digits_def portsReFrom_digits)
qed

lemma accepted_portsLang:
  assumes "portsReFrom b t"
    and "if b then portsLang p else p = [] \<or> (\<exists>q c. p = q @ [c] \<and> portsLang q \<and> (c = CHR '','' \<or> c = CHR '':''))"
  shows "portsLang (p @ t)"
  using assms
proof (induction b t arbitrary: p rule: portsReFrom.induct)
  case (1 d)
  then show ?case by simp
next
  case (2 d c s)
  show ?case
  proof (cases "isDigit c")
    case True
    have "portsLang (p @ [c])"
    proof (cases d)
      case True
      with 2(4) \<open>isDigit c\<close> show ?thesis by (simp add: portsLang_snoc_digit)
    next
      case False
      have d: "digits [c]" using \<open>isDigit c\<close> by (simp add: digits_def)
      from False 2(4) consider "p = []" | q c' where "p = q @ [c']" "portsLang q" "c' = CHR '','' \<or> c' = CHR '':''"
        by auto
      then show ?thesis
        using portsLang.number [OF d] portsLang.more [OF _ _ d] by cases auto
    qed
    with 2(1) [of "p @ [c]"] 2(3) True show ?thesis by simp
  next
    case False
    with 2(3) have "d" and c: "c = CHR '','' \<or> c = CHR '':''" and r: "portsReFrom False s"
      by (auto split: if_splits)
    with 2(2) [of "p @ [c]"] 2(4) False show ?thesis by auto
  qed
qed

lemma ValidPortsRe_iff: "ValidPortsRe s \<longleftrightarrow> portsLang s"
  using portsLang_accepted [of s "[]"] accepted_portsLang [of False s "[]"]
  by (auto simp: ValidPortsRe_def)

lemma portsReFrom_chars:
  "portsReFrom b s \<Longrightarrow> c \<in> set s \<Longrightarrow> isDigit c \<or> c = CHR '','' \<or> c = CHR '':''"
  by (induction b s rule: portsReFrom.induct) (auto split: if_splits)

text \<open>On text without a sign, \<^const>\<open>atoi\<close> reads exactly the digit strings that fit.\<close>

lemma atoi_unsigned:
  assumes "CHR ''-'' \<notin> set s" "CHR ''+'' \<notin> set s"
  shows "atoi s = Some v \<longleftrightarrow> digits s \<and> v = int (decFrom 0 s) \<and> v < 2 ^ 63"
proof -
  have "take 1 s \<noteq> ''-''" "take 1 s \<noteq> ''+''" using assms by (cases s; auto)+
  then show ?thesis by (auto simp: atoi_def digits_def Let_def)
qed

lemma portVal_atoi: "portVal s \<Longrightarrow> atoi s = Some (int (decFrom 0 s))"
proof -
  assume p: "portVal s"
  then have "CHR ''-'' \<notin> set s" "CHR ''+'' \<notin> set s"
    by (auto simp: portVal_def digits_def list_all_iff)
  with p show ?thesis by (simp add: atoi_unsigned portVal_def)
qed

lemma countByte_append [simp]: "countByte (s @ t) c = countByte s c + countByte t c"
  by (simp add: countByte_def)

lemma countByte_Cons [simp]: "countByte (d # s) c = (if d = c then Suc (countByte s c) else countByte s c)"
  by (simp add: countByte_def)

lemma countByte_0: "countByte s c = 0 \<longleftrightarrow> c \<notin> set s"
  by (auto simp: countByte_def filter_empty_conv)

lemma portVal_chars: "portVal s \<Longrightarrow> c \<in> set s \<Longrightarrow> isDigit c"
  by (auto simp: portVal_def digits_def list_all_iff)

lemma portVal_no_colon: "portVal s \<Longrightarrow> CHR '':'' \<notin> set s"
  using portVal_chars by force

text \<open>The check of one segment, on text over digits and colons.\<close>

lemma no_sign:
  assumes "\<forall>c \<in> A. isDigit c \<or> c = CHR '':''"
  shows "CHR ''-'' \<notin> A" "CHR ''+'' \<notin> A"
  using bspec [OF assms, of "CHR ''-''"] bspec [OF assms, of "CHR ''+''"] by auto

lemma validatePortSegment_range:
  assumes "CHR '':'' \<notin> set a" "\<forall>c \<in> set a \<union> set b. isDigit c \<or> c = CHR '':''"
  shows "validatePortSegment ports (a @ CHR '':'' # b) = Inr () \<longleftrightarrow>
    portVal a \<and> portVal b \<and> decFrom 0 a \<le> decFrom 0 b"
proof -
  have signs: "CHR ''-'' \<notin> set a" "CHR ''+'' \<notin> set a" "CHR ''-'' \<notin> set b" "CHR ''+'' \<notin> set b"
    using no_sign [OF assms(2)] by auto
  have "takeWhile (\<lambda>c. c \<noteq> CHR '':'') (a @ CHR '':'' # b) = a"
    using assms(1) by (rule takeWhile_first)
  then show ?thesis
    using signs
    by (auto simp: validatePortSegment_def containsByte_def Let_def atoi_unsigned portVal_def
        portVal_atoi split: option.splits)
qed

lemma validatePortSegment_single:
  assumes "\<forall>c \<in> set seg. isDigit c"
  shows "validatePortSegment ports seg = Inr () \<longleftrightarrow> portVal seg"
proof -
  have "CHR ''-'' \<notin> set seg" "CHR ''+'' \<notin> set seg" using assms by (auto intro: no_sign)
  moreover have "CHR '':'' \<notin> set seg" using bspec [OF assms, of "CHR '':''"] by auto
  ultimately show ?thesis
    by (auto simp: validatePortSegment_def containsByte_def atoi_unsigned portVal_def
        portVal_atoi split: option.splits)
qed

lemma validSegment_range:
  "CHR '':'' \<notin> set a \<Longrightarrow> validSegment (a @ CHR '':'' # b) \<longleftrightarrow>
     portVal a \<and> portVal b \<and> decFrom 0 a \<le> decFrom 0 b"
  by (auto simp: validSegment_def dest: portVal_no_colon split_first_unique)

lemma validSegment_iff:
  assumes "\<forall>c \<in> set seg. isDigit c \<or> c = CHR '':''"
  shows "countByte seg CHR '':'' \<le> 1 \<and> validatePortSegment ports seg = Inr () \<longleftrightarrow> validSegment seg"
proof (cases "CHR '':'' \<in> set seg")
  case True
  then obtain a b where seg: "seg = a @ CHR '':'' # b" and a: "CHR '':'' \<notin> set a"
    by (metis split_list_first)
  with assms have "validatePortSegment ports seg = Inr () \<longleftrightarrow> validSegment seg"
    by (simp add: validatePortSegment_range validSegment_range)
  moreover have "validSegment seg \<Longrightarrow> countByte seg CHR '':'' \<le> 1"
    using seg a by (auto simp: validSegment_range countByte_0 dest: portVal_no_colon)
  ultimately show ?thesis by blast
next
  case False
  with assms have d: "\<forall>c \<in> set seg. isDigit c" by auto
  with False show ?thesis
    using countByte_0 [of seg "CHR '':''"]
    by (auto simp: validatePortSegment_single validSegment_def)
qed

lemma validateSegments_iff:
  assumes "\<forall>seg \<in> set segs. \<forall>c \<in> set seg. isDigit c \<or> c = CHR '':''"
  shows "validateSegments ports segs = Inr () \<longleftrightarrow> list_all validSegment segs"
  using assms
proof (induction segs)
  case (Cons seg segs)
  then have "countByte seg CHR '':'' \<le> 1 \<and> validatePortSegment ports seg = Inr () \<longleftrightarrow> validSegment seg"
    by (intro validSegment_iff) simp
  with Cons show ?case by (auto simp: bindE_eq_Inr)
qed simp

lemma portsLang_segments:
  "segs \<noteq> [] \<Longrightarrow> list_all validSegment segs \<Longrightarrow> portsReFrom False (join '','' segs)"
proof (induction "'',''" segs rule: join.induct)
  case (2 x)
  then show ?case
    by (auto simp: validSegment_def portVal_def digits_def portsReFrom_digits
        portsReFrom_digits [where s = "[]", simplified])
next
  case (3 x y xs)
  then show ?case
    by (auto simp: validSegment_def portVal_def digits_def portsReFrom_digits)
qed simp

section \<open>Properties\<close>

text \<open>
  C33 (PORTS): the port text of a service is accepted exactly when it is empty or a
  comma-separated list whose every element is a port in 1 to 65535 or a range \<^verbatim>\<open>a:b\<close> of such
  ports with \<^verbatim>\<open>a <= b\<close>.
\<close>

theorem ValidatePorts_iff:
  "ValidatePorts ports = Inr () \<longleftrightarrow> ports = [] \<or> list_all validSegment (splitByte CHR '','' ports)"
proof (cases "ports = []")
  case False
  show ?thesis
  proof
    assume v: "ValidatePorts ports = Inr ()"
    with False have "portsReFrom False ports" and s: "validateSegments ports (splitByte CHR '','' ports) = Inr ()"
      by (auto simp: ValidatePorts_def ValidPortsRe_def split: if_splits)
    then have "\<forall>seg \<in> set (splitByte CHR '','' ports). \<forall>c \<in> set seg. isDigit c \<or> c = CHR '':''"
      using portsReFrom_chars splitByte_parts splitByte_part_chars by blast
    with s show "ports = [] \<or> list_all validSegment (splitByte CHR '','' ports)"
      by (simp add: validateSegments_iff)
  next
    assume "ports = [] \<or> list_all validSegment (splitByte CHR '','' ports)"
    with False have v: "list_all validSegment (splitByte CHR '','' ports)" by simp
    then have "portsReFrom False (join '','' (splitByte CHR '','' ports))"
      by (intro portsLang_segments) simp_all
    then have re: "ValidPortsRe ports" by (simp add: join_splitByte ValidPortsRe_def)
    have "\<forall>seg \<in> set (splitByte CHR '','' ports). \<forall>c \<in> set seg. isDigit c \<or> c = CHR '':''"
      using v by (auto simp: list_all_iff validSegment_def dest!: portVal_chars bspec)
    with v re show "ValidatePorts ports = Inr ()"
      by (simp add: ValidatePorts_def validateSegments_iff)
  qed
qed (simp add: ValidatePorts_def)

section \<open>Inversion of a match\<close>

text \<open>The match a port text stands for, read as destination or as source ports.\<close>

definition matchText :: "string \<Rightarrow> string \<Rightarrow> string" where
  "matchText flag ports =
     (if ports = [] then []
      else if containsByte ports CHR '','' \<or> containsByte ports CHR '':''
      then ''-m multiport --'' @ flag @ ''s '' @ ports
      else ''--'' @ flag @ '' '' @ ports)"

lemma expandPortsSingle_matchText:
  "expandPortsSingle d s p =
     [\<lparr>Protocol = p, PortMatch = matchText ''dport'' d, SrcPortMatch = matchText ''sport'' s\<rparr>]"
  by (simp add: expandPortsSingle_def matchText_def)

lemma replaceAll_absent: "old = c # old' \<Longrightarrow> c \<notin> set s \<Longrightarrow> replaceAll s old new = s"
  by (induction s) (auto simp: hasPrefix_def)

lemma ValidatePorts_no_dash: "ValidatePorts ports = Inr () \<Longrightarrow> CHR ''-'' \<notin> set ports"
  using portsReFrom_chars [of False ports "CHR ''-''"]
  by (auto simp: ValidatePorts_def ValidPortsRe_def split: if_splits)

lemma swap_matchText:
  assumes "CHR ''-'' \<notin> set ports"
  shows "replaceAll (replaceAll (matchText ''dport'' ports) ''--dports'' ''--sports'') ''--dport'' ''--sport''
      = matchText ''sport'' ports"
    and "replaceAll (replaceAll (matchText ''sport'' ports) ''--sports'' ''--dports'') ''--sport'' ''--dport''
      = matchText ''dport'' ports"
  using assms by (auto simp: matchText_def hasPrefix_def replaceAll_absent)

lemma matchText_Nil [simp]: "matchText flag ports = [] \<longleftrightarrow> ports = []"
  by (simp add: matchText_def)

lemma matchText_empty [simp]: "matchText flag [] = []"
  by (simp add: matchText_def)

text \<open>
  For every clause a service expands to, the return match is the match with the two
  port directions exchanged: the destination ports are matched as source ports and the source
  ports as destination ports, in that order and separated by one space.
\<close>

theorem ExpandPorts_return_match:
  assumes "ExpandPorts d s p = Inr pcs" and "pc \<in> set pcs" and "p \<noteq> ''icmp''" and "p \<noteq> ''igmp''"
  shows "snd (splitPortMatches pc) = joinRuleParts [matchText ''sport'' d, matchText ''dport'' s]"
proof -
  from assms have v: "ValidatePorts d = Inr ()" "ValidatePorts s = Inr ()"
    and ne: "\<not> (d = [] \<and> s = [])"
    and pc: "PortMatch pc = matchText ''dport'' d" "SrcPortMatch pc = matchText ''sport'' s"
    by (auto simp: ExpandPorts_def bindE_eq_Inr expandPortsSingle_matchText split: if_splits)
  have "CHR ''-'' \<notin> set d" "CHR ''-'' \<notin> set s"
    using v by (auto dest: ValidatePorts_no_dash)
  then show ?thesis
    using ne by (simp add: splitPortMatches_def invertPortMatch_def pc swap_matchText joinRuleParts_def Let_def)
qed

theorem ExpandPorts_return_match_witness:
  "snd (splitPortMatches \<lparr>Protocol = ''udp'', PortMatch = ''-m multiport --dports 53,5353'', SrcPortMatch = ''--sport 68''\<rparr>)
     = ''-m multiport --sports 53,5353 --dport 68''"
proof -
  have e: "ExpandPorts ''53,5353'' ''68'' ''udp'' =
      Inr [\<lparr>Protocol = ''udp'', PortMatch = ''-m multiport --dports 53,5353'', SrcPortMatch = ''--sport 68''\<rparr>]"
    by (simp add: ExpandPorts_def ValidatePorts_def ValidPortsRe_def validatePortSegment_def
        expandPortsSingle_def go_eval Let_def)
  show ?thesis
    using ExpandPorts_return_match [OF e, of "\<lparr>Protocol = ''udp'', PortMatch = ''-m multiport --dports 53,5353'', SrcPortMatch = ''--sport 68''\<rparr>"]
    by (simp add: joinRuleParts_def matchText_def containsByte_def)
qed

text \<open>
  A service that expands has at least one clause; the clauses name the protocol of
  the service, or TCP and UDP in that order for \<^verbatim>\<open>both\<close>; and unless the protocol has no ports
  every clause has a port match.
\<close>

theorem ExpandPorts_clauses:
  assumes "ExpandPorts d s p = Inr pcs"
  shows "map Protocol pcs = (if p = ''both'' then [''tcp'', ''udp''] else [p]) \<and>
    (p \<noteq> ''icmp'' \<and> p \<noteq> ''igmp'' \<longrightarrow> (\<forall>pc \<in> set pcs. PortMatch pc \<noteq> [] \<or> SrcPortMatch pc \<noteq> []))"
  using assms by (auto simp: ExpandPorts_def bindE_eq_Inr expandPortsSingle_matchText split: if_splits)

theorem ExpandPorts_clauses_witness:
  "map Protocol [\<lparr>Protocol = ''icmp'', PortMatch = [], SrcPortMatch = []\<rparr>] = [''icmp'']"
proof -
  have "ExpandPorts [] [] ''icmp'' = Inr [\<lparr>Protocol = ''icmp'', PortMatch = [], SrcPortMatch = []\<rparr>]"
    by (simp add: ExpandPorts_def)
  from ExpandPorts_clauses [OF this] show ?thesis by simp
qed

end
