(* ===== verification/Rules.thy ===== *)
theory Rules
  imports Resolver Ports
begin

text \<open>
  The rule builders of the compiler (\<^verbatim>\<open>internal/engine/compiler.go\<close>): from one policy, its
  port clauses and the resolved addresses of the other end to iptables rule text. A rule is one
  line of the bundle. Every operation that writes to the shared \<^verbatim>\<open>strings.Builder\<close> returns the
  lines it appends; every operation that returns \<^verbatim>\<open>([]string, error)\<close> returns a \<open>res\<close>.
\<close>

section \<open>Constants\<close>

text \<open>Chains, actions, directions and scopes are string constants in the source.\<close>

abbreviation ChainInput :: string where "ChainInput \<equiv> ''INPUT''"
abbreviation ChainOutput :: string where "ChainOutput \<equiv> ''OUTPUT''"
abbreviation ChainDockerUser :: string where "ChainDockerUser \<equiv> ''DOCKER-USER''"

abbreviation ActionAccept :: string where "ActionAccept \<equiv> ''ACCEPT''"
abbreviation ActionDrop :: string where "ActionDrop \<equiv> ''DROP''"
abbreviation ActionLogDrop :: string where "ActionLogDrop \<equiv> ''LOG_DROP''"

text \<open>
  \<^verbatim>\<open>ruleDir\<close> is a string type: a value outside the three constants is possible and is rejected
  at run time by the builders.
\<close>

type_synonym ruleDir = string

abbreviation ruleDirTarget :: ruleDir where "ruleDirTarget \<equiv> ''target''"
abbreviation ruleDirSource :: ruleDir where "ruleDirSource \<equiv> ''source''"
abbreviation ruleDirInternet :: ruleDir where "ruleDirInternet \<equiv> ''internet''"

abbreviation ipsetPrivateRanges :: string where "ipsetPrivateRanges \<equiv> ''runic_private_ranges''"
abbreviation ipsetGroupPrefix :: string where "ipsetGroupPrefix \<equiv> ''runic_group_''"

definition privateFallbackCIDRList :: "string list" where
  "privateFallbackCIDRList = [''10.0.0.0/8'', ''172.16.0.0/12'', ''192.168.0.0/16'', ''127.0.0.0/8'']"

record policyInfo =
  pol_ID :: int
  pol_Name :: string
  pol_SourceID :: int
  pol_SourceType :: string
  pol_ServiceID :: int
  pol_TargetID :: int
  pol_TargetType :: string
  pol_SourceIP :: string
  pol_TargetIP :: string
  pol_Action :: string
  pol_Priority :: int
  pol_TargetScope :: string
  pol_Direction :: string
  pol_IsTarget :: bool
  pol_IsSource :: bool

section \<open>Fail-closed errors\<close>

definition failClosedEmptyIPErr :: "string \<Rightarrow> goerr" where
  "failClosedEmptyIPErr policyName = Wrap ''policy targets internet but peer has empty IP'' [Sentinel ErrPreviewFailClosed]"

definition failClosedIngressInternetErr :: "string \<Rightarrow> goerr" where
  "failClosedIngressInternetErr policyName = Wrap ''policy has ingress-from-internet'' [Sentinel ErrPreviewFailClosed]"

definition failClosedSentinelLeakErr :: "string \<Rightarrow> goerr" where
  "failClosedSentinelLeakErr policyName =
     Wrap ''policy resolved internet sentinel outside internet path'' [Sentinel ErrPreviewFailClosed]"

definition failClosedInternetIPv6Err :: "string \<Rightarrow> goerr" where
  "failClosedInternetIPv6Err policyName = Wrap ''policy targets internet from IPv6 peer'' [Sentinel ErrPreviewFailClosed]"

definition isIPv6Address :: "string \<Rightarrow> bool" where
  "isIPv6Address s = containsByte s CHR '':''"

definition isInternetSentinelCIDR :: "string \<Rightarrow> bool" where
  "isInternetSentinelCIDR cidr = (cidr = InternetSentinel \<or> hasPrefix cidr (InternetSentinel @ ''/''))"

definition checkInternetPeer :: "string \<Rightarrow> int \<Rightarrow> string \<Rightarrow> unit res" where
  "checkInternetPeer ipAddress peerID policyName =
     (if peerID = 0 then Inr ()
      else if ipAddress = [] then Inl (failClosedEmptyIPErr policyName)
      else if isIPv6Address ipAddress then Inl (failClosedInternetIPv6Err policyName)
      else Inr ())"

definition assertInternetIpset :: "bool \<Rightarrow> string \<Rightarrow> unit res" where
  "assertInternetIpset useIpset ipsetName =
     (if useIpset then Inl (previewErr ''internet ruleDir requires useIpset=false'')
      else if ipsetName \<noteq> [] then Inl (previewErr ''internet ruleDir requires empty ipsetName'')
      else Inr ())"

definition isMulticastSpecialID :: "int \<Rightarrow> bool" where
  "isMulticastSpecialID i = (i = SpecialIDAllHosts \<or> i = SpecialIDmDNS \<or> i = SpecialIDIGMPv3)"

definition isBroadcastSpecialID :: "int \<Rightarrow> bool" where
  "isBroadcastSpecialID i = (i = SpecialIDSubnetBroadcast \<or> i = SpecialIDLimitedBroadcast)"

section \<open>The rule writer\<close>

text \<open>The format \<^verbatim>\<open>-A %s %s -j X\<close> of the writer's methods.\<close>

definition rw_accept :: "string \<Rightarrow> string \<Rightarrow> builder" where
  "rw_accept chain m = [''-A '' @ chain @ '' '' @ m @ '' -j ACCEPT'']"

definition rw_drop :: "string \<Rightarrow> string \<Rightarrow> builder" where
  "rw_drop chain m = [''-A '' @ chain @ '' '' @ m @ '' -j DROP'']"

definition dropPrefixFor :: "string \<Rightarrow> string" where
  "dropPrefixFor chain =
     (if chain = ChainInput \<or> chain = ChainDockerUser then ''[RUNIC-DROP-I] '' else ''[RUNIC-DROP-O] '')"

text \<open>A log prefix between double quotes, as \<^verbatim>\<open>%q\<close> prints these constants.\<close>

definition quoted :: "string \<Rightarrow> string" where
  "quoted s = CHR 0x22 # s @ [CHR 0x22]"

definition rw_logDrop :: "string \<Rightarrow> string \<Rightarrow> builder" where
  "rw_logDrop chain m =
     [''-A '' @ chain @ '' '' @ m @ '' -j LOG --log-prefix '' @ quoted (dropPrefixFor chain) @ '' --log-level 4'']
     @ rw_drop chain m"

definition rw_writeAction :: "string \<Rightarrow> string \<Rightarrow> string \<Rightarrow> builder" where
  "rw_writeAction action chain m =
     (if action = ActionAccept then rw_accept chain m
      else if action = ActionDrop then rw_drop chain m
      else if action = ActionLogDrop then rw_logDrop chain m
      else [])"

definition scopeFlags :: "string \<Rightarrow> bool \<Rightarrow> bool \<times> bool" where
  "scopeFlags targetScope hasDocker =
     (targetScope = ''host'' \<or> targetScope = ''both'',
      hasDocker \<and> (targetScope = ''docker'' \<or> targetScope = ''both''))"

definition logDropRule :: "string \<Rightarrow> string \<Rightarrow> string \<Rightarrow> string list" where
  "logDropRule action chain m =
     (if action \<noteq> ActionLogDrop then [''-A '' @ chain @ '' '' @ m @ '' -j '' @ action]
      else [''-A '' @ chain @ '' '' @ m @ '' -j LOG --log-prefix '' @ quoted (dropPrefixFor chain) @ '' --log-level 4'',
            ''-A '' @ chain @ '' '' @ m @ '' -j DROP''])"

section \<open>Fixed rules\<close>

definition writeStandardRules :: "bool \<Rightarrow> string \<Rightarrow> builder" where
  "writeStandardRules hasDocker controlPlanePort =
     [''# --- Standard: loopback ---'',
      ''-A INPUT -i lo -j ACCEPT'',
      ''-A OUTPUT -o lo -j ACCEPT'',
      [],
      ''# --- Standard: ICMP RELATED ---'',
      ''-A INPUT -p icmp -m conntrack --ctstate RELATED -j ACCEPT'',
      ''-A OUTPUT -p icmp -m conntrack --ctstate RELATED -j ACCEPT'',
      [],
      ''# --- Standard: INVALID packet drop ---'',
      ''-A INPUT -m conntrack --ctstate INVALID -j DROP'',
      ''-A OUTPUT -m conntrack --ctstate INVALID -j DROP'',
      []] @
     (if controlPlanePort \<noteq> [] then
        [''# --- Standard: Control Plane Communication ---'',
         ''# Allows agent to communicate with control plane on port '' @ controlPlanePort,
         ''-A INPUT -p tcp --dport '' @ controlPlanePort @ '' -m conntrack --ctstate NEW,ESTABLISHED -j ACCEPT'',
         ''-A OUTPUT -p tcp --sport '' @ controlPlanePort @ '' -m conntrack --ctstate ESTABLISHED -j ACCEPT'',
         ''-A OUTPUT -p tcp --dport '' @ controlPlanePort @ '' -m conntrack --ctstate NEW,ESTABLISHED -j ACCEPT'',
         ''-A INPUT -p tcp --sport '' @ controlPlanePort @ '' -m conntrack --ctstate ESTABLISHED -j ACCEPT'',
         []]
      else []) @
     (if hasDocker then
        [''# --- Docker: Standard rules for DOCKER-USER ---'',
         ''-A DOCKER-USER -p icmp -m conntrack --ctstate RELATED -j ACCEPT'',
         ''-A DOCKER-USER -m conntrack --ctstate INVALID -j DROP'',
         []]
      else [])"

definition writeLoggingSection :: "bool \<Rightarrow> builder" where
  "writeLoggingSection hasDocker =
     [''# --- Logging and default deny ---'',
      ''-A INPUT -j LOG --log-prefix '' @ quoted (dropPrefixFor ChainInput) @ '' --log-level 4'',
      ''-A INPUT -j DROP'',
      ''-A OUTPUT -j LOG --log-prefix '' @ quoted (dropPrefixFor ChainOutput) @ '' --log-level 4'',
      ''-A OUTPUT -j DROP''] @
     (if hasDocker then
        [[], ''# --- Docker: DOCKER-USER chain default ---'', ''-A DOCKER-USER -j RETURN'']
      else [])"

definition writeIGMPRules :: "string \<Rightarrow> bool \<Rightarrow> builder" where
  "writeIGMPRules targetScope hasDocker =
     (case scopeFlags targetScope hasDocker of (writeToHost, writeToDocker) \<Rightarrow>
        (if writeToHost
         then rw_accept ChainInput ''-d 224.0.0.1/32 -p igmp'' @ rw_accept ChainOutput ''-d 224.0.0.22/32 -p igmp''
         else []) @
        (if writeToDocker
         then rw_accept ChainDockerUser ''-d 224.0.0.1/32 -p igmp'' @ rw_accept ChainDockerUser ''-d 224.0.0.22/32 -p igmp''
         else []))"

definition writeVRRPRules :: "string \<Rightarrow> bool \<Rightarrow> builder" where
  "writeVRRPRules targetScope hasDocker =
     (case scopeFlags targetScope hasDocker of (writeToHost, writeToDocker) \<Rightarrow>
        (if writeToHost then rw_accept ChainOutput ''-d 224.0.0.18/32 -p vrrp'' else []) @
        (if writeToDocker then rw_accept ChainDockerUser ''-d 224.0.0.18/32 -p vrrp'' else []))"

definition writeMulticastRule :: "string \<Rightarrow> string \<Rightarrow> bool \<Rightarrow> builder" where
  "writeMulticastRule action targetScope hasDocker =
     (case scopeFlags targetScope hasDocker of (writeToHost, writeToDocker) \<Rightarrow>
        (if writeToHost then rw_writeAction action ChainInput ''-m pkttype --pkt-type multicast'' else []) @
        (if writeToDocker then rw_writeAction action ChainDockerUser ''-m pkttype --pkt-type multicast'' else []) @
        [[]])"

definition normalizeBroadcastProto :: "string \<Rightarrow> string" where
  "normalizeBroadcastProto protocol =
     (if protocol = [] \<or> equalFold protocol ''both'' then ''udp'' else protocol)"

definition writeBroadcastRule :: "string \<Rightarrow> string \<Rightarrow> bool \<Rightarrow> string \<Rightarrow> string \<Rightarrow> builder" where
  "writeBroadcastRule action targetScope hasDocker broadcastAddr protocol0 =
     (case scopeFlags targetScope hasDocker of (writeToHost, writeToDocker) \<Rightarrow>
        (let protocol = normalizeBroadcastProto protocol0 in
         (if writeToHost then rw_accept ChainInput (''-d '' @ broadcastAddr @ '' -p '' @ protocol) else []) @
         (if writeToDocker then rw_accept ChainDockerUser (''-d '' @ broadcastAddr @ '' -p '' @ protocol) else [])))"

section \<open>Matches\<close>

definition privateIpsetDstMatch :: string where
  "privateIpsetDstMatch = ''-m set ! --match-set '' @ ipsetPrivateRanges @ '' dst''"

definition privateIpsetSrcMatch :: string where
  "privateIpsetSrcMatch = ''-m set ! --match-set '' @ ipsetPrivateRanges @ '' src''"

definition internetFallbackMatch :: "string \<Rightarrow> string" where
  "internetFallbackMatch flag =
     join '' '' ((flag @ '' 0.0.0.0/0'') # map (\<lambda>cidr. ''! '' @ flag @ '' '' @ cidr) privateFallbackCIDRList)"

definition internetFallbackDstMatch :: string where
  "internetFallbackDstMatch = internetFallbackMatch ''-d''"

definition internetFallbackSrcMatch :: string where
  "internetFallbackSrcMatch = internetFallbackMatch ''-s''"

definition filterSelfReferencingCIDRs :: "string list \<Rightarrow> string \<Rightarrow> string list res" where
  "filterSelfReferencingCIDRs cidrs ipAddress =
     (if ipAddress = [] then Inr cidrs
      else case ValidatePeerCIDR ipAddress of
        Inl e \<Rightarrow> Inl (Wrap ''invalid peer IP'' [e, Sentinel ErrPreviewValidation])
      | Inr _ \<Rightarrow> (let peerCIDR = NormalizeToCIDR ipAddress in Inr (filter (\<lambda>cidr. cidr \<noteq> peerCIDR) cidrs)))"

section \<open>The builders\<close>

definition unknownRuleDir :: goerr where
  "unknownRuleDir = previewErr ''unknown ruleDir''"

text \<open>The inner \<^verbatim>\<open>switch ruleDir\<close> of the builders.\<close>

definition dirSwitch :: "ruleDir \<Rightarrow> 'a \<Rightarrow> 'a \<Rightarrow> 'a res" where
  "dirSwitch dir t s =
     (if dir = ruleDirTarget then Inr t else if dir = ruleDirSource then Inr s else Inl unknownRuleDir)"

definition whenE :: "bool \<Rightarrow> 'a list res \<Rightarrow> 'a list res" where
  "whenE b m = (if b then m else Inr [])"

text \<open>One iteration of the clause loop of \<^verbatim>\<open>buildAcceptRules\<close>, path by path.\<close>

definition acceptInternetRules ::
  "policyInfo \<Rightarrow> PortClause \<Rightarrow> bool \<Rightarrow> bool \<Rightarrow> bool \<Rightarrow> string list" where
  "acceptInternetRules pol pc writeToHost writeToDocker noConntrack =
     (case splitPortMatches pc of (primaryPortMatch, returnPortMatch) \<Rightarrow>
        (let conntrackFull = conntrackMatch noConntrack in
         (if writeToHost then
            [joinRuleParts [''-A OUTPUT'', ''-p'', Protocol pc, privateIpsetDstMatch, primaryPortMatch,
               conntrackFull, ''-j'', pol_Action pol],
             joinRuleParts [''-A INPUT'', ''-p'', Protocol pc, privateIpsetSrcMatch, returnPortMatch,
               conntrackFull, ''-j'', ''ACCEPT'']]
          else []) @
         (if writeToDocker then
            [joinRuleParts [''-A DOCKER-USER'', ''-p'', Protocol pc, privateIpsetDstMatch, primaryPortMatch,
               conntrackFull, ''-j'', pol_Action pol]]
          else [])))"

definition acceptIpsetRules ::
  "policyInfo \<Rightarrow> PortClause \<Rightarrow> string \<Rightarrow> bool \<Rightarrow> bool \<Rightarrow> bool \<Rightarrow> ruleDir \<Rightarrow> string list res" where
  "acceptIpsetRules pol pc ipsetName writeToHost writeToDocker noConntrack dir =
     (case splitPortMatches pc of (primaryPortMatch, returnPortMatch) \<Rightarrow>
        (let conntrackFull = conntrackMatch noConntrack;
             srcMatch = ''-m set --match-set '' @ ipsetName @ '' src'';
             dstMatch = ''-m set --match-set '' @ ipsetName @ '' dst'';
             ipsetMatchPrimary = (if dir = ruleDirSource then dstMatch else srcMatch);
             ipsetMatchReturn = (if dir = ruleDirSource then srcMatch else dstMatch);
             rule = (\<lambda>chain setMatch portMatch verdict.
               ''-A '' @ chain @ '' -p '' @ Protocol pc @ '' '' @ setMatch @ '' '' @ portMatch @ '' '' @ conntrackFull @ '' -j '' @ verdict)
         in bindE (whenE writeToHost
              (dirSwitch dir
                 [rule ''INPUT'' ipsetMatchPrimary primaryPortMatch (pol_Action pol),
                  rule ''OUTPUT'' ipsetMatchReturn returnPortMatch ''ACCEPT'']
                 [rule ''OUTPUT'' ipsetMatchPrimary primaryPortMatch (pol_Action pol),
                  rule ''INPUT'' ipsetMatchReturn returnPortMatch (pol_Action pol)]))
            (\<lambda>host. bindE (whenE writeToDocker
              (dirSwitch dir
                 [rule ''DOCKER-USER'' ipsetMatchPrimary primaryPortMatch (pol_Action pol)]
                 [rule ''DOCKER-USER'' ipsetMatchPrimary primaryPortMatch (pol_Action pol)]))
            (\<lambda>docker. Inr (host @ docker)))))"

definition acceptCidrRules ::
  "policyInfo \<Rightarrow> PortClause \<Rightarrow> string list \<Rightarrow> string \<Rightarrow> bool \<Rightarrow> bool \<Rightarrow> bool \<Rightarrow> ruleDir \<Rightarrow> bool \<Rightarrow>
     string list res" where
  "acceptCidrRules pol pc cidrs ipAddress writeToHost writeToDocker noConntrack dir isMulticastTarget =
     (case splitPortMatches pc of (primaryPortMatch, returnPortMatch) \<Rightarrow>
        (let conntrackFull = conntrackMatch noConntrack;
             returnCIDRs =
               (if dir = ruleDirSource
                then (if isMulticastTarget then (if noConntrack then [] else [''0.0.0.0/0'']) else cidrs)
                else []);
             rule = (\<lambda>chain flag cidr portMatch verdict.
               ''-A '' @ chain @ '' '' @ flag @ '' '' @ cidr @ '' -p '' @ Protocol pc @ '' '' @ portMatch @ '' '' @ conntrackFull @ '' -j '' @ verdict)
         in bindE (filterSelfReferencingCIDRs cidrs ipAddress) (\<lambda>filteredCidrs.
            bindE (concatMapE (\<lambda>cidr.
                bindE (whenE writeToHost
                  (dirSwitch dir
                     [rule ''INPUT'' ''-s'' cidr primaryPortMatch (pol_Action pol),
                      rule ''OUTPUT'' ''-d'' cidr returnPortMatch ''ACCEPT'']
                     [rule ''OUTPUT'' ''-d'' cidr primaryPortMatch (pol_Action pol)]))
                (\<lambda>host. bindE (whenE writeToDocker
                  (dirSwitch dir
                     [rule ''DOCKER-USER'' ''-s'' cidr primaryPortMatch (pol_Action pol)]
                     [rule ''DOCKER-USER'' ''-d'' cidr primaryPortMatch (pol_Action pol)]))
                (\<lambda>docker. Inr (host @ docker)))) filteredCidrs) (\<lambda>rules.
            if dir = ruleDirSource then
              bindE (filterSelfReferencingCIDRs returnCIDRs ipAddress) (\<lambda>filteredReturnCidrs.
                Inr (rules @ map (\<lambda>returnCidr. rule ''INPUT'' ''-s'' returnCidr returnPortMatch ''ACCEPT'')
                       filteredReturnCidrs))
            else Inr rules))))"

definition buildAcceptRules ::
  "policyInfo \<Rightarrow> PortClause list \<Rightarrow> bool \<Rightarrow> string \<Rightarrow> string list \<Rightarrow> string \<Rightarrow> bool \<Rightarrow> bool \<Rightarrow> bool \<Rightarrow>
     ruleDir \<Rightarrow> bool \<Rightarrow> string list res" where
  "buildAcceptRules pol portClauses useIpset ipsetName cidrs ipAddress writeToHost writeToDocker
     noConntrack dir isMulticastTarget =
     (if dir \<noteq> ruleDirTarget \<and> dir \<noteq> ruleDirSource \<and> dir \<noteq> ruleDirInternet
      then Inl unknownRuleDir
      else concatMapE (\<lambda>pc.
        if dir = ruleDirInternet then
          bindE (assertInternetIpset useIpset ipsetName)
            (\<lambda>_. Inr (acceptInternetRules pol pc writeToHost writeToDocker noConntrack))
        else if useIpset then acceptIpsetRules pol pc ipsetName writeToHost writeToDocker noConntrack dir
        else acceptCidrRules pol pc cidrs ipAddress writeToHost writeToDocker noConntrack dir isMulticastTarget)
        portClauses)"

text \<open>One iteration of the clause loop of \<^verbatim>\<open>buildLogDropRules\<close>.\<close>

definition logDropClause ::
  "policyInfo \<Rightarrow> PortClause \<Rightarrow> bool \<Rightarrow> string \<Rightarrow> string list \<Rightarrow> string \<Rightarrow> bool \<Rightarrow> bool \<Rightarrow> ruleDir \<Rightarrow>
     string list res" where
  "logDropClause pol pc useIpset ipsetName cidrs ipAddress writeToHost writeToDocker dir =
     (let act = pol_Action pol in
      if dir = ruleDirInternet then
        bindE (assertInternetIpset useIpset ipsetName) (\<lambda>_.
          (let m = joinRuleParts [''-p'', Protocol pc, privateIpsetDstMatch, PortMatch pc] in
           Inr ((if writeToHost then logDropRule act ChainOutput m else []) @
                (if writeToDocker then logDropRule act ChainDockerUser m else []))))
      else if useIpset then
        (let ipsetMatchPrimary =
               (if dir = ruleDirSource then ''-m set --match-set '' @ ipsetName @ '' dst''
                else ''-m set --match-set '' @ ipsetName @ '' src'');
             chain = (if dir = ruleDirSource then ChainOutput else ChainInput);
             m = ''-p '' @ Protocol pc @ '' '' @ ipsetMatchPrimary @ '' '' @ PortMatch pc
         in Inr ((if writeToHost then logDropRule act chain m else []) @
                 (if writeToDocker then logDropRule act ChainDockerUser m else [])))
      else
        bindE (filterSelfReferencingCIDRs cidrs ipAddress) (\<lambda>filteredCidrs.
          (let srcMatch = (\<lambda>cidr. ''-s '' @ cidr @ '' -p '' @ Protocol pc @ '' '' @ PortMatch pc);
               dstMatch = (\<lambda>cidr. ''-d '' @ cidr @ '' -p '' @ Protocol pc @ '' '' @ PortMatch pc)
           in concatMapE (\<lambda>cidr.
             bindE (whenE writeToHost
               (dirSwitch dir (logDropRule act ChainInput (srcMatch cidr)) (logDropRule act ChainOutput (dstMatch cidr))))
             (\<lambda>host. bindE (whenE writeToDocker
               (dirSwitch dir (logDropRule act ChainDockerUser (srcMatch cidr)) (logDropRule act ChainDockerUser (dstMatch cidr))))
             (\<lambda>docker. Inr (host @ docker)))) filteredCidrs)))"

definition buildLogDropRules ::
  "policyInfo \<Rightarrow> PortClause list \<Rightarrow> bool \<Rightarrow> string \<Rightarrow> string list \<Rightarrow> string \<Rightarrow> bool \<Rightarrow> bool \<Rightarrow> ruleDir \<Rightarrow>
     string list res" where
  "buildLogDropRules pol portClauses useIpset ipsetName cidrs ipAddress writeToHost writeToDocker dir =
     (if dir \<noteq> ruleDirTarget \<and> dir \<noteq> ruleDirSource \<and> dir \<noteq> ruleDirInternet
      then Inl unknownRuleDir
      else concatMapE (\<lambda>pc. logDropClause pol pc useIpset ipsetName cidrs ipAddress writeToHost writeToDocker dir)
             portClauses)"

definition writeRules ::
  "policyInfo \<Rightarrow> PortClause list \<Rightarrow> bool \<Rightarrow> string \<Rightarrow> string list \<Rightarrow> string \<Rightarrow> bool \<Rightarrow> bool \<Rightarrow> bool \<Rightarrow>
     ruleDir \<Rightarrow> bool \<Rightarrow> string list res" where
  "writeRules pol portClauses useIpset ipsetName cidrs ipAddress writeToHost writeToDocker noConntrack dir
     isMulticastTarget =
     (if list_ex isInternetSentinelCIDR cidrs
      then Inl (failClosedSentinelLeakErr (if pol_Name pol \<noteq> [] then pol_Name pol else ''preview''))
      else if pol_Action pol = ActionAccept
      then buildAcceptRules pol portClauses useIpset ipsetName cidrs ipAddress writeToHost writeToDocker
             noConntrack dir isMulticastTarget
      else buildLogDropRules pol portClauses useIpset ipsetName cidrs ipAddress writeToHost writeToDocker dir)"

definition buildInternetFallbackRules ::
  "policyInfo \<Rightarrow> PortClause list \<Rightarrow> bool \<Rightarrow> bool \<Rightarrow> bool \<Rightarrow> string list" where
  "buildInternetFallbackRules pol portClauses writeToHost writeToDocker noConntrack =
     concat (map (\<lambda>pc.
       (case splitPortMatches pc of (primaryPortMatch, returnPortMatch) \<Rightarrow>
          (let conntrackFull = conntrackMatch noConntrack in
           if pol_Action pol = ActionAccept then
             (if writeToHost then
                [joinRuleParts [''-A OUTPUT'', internetFallbackDstMatch, ''-p'', Protocol pc, primaryPortMatch,
                   conntrackFull, ''-j'', pol_Action pol],
                 joinRuleParts [''-A INPUT'', internetFallbackSrcMatch, ''-p'', Protocol pc, returnPortMatch,
                   conntrackFull, ''-j ACCEPT'']]
              else []) @
             (if writeToDocker then
                [joinRuleParts [''-A DOCKER-USER'', internetFallbackDstMatch, ''-p'', Protocol pc, primaryPortMatch,
                   conntrackFull, ''-j'', pol_Action pol]]
              else [])
           else
             (let m = joinRuleParts [internetFallbackDstMatch, ''-p'', Protocol pc, PortMatch pc] in
              (if writeToHost then logDropRule (pol_Action pol) ChainOutput m else []) @
              (if writeToDocker then logDropRule (pol_Action pol) ChainDockerUser m else [])))))
       portClauses)"

section \<open>What a policy means\<close>

text \<open>
  The abstract counterpart of an ACCEPT rule: a chain, the remote endpoint with the side of the
  packet it is matched on, a protocol, a port match and whether connection tracking applies.
  The endpoint is an address literal, a group set, or the public internet, the last one either as
  the complement of the private-ranges set or as the list of negated ranges.
\<close>

datatype endpoint = ECidr string | ESet string | EPublicSet | EPublicList

record arule =
  a_chain :: string
  a_src :: bool
  a_end :: endpoint
  a_proto :: string
  a_ports :: string
  a_noct :: bool

definition renderAccept :: "arule \<Rightarrow> string" where
  "renderAccept r =
     (let side = (\<lambda>s d. if a_src r then s else d); ct = conntrackMatch (a_noct r) in
      case a_end r of
        ECidr c \<Rightarrow> ''-A '' @ a_chain r @ '' '' @ side ''-s'' ''-d'' @ '' '' @ c @ '' -p '' @ a_proto r @ '' '' @ a_ports r
                    @ '' '' @ ct @ '' -j ACCEPT''
      | ESet n \<Rightarrow> ''-A '' @ a_chain r @ '' -p '' @ a_proto r @ '' -m set --match-set '' @ n @ side '' src '' '' dst '' @ a_ports r
                    @ '' '' @ ct @ '' -j ACCEPT''
      | EPublicSet \<Rightarrow> joinRuleParts [''-A '' @ a_chain r, ''-p'', a_proto r,
                        side privateIpsetSrcMatch privateIpsetDstMatch, a_ports r, ct, ''-j'', ''ACCEPT'']
      | EPublicList \<Rightarrow> joinRuleParts [''-A '' @ a_chain r, side internetFallbackSrcMatch internetFallbackDstMatch,
                        ''-p'', a_proto r, a_ports r, ct, ''-j ACCEPT''])"

text \<open>
  The rule in the direction of the policy, on the host chain; the rule for the answers, which is
  its mirror image; and the copy of the first for forwarded container traffic.
\<close>

definition primaryRule :: "ruleDir \<Rightarrow> bool \<Rightarrow> endpoint \<Rightarrow> PortClause \<Rightarrow> arule" where
  "primaryRule dir noct e pc =
     \<lparr>a_chain = (if dir = ruleDirTarget then ChainInput else ChainOutput), a_src = (dir = ruleDirTarget),
      a_end = e, a_proto = Protocol pc, a_ports = fst (splitPortMatches pc), a_noct = noct\<rparr>"

definition returnRule :: "ruleDir \<Rightarrow> bool \<Rightarrow> endpoint \<Rightarrow> PortClause \<Rightarrow> arule" where
  "returnRule dir noct e pc =
     \<lparr>a_chain = (if dir = ruleDirTarget then ChainOutput else ChainInput), a_src = (dir \<noteq> ruleDirTarget),
      a_end = e, a_proto = Protocol pc, a_ports = snd (splitPortMatches pc), a_noct = noct\<rparr>"

definition dockerRule :: "ruleDir \<Rightarrow> bool \<Rightarrow> endpoint \<Rightarrow> PortClause \<Rightarrow> arule" where
  "dockerRule dir noct e pc = (primaryRule dir noct e pc)\<lparr>a_chain := ChainDockerUser\<rparr>"

definition flowRules :: "bool \<Rightarrow> bool \<Rightarrow> ruleDir \<Rightarrow> bool \<Rightarrow> endpoint \<Rightarrow> PortClause \<Rightarrow> arule list" where
  "flowRules host docker dir noct e pc =
     (if host then [primaryRule dir noct e pc, returnRule dir noct e pc] else []) @
     (if docker then [dockerRule dir noct e pc] else [])"

definition selfFiltered :: "string list \<Rightarrow> string \<Rightarrow> string list" where
  "selfFiltered cidrs ip = (if ip = [] then cidrs else filter (\<lambda>c. c \<noteq> NormalizeToCIDR ip) cidrs)"

lemmas flow_defs = flowRules_def primaryRule_def returnRule_def dockerRule_def renderAccept_def

lemma filterSelf_Inr:
  "filterSelfReferencingCIDRs cidrs ip = Inr fs \<longleftrightarrow>
     (ip = [] \<or> ValidatePeerCIDR ip = Inr ()) \<and> fs = selfFiltered cidrs ip"
  by (auto simp: filterSelfReferencingCIDRs_def selfFiltered_def Let_def split: sum.splits)

lemma dirSwitch_simps [simp]:
  "dirSwitch ruleDirTarget t s = Inr t" "dirSwitch ruleDirSource t s = Inr s"
  by (simp_all add: dirSwitch_def)

lemma whenE_Inr [simp]: "whenE b (Inr xs) = Inr (if b then xs else [])"
  by (simp add: whenE_def)

lemma acceptInternetRules_flow:
  "pol_Action pol = ActionAccept \<Longrightarrow>
     acceptInternetRules pol pc host docker noct =
       map renderAccept (flowRules host docker ruleDirInternet noct EPublicSet pc)"
  by (simp add: acceptInternetRules_def flow_defs split_beta Let_def)

lemma acceptIpsetRules_flow:
  assumes "pol_Action pol = ActionAccept" "dir = ruleDirTarget \<or> dir = ruleDirSource"
  shows "acceptIpsetRules pol pc n host docker noct dir =
     Inr (map renderAccept (flowRules host docker dir noct (ESet n) pc))"
  using assms by (auto simp: acceptIpsetRules_def flow_defs split_beta Let_def)

lemma acceptCidrRules_target:
  assumes "pol_Action pol = ActionAccept" "filterSelfReferencingCIDRs cidrs ip = Inr fs"
  shows "acceptCidrRules pol pc cidrs ip host docker noct ruleDirTarget mt =
     Inr (concat (map (\<lambda>c. map renderAccept (flowRules host docker ruleDirTarget noct (ECidr c) pc)) fs))"
  using assms by (cases host; cases docker) (simp_all add: acceptCidrRules_def flow_defs split_beta Let_def)

lemma acceptCidrRules_source:
  assumes "pol_Action pol = ActionAccept" "filterSelfReferencingCIDRs cidrs ip = Inr fs"
    and "filterSelfReferencingCIDRs (if mt then if noct then [] else [''0.0.0.0/0''] else cidrs) ip = Inr rs"
  shows "acceptCidrRules pol pc cidrs ip host docker noct ruleDirSource mt =
     Inr (concat (map (\<lambda>c.
            (if host then [renderAccept (primaryRule ruleDirSource noct (ECidr c) pc)] else []) @
            (if docker then [renderAccept (dockerRule ruleDirSource noct (ECidr c) pc)] else [])) fs) @
          map (\<lambda>c. renderAccept (returnRule ruleDirSource noct (ECidr c) pc)) rs)"
  using assms
  by (cases host; cases docker) (simp_all add: acceptCidrRules_def flow_defs split_beta Let_def)

text \<open>The remote endpoints a call of the builders works on.\<close>

definition endpoints :: "ruleDir \<Rightarrow> bool \<Rightarrow> string \<Rightarrow> string list \<Rightarrow> string \<Rightarrow> endpoint list" where
  "endpoints dir useIpset ipsetName cidrs ip =
     (if dir = ruleDirInternet then [EPublicSet]
      else if useIpset then [ESet ipsetName] else map ECidr (selfFiltered cidrs ip))"

text \<open>A policy and a clause on which the properties are instantiated.\<close>

definition exPol :: "string \<Rightarrow> policyInfo" where
  "exPol act = \<lparr>pol_ID = 1, pol_Name = ''p'', pol_SourceID = 1, pol_SourceType = ''peer'', pol_ServiceID = 1,
     pol_TargetID = 2, pol_TargetType = ''peer'', pol_SourceIP = [], pol_TargetIP = [], pol_Action = act,
     pol_Priority = 100, pol_TargetScope = ''host'', pol_Direction = ''both'', pol_IsTarget = True, pol_IsSource = True\<rparr>"

definition exClause :: PortClause where
  "exClause = \<lparr>Protocol = ''tcp'', PortMatch = ''--dport 80'', SrcPortMatch = []\<rparr>"

lemma acceptCidrRules_set:
  assumes "acceptCidrRules pol pc cidrs ip True docker noct dir False = Inr rules"
    and "pol_Action pol = ActionAccept" "dir = ruleDirTarget \<or> dir = ruleDirSource"
  shows "set rules = renderAccept ` (\<Union>c \<in> set (selfFiltered cidrs ip). set (flowRules True docker dir noct (ECidr c) pc))"
proof -
  from assms(1) obtain fs where fs: "filterSelfReferencingCIDRs cidrs ip = Inr fs"
    by (auto simp: acceptCidrRules_def split_beta Let_def bindE_eq_Inr)
  then have "fs = selfFiltered cidrs ip" by (simp add: filterSelf_Inr)
  from assms(3) show ?thesis
  proof
    assume "dir = ruleDirTarget"
    with assms fs \<open>fs = _\<close> have "rules = concat (map (\<lambda>c. map renderAccept
        (flowRules True docker dir noct (ECidr c) pc)) (selfFiltered cidrs ip))"
      by (simp add: acceptCidrRules_target)
    then show ?thesis by (simp add: image_UN)
  next
    assume dir: "dir = ruleDirSource"
    let ?S = "set (selfFiltered cidrs ip)" and ?R = "\<lambda>f c. renderAccept (f ruleDirSource noct (ECidr c) pc)"
    from assms fs \<open>fs = _\<close> dir have "rules = concat (map (\<lambda>c. ?R primaryRule c # (if docker then [?R dockerRule c] else []))
        (selfFiltered cidrs ip)) @ map (?R returnRule) (selfFiltered cidrs ip)"
      by (simp add: acceptCidrRules_source)
    then have "set rules = (\<Union>c \<in> ?S. insert (?R primaryRule c) (if docker then {?R dockerRule c} else {})) \<union> ?R returnRule ` ?S"
      by (cases docker) (simp_all, blast?)
    then show ?thesis by (cases docker) (auto simp: dir flowRules_def image_UN)
  qed
qed

lemma dir_cases:
  "buildAcceptRules pol pcs u n cidrs ip host docker noct dir mt = Inr rules \<Longrightarrow>
     dir = ruleDirTarget \<or> dir = ruleDirSource \<or> dir = ruleDirInternet"
  by (auto simp: buildAcceptRules_def split: if_splits)

lemma writeRules_accept_set:
  assumes "writeRules pol pcs useIpset ipsetName cidrs ip True docker noct dir False = Inr rules"
    and "pol_Action pol = ActionAccept"
  shows "set rules = renderAccept ` (\<Union>pc \<in> set pcs. \<Union>e \<in> set (endpoints dir useIpset ipsetName cidrs ip).
           set (flowRules True docker dir noct e pc))"
proof -
  from assms have b: "buildAcceptRules pol pcs useIpset ipsetName cidrs ip True docker noct dir False = Inr rules"
    by (auto simp: writeRules_def split: if_splits)
  note dir = dir_cases [OF b]
  from b dir obtain f where f: "concatMapE f pcs = Inr rules" and
    "f = (\<lambda>pc. if dir = ruleDirInternet then
          bindE (assertInternetIpset useIpset ipsetName)
            (\<lambda>_. Inr (acceptInternetRules pol pc True docker noct))
        else if useIpset then acceptIpsetRules pol pc ipsetName True docker noct dir
        else acceptCidrRules pol pc cidrs ip True docker noct dir False)"
    by (auto simp: buildAcceptRules_def)
  then have "f pc = Inr ys \<Longrightarrow> set ys = renderAccept ` (\<Union>e \<in> set (endpoints dir useIpset ipsetName cidrs ip).
           set (flowRules True docker dir noct e pc))" for pc ys
    using dir assms(2)
    by (auto simp: endpoints_def bindE_eq_Inr acceptInternetRules_flow acceptIpsetRules_flow
        acceptCidrRules_set split: if_splits)
  from concatMapE_set [OF f this] show ?thesis by (simp add: image_UN)
qed

text \<open>
  C5 (ACCEPT): an ACCEPT policy with host scope is compiled to exactly the rules its meaning asks
  for. For every port clause and every remote endpoint (a group set, an address other than the
  peer's own, or the public internet) there is the rule for the policy's direction, its mirror
  image for the answers and, with docker scope, the copy on the forwarding chain; and there is
  no other rule.
\<close>

theorem writeRules_accept_meaning:
  assumes "writeRules pol pcs useIpset ipsetName cidrs ip True docker noct dir False = Inr rules"
    and "pol_Action pol = ActionAccept"
  shows "set rules = renderAccept ` (\<Union>pc \<in> set pcs. \<Union>e \<in> set (endpoints dir useIpset ipsetName cidrs ip).
           set (flowRules True docker dir noct e pc))"
  using assms by (rule writeRules_accept_set)

theorem writeRules_accept_meaning_witness:
  "set [''-A INPUT -s 10.0.0.9/32 -p tcp --dport 80 -m conntrack --ctstate NEW,ESTABLISHED -j ACCEPT'',
        ''-A OUTPUT -d 10.0.0.9/32 -p tcp --sport 80 -m conntrack --ctstate NEW,ESTABLISHED -j ACCEPT''] =
   renderAccept ` (\<Union>pc \<in> set [exClause]. \<Union>e \<in> set (endpoints ruleDirTarget False [] [''10.0.0.9/32''] ''10.0.0.1'').
     set (flowRules True False ruleDirTarget False e pc))"
proof (rule writeRules_accept_meaning [of "exPol ActionAccept"])
  show "writeRules (exPol ActionAccept) [exClause] False [] [''10.0.0.9/32''] ''10.0.0.1'' True False False ruleDirTarget False =
      Inr [''-A INPUT -s 10.0.0.9/32 -p tcp --dport 80 -m conntrack --ctstate NEW,ESTABLISHED -j ACCEPT'',
           ''-A OUTPUT -d 10.0.0.9/32 -p tcp --sport 80 -m conntrack --ctstate NEW,ESTABLISHED -j ACCEPT'']"
    by code_simp
qed (simp add: exPol_def)

text \<open>
  A literal that carries the internet marker never becomes rule text: the rule builder
  fails closed, whatever the other arguments.
\<close>

theorem writeRules_sentinel:
  assumes "c \<in> set cidrs" and "isInternetSentinelCIDR c"
  shows "\<exists>e. writeRules pol pcs useIpset ipsetName cidrs ip host docker noct dir mt = Inl e \<and>
             errIs e ErrPreviewFailClosed"
  using assms by (auto simp: writeRules_def list_ex_iff failClosedSentinelLeakErr_def)

theorem writeRules_sentinel_witness:
  "\<exists>e. writeRules (exPol ActionAccept) [exClause] False [] [InternetSentinel] [] True True False ruleDirSource False = Inl e \<and>
       errIs e ErrPreviewFailClosed"
  by (rule writeRules_sentinel [of InternetSentinel]) (simp_all add: isInternetSentinelCIDR_def)

text \<open>
  With docker-only scope an egress policy on address literals still opens the host:
  the INPUT rules for answers do not depend on the host flag.
\<close>

theorem buildAcceptRules_docker_only_leak:
  assumes "ip = [] \<or> ValidatePeerCIDR ip = Inr ()" and "pol_Action pol = ActionAccept"
    and "c \<in> set (selfFiltered cidrs ip)" and "pc \<in> set pcs"
  shows "\<exists>rules. buildAcceptRules pol pcs False [] cidrs ip False docker noct ruleDirSource False = Inr rules \<and>
           renderAccept (returnRule ruleDirSource noct (ECidr c) pc) \<in> set rules"
proof -
  have "filterSelfReferencingCIDRs cidrs ip = Inr (selfFiltered cidrs ip)"
    using assms(1) by (simp add: filterSelf_Inr)
  with assms show ?thesis
    by (auto simp: buildAcceptRules_def acceptCidrRules_source)
qed

theorem buildAcceptRules_docker_only_leak_witness:
  "\<exists>rules. buildAcceptRules (exPol ActionAccept) [exClause] False [] [''10.0.0.9/32''] ''10.0.0.1'' False True False ruleDirSource False = Inr rules \<and>
     renderAccept (returnRule ruleDirSource False (ECidr ''10.0.0.9/32'') exClause) \<in> set rules"
proof (rule buildAcceptRules_docker_only_leak)
  show "''10.0.0.1'' = [] \<or> ValidatePeerCIDR ''10.0.0.1'' = Inr ()" by code_simp
  show "''10.0.0.9/32'' \<in> set (selfFiltered [''10.0.0.9/32''] ''10.0.0.1'')" by code_simp
qed (simp_all add: exPol_def)

section \<open>Rejecting policies\<close>

text \<open>The chain and match pairs a rejecting policy covers, and the lines each verdict writes.\<close>

definition dropLine :: "string \<times> string \<Rightarrow> string" where
  "dropLine = (\<lambda>(chain, m). ''-A '' @ chain @ '' '' @ m @ '' -j DROP'')"

definition logLine :: "string \<times> string \<Rightarrow> string" where
  "logLine = (\<lambda>(chain, m). ''-A '' @ chain @ '' '' @ m @ '' -j LOG --log-prefix '' @ quoted (dropPrefixFor chain)
                @ '' --log-level 4'')"

definition rejectLines :: "bool \<Rightarrow> (string \<times> string) list \<Rightarrow> string list" where
  "rejectLines logged xs = concat (map (\<lambda>x. if logged then [logLine x, dropLine x] else [dropLine x]) xs)"

lemma logDropRule_lines:
  "logDropRule ActionLogDrop chain m = rejectLines True [(chain, m)]"
  "logDropRule ActionDrop chain m = rejectLines False [(chain, m)]"
  by (simp_all add: logDropRule_def rejectLines_def logLine_def dropLine_def)

lemma rejectLines_append: "rejectLines b (xs @ ys) = rejectLines b xs @ rejectLines b ys"
  by (simp add: rejectLines_def)

lemma rejectLines_concat: "rejectLines b (concat xss) = concat (map (rejectLines b) xss)"
  by (induction xss) (simp_all add: rejectLines_append, simp add: rejectLines_def)

lemma rejectLines_Nil [simp]: "rejectLines b [] = []"
  by (simp add: rejectLines_def)

text \<open>The pairs of one clause, on each path of the builder.\<close>

definition rejectPairs ::
  "PortClause \<Rightarrow> bool \<Rightarrow> string \<Rightarrow> string list \<Rightarrow> string \<Rightarrow> bool \<Rightarrow> bool \<Rightarrow> ruleDir \<Rightarrow> (string \<times> string) list" where
  "rejectPairs pc useIpset ipsetName cidrs ip host docker dir =
     (let pairs = (\<lambda>chain m. (if host then [(chain, m)] else []) @ (if docker then [(ChainDockerUser, m)] else []));
          chain = (if dir = ruleDirTarget then ChainInput else ChainOutput)
      in if dir = ruleDirInternet then
           pairs chain (joinRuleParts [''-p'', Protocol pc, privateIpsetDstMatch, PortMatch pc])
         else if useIpset then
           pairs chain (''-p '' @ Protocol pc @ '' -m set --match-set '' @ ipsetName
             @ (if dir = ruleDirTarget then '' src '' else '' dst '') @ PortMatch pc)
         else concat (map (\<lambda>c. pairs chain ((if dir = ruleDirTarget then ''-s '' else ''-d '') @ c @ '' -p '' @
                Protocol pc @ '' '' @ PortMatch pc)) (selfFiltered cidrs ip)))"

definition verdictOf :: "bool \<Rightarrow> string" where
  "verdictOf logged = (if logged then ActionLogDrop else ActionDrop)"

lemma logDropRule_verdict: "logDropRule (verdictOf logged) chain m = rejectLines logged [(chain, m)]"
  by (cases logged) (simp_all add: verdictOf_def logDropRule_lines)

lemma rejectLines_pair: "rejectLines b [x, y] = rejectLines b [x] @ rejectLines b [y]"
  using rejectLines_append [of b "[x]" "[y]"] by simp

lemma rejectLines_map: "rejectLines b (map f xs) = concat (map (\<lambda>x. rejectLines b [f x]) xs)"
  by (simp add: rejectLines_def o_def)

lemma logDropClause_lines:
  assumes "logDropClause (pol\<lparr>pol_Action := verdictOf logged\<rparr>) pc u n cidrs ip host docker dir = Inr rules"
    and "dir = ruleDirTarget \<or> dir = ruleDirSource \<or> dir = ruleDirInternet"
  shows "rules = rejectLines logged (rejectPairs pc u n cidrs ip host docker dir)"
proof (cases "dir = ruleDirInternet \<or> u")
  case True
  then show ?thesis
    using assms
    by (cases host; cases docker)
      (auto simp: logDropClause_def rejectPairs_def bindE_eq_Inr Let_def
        logDropRule_verdict rejectLines_pair split: if_splits)
next
  case False
  with assms obtain fs where "filterSelfReferencingCIDRs cidrs ip = Inr fs"
    by (auto simp: logDropClause_def Let_def bindE_eq_Inr)
  then have fs: "filterSelfReferencingCIDRs cidrs ip = Inr (selfFiltered cidrs ip)"
    by (simp add: filterSelf_Inr)
  from False assms(2) have "dir = ruleDirTarget \<or> dir = ruleDirSource" by blast
  with False assms(1) fs show ?thesis
    by (elim disjE; cases host; cases docker)
      (auto simp: logDropClause_def rejectPairs_def Let_def logDropRule_verdict
        rejectLines_concat o_def rejectLines_pair rejectLines_map)
qed

lemma buildLogDropRules_lines:
  assumes "buildLogDropRules (pol\<lparr>pol_Action := verdictOf logged\<rparr>) pcs u n cidrs ip host docker dir = Inr rules"
  shows "rules = rejectLines logged (concat (map (\<lambda>pc. rejectPairs pc u n cidrs ip host docker dir) pcs))"
proof -
  from assms have dir: "dir = ruleDirTarget \<or> dir = ruleDirSource \<or> dir = ruleDirInternet"
    and m: "concatMapE (\<lambda>pc. logDropClause (pol\<lparr>pol_Action := verdictOf logged\<rparr>) pc u n cidrs ip host docker dir) pcs
              = Inr rules"
    by (auto simp: buildLogDropRules_def split: if_splits)
  from m show ?thesis
  proof (induction pcs arbitrary: rules)
    case Nil
    then show ?case by (simp add: concatMapE_eq_Inr)
  next
    case (Cons pc pcs)
    then show ?case
      by (auto simp: concatMapE_eq_Inr bindE_eq_Inr rejectLines_append dest!: logDropClause_lines [OF _ dir])
  qed
qed

lemma rejectLines_no_accept:
  assumes "r \<in> set (rejectLines b xs)"
  shows "\<not> (\<exists>x. r = x @ ''-j ACCEPT'')"
proof
  assume "\<exists>x. r = x @ ''-j ACCEPT''"
  then have "last r = CHR ''T''" by auto
  moreover have "last r = CHR ''P'' \<or> last r = CHR ''4''"
    using assms by (auto simp: rejectLines_def logLine_def dropLine_def split: if_splits)
  ultimately show False by auto
qed



section \<open>The two internet paths\<close>

lemma join_last_two: "join sep (xs @ [a @ sep @ b]) = join sep (xs @ [a, b])"
  by (induction sep xs rule: join.induct) simp_all

lemma joinRuleParts_verdict:
  "joinRuleParts [a, b, c, d, e, f, ''-j'', ''ACCEPT''] = joinRuleParts [a, b, c, d, e, f, ''-j ACCEPT'']"
  using join_last_two [of "'' ''" "filter (\<lambda>p. p \<noteq> []) [a, b, c, d, e, f]" "''-j''" "''ACCEPT''"]
  by (simp add: joinRuleParts_def)

text \<open>
  A peer without ipset support gets the same internet rules as one with it: both
  lists render the same abstract rules in the same order, and only the text of the address match
  differs.
\<close>

theorem internet_paths_agree:
  assumes "pol_Action pol = ActionAccept"
  shows "\<exists>specs. writeRules pol pcs False [] [] ip host docker noct ruleDirInternet mt
                   = Inr (map (\<lambda>r. renderAccept (r\<lparr>a_end := EPublicSet\<rparr>)) specs) \<and>
                 buildInternetFallbackRules pol pcs host docker noct
                   = map (\<lambda>r. renderAccept (r\<lparr>a_end := EPublicList\<rparr>)) specs"
proof (intro exI conjI)
  let ?specs = "concat (map (flowRules host docker ruleDirInternet noct EPublicSet) pcs)"
  have set: "map (\<lambda>r. renderAccept (r\<lparr>a_end := EPublicSet\<rparr>)) (flowRules host docker ruleDirInternet noct EPublicSet pc)
      = map renderAccept (flowRules host docker ruleDirInternet noct EPublicSet pc)" for pc
    by (auto simp: flowRules_def primaryRule_def returnRule_def dockerRule_def)
  show "writeRules pol pcs False [] [] ip host docker noct ruleDirInternet mt
      = Inr (map (\<lambda>r. renderAccept (r\<lparr>a_end := EPublicSet\<rparr>)) ?specs)"
    using assms by (simp add: writeRules_def buildAcceptRules_def assertInternetIpset_def
        acceptInternetRules_flow map_concat o_def set)
  show "buildInternetFallbackRules pol pcs host docker noct
      = map (\<lambda>r. renderAccept (r\<lparr>a_end := EPublicList\<rparr>)) ?specs"
    using assms by (cases host; cases docker)
      (simp_all add: buildInternetFallbackRules_def map_concat o_def flow_defs split_beta Let_def
        joinRuleParts_verdict)
qed

theorem internet_paths_agree_witness:
  "\<exists>specs. writeRules (exPol ActionAccept) [exClause] False [] [] ''10.0.0.1'' True False False ruleDirInternet False
             = Inr (map (\<lambda>r. renderAccept (r\<lparr>a_end := EPublicSet\<rparr>)) specs) \<and>
           buildInternetFallbackRules (exPol ActionAccept) [exClause] True False False
             = map (\<lambda>r. renderAccept (r\<lparr>a_end := EPublicList\<rparr>)) specs"
  by (rule internet_paths_agree) (simp add: exPol_def)

end
