(* ===== verification/Signer.thy ===== *)
theory Signer
  imports Go_Net
begin

text \<open>
  Bundle versions and signatures (\<^verbatim>\<open>internal/engine/signer.go\<close>). The hash, the MAC and the
  HKDF reader are parameters: nothing here depends on which functions they are. The reader may
  fail, and then the key falls back to the hash of the raw key.
\<close>

section \<open>Hexadecimal text\<close>

text \<open>\<^verbatim>\<open>hex.EncodeToString\<close> and \<^verbatim>\<open>hex.DecodeString\<close>.\<close>

definition hexDigit :: "nat \<Rightarrow> char" where
  "hexDigit d = ''0123456789abcdef'' ! d"

fun hexEncode :: "string \<Rightarrow> string" where
  "hexEncode [] = []"
| "hexEncode (c # s) = hexDigit ((of_char c :: nat) div 16) # hexDigit ((of_char c :: nat) mod 16) # hexEncode s"

fun hexDecode :: "string \<Rightarrow> string option" where
  "hexDecode [] = Some []"
| "hexDecode [c] = None"
| "hexDecode (a # b # s) =
     (if isHex a \<and> isHex b
      then map_option (\<lambda>t. char_of (hexVal a * 16 + hexVal b) # t) (hexDecode s)
      else None)"

section \<open>Keys and signatures\<close>

record crypto =
  sha256 :: "string \<Rightarrow> string"
  hmacSha256 :: "string \<Rightarrow> string \<Rightarrow> string"
  hkdfRead :: "string \<Rightarrow> string \<Rightarrow> string \<Rightarrow> string option"

definition Version :: "crypto \<Rightarrow> string \<Rightarrow> string" where
  "Version C content = hexEncode (sha256 C content)"

definition deriveWithSalt :: "crypto \<Rightarrow> string \<Rightarrow> string \<Rightarrow> string \<Rightarrow> string" where
  "deriveWithSalt C rawKey salt info =
     (case hkdfRead C rawKey salt info of None \<Rightarrow> sha256 C rawKey | Some derived \<Rightarrow> derived)"

definition DeriveHMACKey :: "crypto \<Rightarrow> string \<Rightarrow> string \<Rightarrow> int \<Rightarrow> string" where
  "DeriveHMACKey C rawKey purpose versionNumber =
     (let keyHash = sha256 C rawKey; salt = keyHash @ purpose;
          info = ''runic-'' @ purpose @ ''-v'' @ itoa versionNumber
      in deriveWithSalt C rawKey salt info)"

definition deriveLegacyHMACKey :: "crypto \<Rightarrow> string \<Rightarrow> string \<Rightarrow> int \<Rightarrow> string" where
  "deriveLegacyHMACKey C rawKey purpose versionNumber =
     deriveWithSalt C rawKey purpose (''runic-'' @ purpose @ ''-v'' @ itoa versionNumber)"

text \<open>The signed payload \<^verbatim>\<open>%d:%s\<close>.\<close>

definition signPayload :: "int \<Rightarrow> string \<Rightarrow> string" where
  "signPayload versionNumber content = itoa versionNumber @ '':'' @ content"

definition signWithDerivedKey :: "crypto \<Rightarrow> string \<Rightarrow> string \<Rightarrow> int \<Rightarrow> string" where
  "signWithDerivedKey C content derivedKey versionNumber =
     hexEncode (hmacSha256 C derivedKey (signPayload versionNumber content))"

definition signWithLegacyVersion :: "crypto \<Rightarrow> string \<Rightarrow> string \<Rightarrow> int \<Rightarrow> string" where
  "signWithLegacyVersion C content key versionNumber =
     signWithDerivedKey C content (deriveLegacyHMACKey C key ''rule-bundle'' versionNumber) versionNumber"

definition SignWithVersion :: "crypto \<Rightarrow> string \<Rightarrow> string \<Rightarrow> int \<Rightarrow> string" where
  "SignWithVersion C content key versionNumber =
     signWithDerivedKey C content (DeriveHMACKey C key ''rule-bundle'' versionNumber) versionNumber"

definition Sign :: "crypto \<Rightarrow> string \<Rightarrow> string \<Rightarrow> string" where
  "Sign C content key = SignWithVersion C content key 0"

definition VerifyWithVersion :: "crypto \<Rightarrow> string \<Rightarrow> string \<Rightarrow> string \<Rightarrow> int \<Rightarrow> bool" where
  "VerifyWithVersion C content key signature versionNumber =
     (case hexDecode signature of
        None \<Rightarrow> False
      | Some providedBytes \<Rightarrow>
          list_ex (\<lambda>expected. case hexDecode expected of None \<Rightarrow> False | Some expectedBytes \<Rightarrow> expectedBytes = providedBytes)
            [SignWithVersion C content key versionNumber, signWithLegacyVersion C content key versionNumber])"

definition Verify :: "crypto \<Rightarrow> string \<Rightarrow> string \<Rightarrow> string \<Rightarrow> int \<Rightarrow> bool" where
  "Verify C content key signature versionNumber = VerifyWithVersion C content key signature versionNumber"

section \<open>The coding is faithful\<close>

lemma hexDigit_cases: "d < 16 \<Longrightarrow> isHex (hexDigit d) \<and> hexVal (hexDigit d) = d \<and> lowerByte (hexDigit d) = hexDigit d"
proof -
  assume "d < 16"
  then have "d \<in> set [0,1,2,3,4,5,6,7,8,9,10,11,12,13,14,15]" by (simp, arith)
  then show ?thesis
    by (auto simp: hexDigit_def isHex_def hexVal_def lowerByte_def isUpper_def)
qed

lemma of_char_less_256: "(of_char c :: nat) < 256"
  by simp

lemma hexDecode_hexEncode [simp]: "hexDecode (hexEncode s) = Some s"
proof (induction s)
  case (Cons c s)
  have "(of_char c :: nat) div 16 < 16" "(of_char c :: nat) mod 16 < 16"
    using of_char_less_256 [of c] by (auto simp: less_mult_imp_div_less)
  with Cons show ?case by (simp add: hexDigit_cases)
qed simp

lemma hexVal_less: "isHex a \<Longrightarrow> hexVal a < 16"
  by (auto simp: isHex_def hexVal_def Let_def)

lemma hexDigit_hexVal: "isHex a \<Longrightarrow> hexDigit (hexVal a) = lowerByte a"
proof -
  assume "isHex a"
  then have "(of_char a :: nat) \<in> {48..57} \<union> {97..102} \<union> {65..70}"
    by (auto simp: isHex_def Let_def)
  then have "(of_char a :: nat) \<in> set ([48..<58] @ [97..<103] @ [65..<71])"
    unfolding set_append set_upt by auto
  then have "a \<in> char_of ` set ([48..<58] @ [97..<103] @ [65..<71])" by (metis char_of_char image_eqI)
  then have "a \<in> set (map char_of ([48..<58] @ [97..<103] @ [65..<71] :: nat list))" by simp
  then have "a \<in> set ''0123456789abcdefABCDEF''"
    by (simp add: upt_conv_Cons char_of_def bit_Suc_0_iff)
  then show ?thesis
    by (auto simp: hexDigit_def hexVal_def lowerByte_def isUpper_def char_of_def bit_Suc_0_iff)
qed

lemma lowerByte_hex: "isHex (lowerByte a) \<Longrightarrow> isHex a \<and> hexVal a = hexVal (lowerByte a)"
proof (cases "isUpper a")
  case True
  then have "(of_char (lowerByte a) :: nat) = of_char a + 32"
    by (simp add: lowerByte_def isUpper_def Let_def)
  then show "isHex (lowerByte a) \<Longrightarrow> ?thesis"
    using True by (auto simp: isHex_def hexVal_def isUpper_def Let_def)
qed (simp add: lowerByte_def)

lemma hexPair_iff:
  "isHex a \<and> isHex b \<and> c = char_of (hexVal a * 16 + hexVal b) \<longleftrightarrow>
     lowerByte a = hexDigit ((of_char c :: nat) div 16) \<and> lowerByte b = hexDigit ((of_char c :: nat) mod 16)"
  (is "?L \<longleftrightarrow> ?R")
proof
  assume l: ?L
  then have "hexVal a < 16" "hexVal b < 16" by (auto intro: hexVal_less)
  with l have "(of_char c :: nat) = hexVal a * 16 + hexVal b" by simp
  with \<open>hexVal b < 16\<close> have "(of_char c :: nat) div 16 = hexVal a" "(of_char c :: nat) mod 16 = hexVal b" by simp_all
  with l show ?R by (simp add: hexDigit_hexVal)
next
  assume r: ?R
  have "(of_char c :: nat) div 16 < 16" "(of_char c :: nat) mod 16 < 16"
    using of_char_less_256 [of c] by (auto simp: less_mult_imp_div_less)
  then have "isHex a \<and> hexVal a = (of_char c :: nat) div 16" "isHex b \<and> hexVal b = (of_char c :: nat) mod 16"
    using r lowerByte_hex [of a] lowerByte_hex [of b] by (simp_all add: hexDigit_cases)
  then show ?L by simp
qed

text \<open>Decoding accepts exactly the encodings, in either letter case.\<close>

lemma hexDecode_iff: "hexDecode s = Some t \<longleftrightarrow> map lowerByte s = hexEncode t"
proof (induction s arbitrary: t rule: hexDecode.induct)
  case 1
  then show ?case by (cases t) auto
next
  case (2 c)
  then show ?case by (cases t) auto
next
  case (3 a b s)
  show ?case
  proof (cases t)
    case Nil
    then show ?thesis by auto
  next
    case (Cons c t')
    have "isHex a \<and> isHex b \<and> c = char_of (hexVal a * 16 + hexVal b) \<longleftrightarrow>
        lowerByte a = hexDigit ((of_char c :: nat) div 16) \<and> lowerByte b = hexDigit ((of_char c :: nat) mod 16)"
      by (rule hexPair_iff)
    with 3 Cons show ?thesis by (cases "isHex a \<and> isHex b") auto
  qed
qed

section \<open>Properties\<close>

text \<open>
  A signature is accepted exactly when it is, up to the letter case of its digits, the
  signature of this content under this key and this version number, with the current or the
  legacy key derivation. In particular every signature the server makes is accepted.
\<close>

theorem VerifyWithVersion_iff:
  "VerifyWithVersion C content key sig v \<longleftrightarrow>
     map lowerByte sig = SignWithVersion C content key v \<or> map lowerByte sig = signWithLegacyVersion C content key v"
  by (auto simp: VerifyWithVersion_def SignWithVersion_def signWithLegacyVersion_def signWithDerivedKey_def
      simp flip: hexDecode_iff split: option.splits)

lemma itoa_chars: "c \<in> set (itoa i) \<Longrightarrow> isDigit c \<or> c = CHR ''-''"
  using showNat_digits by (auto simp: itoa_def list_all_iff split: if_splits)

lemma itoa_no_colon: "CHR '':'' \<notin> set (itoa i)"
  using itoa_chars [of "CHR '':''" i] by (auto simp: isDigit_def)

lemma showNat_inj: "showNat m = showNat n \<Longrightarrow> m = n"
  by (metis decFrom_showNat)

lemma showNat_no_minus: "showNat n \<noteq> CHR ''-'' # s"
proof
  assume "showNat n = CHR ''-'' # s"
  then have "list_all isDigit (CHR ''-'' # s)" using showNat_digits [of n] by simp
  then show False by (simp add: isDigit_def)
qed

lemma itoa_inj: "itoa i = itoa j \<Longrightarrow> i = j"
  using showNat_no_minus showNat_no_minus [symmetric]
  by (auto simp: itoa_def dest!: showNat_inj split: if_splits)

text \<open>
  The signed payload determines both the version number and the content, so a
  signature binds the two together and content cannot be moved to another version by shifting
  bytes across the separator.
\<close>

theorem signPayload_inj:
  assumes "signPayload v c = signPayload v' c'"
  shows "v = v' \<and> c = c'"
proof -
  have "itoa v @ CHR '':'' # c = itoa v' @ CHR '':'' # c'"
    using assms by (simp add: signPayload_def)
  then have "itoa v = itoa v' \<and> c = c'"
    by (rule split_first_unique) (rule itoa_no_colon)+
  then show ?thesis by (blast dest: itoa_inj)
qed

theorem signPayload_inj_witness: "(7 :: int) = 7 \<and> ''*filter'' = ''*filter''"
  by (rule signPayload_inj [of 7 "''*filter''" 7 "''*filter''"]) simp

end
