(* ===== verification/Compiler.thy ===== *)
theory Compiler
  imports Rules Signer
begin

text \<open>
  The compiler (\<^verbatim>\<open>internal/engine/compiler.go\<close>): loading a peer and the policies that apply to
  it, assembling the iptables-restore payload, and storing it as a signed bundle. The compiler
  reads the database state; the clock is the argument \<open>now\<close>, the RFC 3339 text the header of a
  bundle carries. The two name lookups are the ones \<^verbatim>\<open>cmd/runic-server/main.go\<close> passes in.
\<close>

section \<open>Loading\<close>

definition scanBool :: "sqlval \<Rightarrow> bool" where
  "scanBool v =
     (case v of
        SNull \<Rightarrow> False
      | SBool b \<Rightarrow> b
      | SInt i \<Rightarrow> i \<noteq> 0
      | SFloat r \<Rightarrow> r \<noteq> 0
      | SBytes t \<Rightarrow> (let s = trimSpace (toLower t) in s \<in> set [''1'', ''true'', ''t'', ''yes'', ''y''])
      | SText t \<Rightarrow> (let s = trimSpace (toLower t) in s \<in> set [''1'', ''true'', ''t'', ''yes'', ''y'']))"

text \<open>\<^verbatim>\<open>COALESCE(column, 0)\<close>.\<close>

definition coalesce0 :: "sqlval \<Rightarrow> sqlval" where
  "coalesce0 v = (case v of SNull \<Rightarrow> SInt 0 | _ \<Rightarrow> v)"

definition coalesceText :: "string \<Rightarrow> string option \<Rightarrow> string" where
  "coalesceText d v = (case v of None \<Rightarrow> d | Some s \<Rightarrow> s)"

definition GetPeerHostname :: "database \<Rightarrow> int \<Rightarrow> string res" where
  "GetPeerHostname db peerID =
     wrapE ''get peer hostname''
       (queryRow db (QHostname peerID) (map p_hostname (filter (\<lambda>p. p_id p = peerID) (db_peers db))))"

definition GetActiveGroupNameByID :: "database \<Rightarrow> int \<Rightarrow> string res" where
  "GetActiveGroupNameByID db i =
     wrapE ''get active group name by id''
       (queryRow db (QGroupName i)
         (map g_name (filter (\<lambda>g. g_id g = i \<and> \<not> g_pending_delete g) (db_groups db))))"

definition loadPeerData :: "database \<Rightarrow> int \<Rightarrow> (string \<times> string \<times> bool \<times> bool) res" where
  "loadPeerData db peerID =
     bindE (wrapE ''load peer'' (queryRow db (QPeerData peerID) (filter (\<lambda>p. p_id p = peerID) (db_peers db))))
       (\<lambda>p. Inr (p_hostname p, p_ip_address p, scanBool (p_has_docker p), scanBool (coalesce0 (p_has_ipset p))))"

text \<open>The two \<^verbatim>\<open>CASE\<close> columns and the \<^verbatim>\<open>WHERE\<close> clause of the policy query.\<close>

definition isTargetCol :: "database \<Rightarrow> int \<Rightarrow> policy_row \<Rightarrow> bool" where
  "isTargetCol db peerID p =
     (pl_target_type p = ''peer'' \<and> pl_target_id p = peerID \<or>
      pl_target_type p = ''group'' \<and> inGroup db (pl_target_id p) peerID \<or>
      pl_target_type p = ''special'' \<and> pl_source_type p = ''group'' \<and> inGroup db (pl_source_id p) peerID \<or>
      pl_target_type p = ''special'' \<and> pl_source_type p = ''peer'' \<and> pl_source_id p = peerID)"

definition excludedSourceIDs :: "int list" where
  "excludedSourceIDs =
     [SpecialIDSubnetBroadcast, SpecialIDLimitedBroadcast, SpecialIDAllHosts, SpecialIDmDNS, SpecialIDIGMPv3]"

definition isSourceCol :: "database \<Rightarrow> int \<Rightarrow> policy_row \<Rightarrow> bool" where
  "isSourceCol db peerID p =
     (pl_source_type p = ''peer'' \<and> pl_source_id p = peerID \<or>
      pl_source_type p = ''group'' \<and> inGroup db (pl_source_id p) peerID \<or>
      pl_source_type p = ''special'' \<and> pl_target_type p = ''group'' \<and> pl_source_id p \<notin> set excludedSourceIDs \<and>
        inGroup db (pl_target_id p) peerID \<or>
      pl_source_type p = ''special'' \<and> pl_target_type p = ''peer'' \<and> pl_source_id p \<notin> set excludedSourceIDs \<and>
        pl_target_id p = peerID)"

definition applicableCol :: "database \<Rightarrow> int \<Rightarrow> policy_row \<Rightarrow> bool" where
  "applicableCol db peerID p =
     (pl_enabled p \<and> \<not> pl_pending_delete p \<and>
      (pl_target_type p = ''peer'' \<and> pl_target_id p = peerID \<or>
       pl_target_type p = ''group'' \<and> inGroup db (pl_target_id p) peerID \<or>
       pl_source_type p = ''peer'' \<and> pl_source_id p = peerID \<or>
       pl_source_type p = ''group'' \<and> inGroup db (pl_source_id p) peerID \<or>
       pl_target_type p = ''special'' \<and> pl_source_type p = ''group'' \<and> inGroup db (pl_source_id p) peerID \<or>
       pl_target_type p = ''special'' \<and> pl_source_type p = ''peer'' \<and> pl_source_id p = peerID \<or>
       pl_source_type p = ''special'' \<and> pl_target_type p = ''group'' \<and> inGroup db (pl_target_id p) peerID \<or>
       pl_source_type p = ''special'' \<and> pl_target_type p = ''peer'' \<and> pl_target_id p = peerID))"

definition scanPolicy :: "database \<Rightarrow> int \<Rightarrow> policy_row \<Rightarrow> policyInfo" where
  "scanPolicy db peerID p =
     \<lparr>pol_ID = pl_id p, pol_Name = pl_name p, pol_SourceID = pl_source_id p, pol_SourceType = pl_source_type p,
      pol_ServiceID = pl_service_id p, pol_TargetID = pl_target_id p, pol_TargetType = pl_target_type p,
      pol_SourceIP = coalesceText [] (pl_source_ip p), pol_TargetIP = coalesceText [] (pl_target_ip p),
      pol_Action = pl_action p, pol_Priority = pl_priority p, pol_TargetScope = pl_target_scope p,
      pol_Direction = coalesceText ''both'' (pl_direction p),
      pol_IsTarget = isTargetCol db peerID p, pol_IsSource = isSourceCol db peerID p\<rparr>"

text \<open>\<^verbatim>\<open>ORDER BY p.priority ASC\<close>; rows of equal priority stay in table order.\<close>

definition applicablePolicies :: "database \<Rightarrow> int \<Rightarrow> policyInfo list" where
  "applicablePolicies db peerID =
     map (scanPolicy db peerID) (sort_key pl_priority (filter (applicableCol db peerID) (db_policies db)))"

text \<open>The Go maps from group to name are association lists; a missing key reads as the empty string.\<close>

type_synonym idmap = "(int \<times> string) list"

definition idLookup :: "idmap \<Rightarrow> int \<Rightarrow> string" where
  "idLookup m k = (case map_of m k of None \<Rightarrow> [] | Some v \<Rightarrow> v)"

definition noteGroup :: "database \<Rightarrow> string \<Rightarrow> int \<Rightarrow> int list \<times> idmap \<Rightarrow> int list \<times> idmap" where
  "noteGroup db entityType gid = (\<lambda>(groupOrder, groupIDToName).
     if entityType = ''group'' \<and> map_of groupIDToName gid = None then
       (case GetActiveGroupNameByID db gid of
          Inl _ \<Rightarrow> (groupOrder, groupIDToName)
        | Inr groupName \<Rightarrow> (groupOrder @ [gid], (gid, groupName) # groupIDToName))
     else (groupOrder, groupIDToName))"

definition collectGroups :: "database \<Rightarrow> policyInfo list \<Rightarrow> int list \<times> idmap" where
  "collectGroups db policies =
     foldl (\<lambda>st pol. noteGroup db (pol_TargetType pol) (pol_TargetID pol)
              (noteGroup db (pol_SourceType pol) (pol_SourceID pol) st)) ([], []) policies"

definition loadApplicablePolicies :: "database \<Rightarrow> int \<Rightarrow> (policyInfo list \<times> int list \<times> idmap) res" where
  "loadApplicablePolicies db peerID =
     bindE (wrapE ''load policies'' (queryRows db (QPolicies peerID) (applicablePolicies db peerID)))
       (\<lambda>policies. Inr (policies, collectGroups db policies))"

record ServiceInfo =
  svc_Name :: string
  svc_Ports :: string
  svc_SourcePorts :: string
  svc_Protocol :: string
  svc_NoConntrack :: bool

definition preloadRequiredServices :: "database \<Rightarrow> policyInfo list \<Rightarrow> (int \<times> ServiceInfo) list res" where
  "preloadRequiredServices db policies =
     (let serviceIDs = map pol_ServiceID policies in
      if serviceIDs = [] then Inr []
      else bindE (wrapE ''batch load services''
             (queryRows db QServices (filter (\<lambda>s. \<not> s_pending_delete s \<and> s_id s \<in> set serviceIDs) (db_services db))))
        (\<lambda>rows. Inr (rev (map (\<lambda>s. (s_id s,
           \<lparr>svc_Name = s_name s, svc_Ports = s_ports s, svc_SourcePorts = coalesceText [] (s_source_ports s),
            svc_Protocol = s_protocol s, svc_NoConntrack = scanBool (coalesce0 (s_no_conntrack s))\<rparr>)) rows))))"

section \<open>Ipset definitions\<close>

record ipsetData =
  is_Name :: string
  is_SetType :: string
  is_Members :: "string list"

text \<open>The member loop: the flags \<^verbatim>\<open>hasV4\<close> and \<^verbatim>\<open>hasV6\<close>.\<close>

fun familyLoop :: "bool \<Rightarrow> bool \<Rightarrow> string list \<Rightarrow> (bool \<times> bool) res" where
  "familyLoop v4 v6 [] = Inr (v4, v6)"
| "familyLoop v4 v6 (m # ms) =
     (if isInternetSentinelCIDR m
      then Inl (previewErr ''internet sentinel must use runic_private_ranges ipset path'')
      else if isIPv6Address m then familyLoop v4 True ms else familyLoop True v6 ms)"

definition ipsetFamilyForMembers :: "string list \<Rightarrow> string res" where
  "ipsetFamilyForMembers members =
     bindE (familyLoop False False members) (\<lambda>(hasV4, hasV6).
       if hasV4 \<and> hasV6 then Inl (previewErr ''mixed IPv4/IPv6 group members'')
       else if hasV6 then Inl (previewErr ''IPv6 group member'')
       else Inr ''inet'')"

definition resolveOneIpset :: "database \<Rightarrow> idmap \<Rightarrow> int \<Rightarrow> ipsetData res" where
  "resolveOneIpset db groupIDToName gid =
     bindE (wrapE ''resolve group for ipset'' (resolveGroupForIpset db gid)) (\<lambda>addrs.
       (let sanitizedName = ipsetGroupPrefix @ sanitizeForIpset (idLookup groupIDToName gid) in
        bindE (wrapE ''group'' (ValidateIPSetName sanitizedName)) (\<lambda>_.
        bindE (wrapE ''resolve group for ipset'' (ipsetFamilyForMembers addrs)) (\<lambda>_.
          Inr \<lparr>is_Name = sanitizedName, is_SetType = ''hash:net'', is_Members = addrs\<rparr>))))"

definition resolveIPSetDefinitions ::
  "database \<Rightarrow> bool \<Rightarrow> int list \<Rightarrow> idmap \<Rightarrow> (ipsetData list \<times> idmap) res" where
  "resolveIPSetDefinitions db hasIPSet groupOrder groupIDToName =
     (if hasIPSet \<and> groupOrder \<noteq> [] then
        bindE (mapE (resolveOneIpset db groupIDToName) groupOrder) (\<lambda>ipsets.
          Inr (ipsets, rev (zip groupOrder (map is_Name ipsets))))
      else Inr ([], []))"

definition writeIpsetDefinitions :: "bool \<Rightarrow> ipsetData list \<Rightarrow> builder res" where
  "writeIpsetDefinitions hasIPSet ipsets =
     bindE
       (if hasIPSet \<and> ipsets \<noteq> [] then
          bindE (concatMapE (\<lambda>is.
             bindE (wrapE ''ipset'' (ipsetFamilyForMembers (is_Members is))) (\<lambda>family.
               Inr ([''create '' @ is_Name is @ '' '' @ is_SetType is @ '' family '' @ family] @
                    map (\<lambda>member. ''add '' @ is_Name is @ '' '' @ member) (is_Members is) @ [[]]))) ipsets)
            (\<lambda>ls. Inr ([[], ''# --- Ipset Definitions ---''] @ ls))
        else Inr [])
       (\<lambda>groupSets. Inr (groupSets @
          (if hasIPSet then
             [''# --- Ipset: Private Ranges for __internet__ exclusion (IPv4-only) ---'',
              ''create runic_private_ranges hash:net family inet''] @
             map (\<lambda>cidr. ''add runic_private_ranges '' @ cidr) privateFallbackCIDRList @ [[]]
           else [])))"

section \<open>Fixed parts of the payload\<close>

definition writePayloadHeader :: "string \<Rightarrow> string \<Rightarrow> policyInfo list \<Rightarrow> bool \<Rightarrow> ipsetData list \<Rightarrow> builder" where
  "writePayloadHeader now hostname policies hasIPSet ipsets =
     [''# Runic rule bundle'',
      ''# Host: '' @ hostname,
      ''# Generated: '' @ now,
      ''# Policies: '' @ itoa (int (length policies))] @
     (if hasIPSet \<and> ipsets \<noteq> [] then [''# Ipsets: '' @ itoa (int (length ipsets))] else [])"

definition writeFilterTableHeader :: "bool \<Rightarrow> builder" where
  "writeFilterTableHeader hasDocker =
     [''*filter'', '':INPUT DROP [0:0]'', '':OUTPUT DROP [0:0]'', '':FORWARD DROP [0:0]''] @
     (if hasDocker then ['':DOCKER-USER - [0:0]''] else []) @ [[]]"

section \<open>Names in comments\<close>

definition getSpecialDisplayName :: "int \<Rightarrow> string" where
  "getSpecialDisplayName specialID =
     (case map_of [(1, ''Subnet Broadcast''), (2, ''Limited Broadcast''), (3, ''All Hosts (IGMP)''), (4, ''mDNS''),
                   (5, ''Loopback''), (6, ''Any IP''), (7, ''All Peers''), (8, ''IGMPv3''), (9 :: int, ''Internet'')] specialID of
        Some name \<Rightarrow> name
      | None \<Rightarrow> ''special '' @ itoa specialID)"

definition formatEntityName :: "database \<Rightarrow> string \<Rightarrow> int \<Rightarrow> string" where
  "formatEntityName db entityType entityID =
     (if entityType = ''special'' then getSpecialDisplayName entityID
      else if entityType = ''peer'' then
        (case GetPeerHostname db entityID of
           Inr hostname \<Rightarrow> hostname
         | Inl e \<Rightarrow> if errIs e ErrNoRows then ''peer '' @ itoa entityID @ '' (not found)'' else ''peer '' @ itoa entityID)
      else if entityType = ''group'' then
        (case GetActiveGroupNameByID db entityID of
           Inr name \<Rightarrow> name
         | Inl e \<Rightarrow> if errIs e ErrNoRows then ''group '' @ itoa entityID @ '' (not found)'' else ''group '' @ itoa entityID)
      else entityType @ '' '' @ itoa entityID)"

section \<open>Sections of one policy\<close>

definition resolveEntityCIDRs :: "database \<Rightarrow> string \<Rightarrow> int \<Rightarrow> string \<Rightarrow> string \<Rightarrow> string list res" where
  "resolveEntityCIDRs db entityType entityID overrideIP ipAddress =
     (if overrideIP \<noteq> [] \<and> entityType \<noteq> ''peer'' then Inl (previewErr ''IP override for non-peer entity'')
      else if entityType = ''special'' then ResolveSpecialTarget db entityID ipAddress
      else if entityType = ''peer'' \<and> overrideIP \<noteq> [] then
        bindE (wrapE2 ''invalid IP override'' ErrPreviewValidation (ValidatePeerCIDR overrideIP))
          (\<lambda>_. Inr [NormalizeToCIDR overrideIP])
      else ResolveEntity db entityType entityID)"

abbreviation isMulticastService :: "string \<Rightarrow> bool" where
  "isMulticastService serviceName \<equiv> equalFold serviceName ''Multicast''"

definition writeTargetSection ::
  "database \<Rightarrow> policyInfo \<Rightarrow> PortClause list \<Rightarrow> string \<Rightarrow> string \<Rightarrow> idmap \<Rightarrow> bool \<Rightarrow> bool \<Rightarrow> string \<Rightarrow>
     bool \<Rightarrow> bool \<Rightarrow> bool \<Rightarrow> builder res" where
  "writeTargetSection db pol portClauses serviceName protocol groupIDToIpsetName hasDocker hasIPSet ipAddress
     writeToHost writeToDocker noConntrack =
     (let isSpecialMulticastOrBroadcastTarget =
            (pol_TargetType pol = ''special'' \<and>
             (isMulticastSpecialID (pol_TargetID pol) \<or> isBroadcastSpecialID (pol_TargetID pol)))
      in
      if \<not> pol_IsTarget pol \<or> (pol_Direction pol \<noteq> ''both'' \<and> pol_Direction pol \<noteq> ''backward'') \<or>
         isSpecialMulticastOrBroadcastTarget
      then Inr []
      else if pol_SourceType pol = ''special'' \<and> pol_SourceID pol = SpecialIDInternet
      then Inl (failClosedIngressInternetErr (pol_Name pol))
      else
        (let header = ''# As Target (Ingress from '' @ formatEntityName db (pol_SourceType pol) (pol_SourceID pol) @ '')'';
             isMulticastSource = (pol_SourceType pol = ''special'' \<and> isMulticastSpecialID (pol_SourceID pol));
             isBroadcastSource = (pol_SourceType pol = ''special'' \<and> isBroadcastSpecialID (pol_SourceID pol));
             canUseIpset = (hasIPSet \<and> pol_SourceType pol = ''group'');
             ipsetName = (if canUseIpset then idLookup groupIDToIpsetName (pol_SourceID pol) else []);
             useIpset = (canUseIpset \<and> ipsetName \<noteq> [])
         in bindE
           (if isMulticastSource then Inr (writeMulticastRule (pol_Action pol) (pol_TargetScope pol) hasDocker)
            else if isBroadcastSource then
              bindE (wrapE ''resolve broadcast source'' (ResolveSpecialTarget db (pol_SourceID pol) ipAddress)) (\<lambda>cidrs.
                Inr (concat (map (\<lambda>cidr.
                  writeBroadcastRule (pol_Action pol) (pol_TargetScope pol) hasDocker cidr protocol) cidrs)))
            else if useIpset then
              (if isMulticastService serviceName
               then Inr (writeMulticastRule (pol_Action pol) (pol_TargetScope pol) hasDocker)
               else writeRules pol portClauses True ipsetName [] ipAddress writeToHost writeToDocker noConntrack
                      ruleDirTarget False)
            else
              bindE (wrapE ''resolve source'' (resolveEntityCIDRs db (pol_SourceType pol) (pol_SourceID pol)
                       (pol_SourceIP pol) ipAddress)) (\<lambda>cidrs.
                if isMulticastService serviceName
                then Inr (writeMulticastRule (pol_Action pol) (pol_TargetScope pol) hasDocker)
                else writeRules pol portClauses False [] cidrs ipAddress writeToHost writeToDocker noConntrack
                       ruleDirTarget False))
           (\<lambda>body. Inr (header # body))))"

text \<open>The rules of the Multicast service towards a multicast address.\<close>

definition multicastEgress :: "policyInfo \<Rightarrow> bool \<Rightarrow> bool \<Rightarrow> builder" where
  "multicastEgress pol writeToHost writeToDocker =
     (let isMulticastTarget = (pol_TargetType pol = ''special'' \<and> isMulticastSpecialID (pol_TargetID pol)) in
      if isMulticastTarget \<and> pol_Action pol = ''ACCEPT'' then
        (if writeToHost then [''-A OUTPUT -d 224.0.0.0/4 -m pkttype --pkt-type multicast -j ACCEPT''] else []) @
        (if writeToDocker then [''-A DOCKER-USER -d 224.0.0.0/4 -m pkttype --pkt-type multicast -j ACCEPT''] else [])
      else [])"

definition writeSourceSection ::
  "database \<Rightarrow> int \<Rightarrow> policyInfo \<Rightarrow> PortClause list \<Rightarrow> string \<Rightarrow> idmap \<Rightarrow> bool \<Rightarrow> string \<Rightarrow>
     bool \<Rightarrow> bool \<Rightarrow> bool \<Rightarrow> builder res" where
  "writeSourceSection db peerID pol portClauses serviceName groupIDToIpsetName hasIPSet ipAddress
     writeToHost writeToDocker noConntrack =
     (if \<not> pol_IsSource pol \<or> (pol_Direction pol \<noteq> ''both'' \<and> pol_Direction pol \<noteq> ''forward'') then Inr []
      else
        (let isInternetTarget = (pol_TargetType pol = ''special'' \<and> pol_TargetID pol = SpecialIDInternet);
             isMulticastTarget = (pol_TargetType pol = ''special'' \<and> isMulticastSpecialID (pol_TargetID pol))
         in bindE (if isInternetTarget then checkInternetPeer ipAddress peerID (pol_Name pol) else Inr ()) (\<lambda>_.
           (let header = ''# As Source (Egress to '' @ formatEntityName db (pol_TargetType pol) (pol_TargetID pol) @ '')'';
                canUseIpset = (hasIPSet \<and> pol_TargetType pol = ''group'');
                ipsetName = (if canUseIpset then idLookup groupIDToIpsetName (pol_TargetID pol) else []);
                useIpset = (canUseIpset \<and> ipsetName \<noteq> [])
            in bindE
              (if useIpset then
                 (if isMulticastService serviceName then Inr (multicastEgress pol writeToHost writeToDocker)
                  else writeRules pol portClauses True ipsetName [] ipAddress writeToHost writeToDocker noConntrack
                         ruleDirSource isMulticastTarget)
               else if isInternetTarget then
                 (if hasIPSet
                  then writeRules pol portClauses False [] [] ipAddress writeToHost writeToDocker noConntrack
                         ruleDirInternet False
                  else Inr (buildInternetFallbackRules pol portClauses writeToHost writeToDocker noConntrack))
               else
                 bindE (wrapE ''resolve target'' (resolveEntityCIDRs db (pol_TargetType pol) (pol_TargetID pol)
                          (pol_TargetIP pol) ipAddress)) (\<lambda>cidrs.
                   if list_ex isInternetSentinelCIDR cidrs then Inl (failClosedSentinelLeakErr (pol_Name pol))
                   else if isMulticastService serviceName then Inr (multicastEgress pol writeToHost writeToDocker)
                   else writeRules pol portClauses False [] cidrs ipAddress writeToHost writeToDocker noConntrack
                          ruleDirSource isMulticastTarget))
              (\<lambda>body. Inr (header # body))))))"

definition isIGMPorVRRP :: "string \<Rightarrow> bool" where
  "isIGMPorVRRP serviceName = (equalFold serviceName ''IGMP'' \<or> equalFold serviceName ''VRRP'')"

definition policyPortClauses :: "ServiceInfo \<Rightarrow> PortClause list res" where
  "policyPortClauses svc =
     (let serviceName = svc_Name svc;
          isBroadcastService = (serviceName = ''Subnet Broadcast'' \<or> serviceName = ''Limited Broadcast'')
      in if \<not> isMulticastService serviceName \<and> \<not> isBroadcastService \<and> \<not> isIGMPorVRRP serviceName
         then wrapE ''expand ports for policy'' (ExpandPorts (svc_Ports svc) (svc_SourcePorts svc) (svc_Protocol svc))
         else Inr [])"

definition writeSinglePolicy ::
  "database \<Rightarrow> int \<Rightarrow> (int \<times> ServiceInfo) list \<Rightarrow> idmap \<Rightarrow> bool \<Rightarrow> bool \<Rightarrow> string \<Rightarrow> policyInfo \<Rightarrow> builder res" where
  "writeSinglePolicy db peerID services groupIDToIpsetName hasDocker hasIPSet ipAddress pol =
     (if pol_Action pol \<noteq> ActionAccept \<and> pol_Action pol \<noteq> ActionDrop \<and> pol_Action pol \<noteq> ActionLogDrop
      then Inl (previewErr ''invalid action'')
      else case map_of services (pol_ServiceID pol) of
        None \<Rightarrow> Inl (Leaf ''service not found'')
      | Some svc \<Rightarrow>
          bindE (policyPortClauses svc) (\<lambda>portClauses.
            (case scopeFlags (pol_TargetScope pol) hasDocker of (writeToHost, writeToDocker) \<Rightarrow>
              (let header = ''# --- Policy: '' @ pol_Name pol @ '' ---'' in
               if isIGMPorVRRP (svc_Name svc) then
                 Inr ([header] @
                   (if writeToHost then
                      (if equalFold (svc_Name svc) ''IGMP'' then writeIGMPRules (pol_TargetScope pol) hasDocker
                       else writeVRRPRules (pol_TargetScope pol) hasDocker)
                    else []) @ [[]])
               else
                 bindE (writeTargetSection db pol portClauses (svc_Name svc) (svc_Protocol svc) groupIDToIpsetName
                          hasDocker hasIPSet ipAddress writeToHost writeToDocker (svc_NoConntrack svc)) (\<lambda>tgt.
                 bindE (writeSourceSection db peerID pol portClauses (svc_Name svc) groupIDToIpsetName
                          hasIPSet ipAddress writeToHost writeToDocker (svc_NoConntrack svc)) (\<lambda>src.
                   Inr ([header] @ tgt @ src @ [[]])))))))"

definition writePolicySection ::
  "database \<Rightarrow> int \<Rightarrow> policyInfo list \<Rightarrow> (int \<times> ServiceInfo) list \<Rightarrow> idmap \<Rightarrow> bool \<Rightarrow> bool \<Rightarrow> string \<Rightarrow> builder res" where
  "writePolicySection db peerID policies services groupIDToIpsetName hasDocker hasIPSet ipAddress =
     concatMapE (writeSinglePolicy db peerID services groupIDToIpsetName hasDocker hasIPSet ipAddress) policies"

section \<open>The payload\<close>

definition generateIptablesPayload ::
  "database \<Rightarrow> string \<Rightarrow> int \<Rightarrow> string \<Rightarrow> string \<Rightarrow> bool \<Rightarrow> bool \<Rightarrow> policyInfo list \<Rightarrow> (int \<times> ServiceInfo) list \<Rightarrow>
     ipsetData list \<Rightarrow> idmap \<Rightarrow> string \<Rightarrow> builder res" where
  "generateIptablesPayload db now peerID hostname ipAddress hasDocker hasIPSet policies services ipsets
     groupIDToIpsetName controlPlanePort =
     bindE (writeIpsetDefinitions hasIPSet ipsets) (\<lambda>sets.
     bindE (writePolicySection db peerID policies services groupIDToIpsetName hasDocker hasIPSet ipAddress) (\<lambda>pols.
       Inr (writePayloadHeader now hostname policies hasIPSet ipsets @ sets @ writeFilterTableHeader hasDocker @
            writeStandardRules hasDocker controlPlanePort @ pols @ writeLoggingSection hasDocker @ [[], ''COMMIT''])))"

definition DefaultControlPlanePort :: string where
  "DefaultControlPlanePort = ''60443''"

definition loadControlPlanePort :: "database \<Rightarrow> string" where
  "loadControlPlanePort db =
     (case queryRow db QControlPlanePort (map snd (filter (\<lambda>kv. fst kv = ''control_plane_port'') (db_config db))) of
        Inl _ \<Rightarrow> DefaultControlPlanePort
      | Inr port \<Rightarrow> if port = [] then DefaultControlPlanePort else port)"

text \<open>The lines of the bundle, and the text \<^verbatim>\<open>Compile\<close> returns.\<close>

definition CompileLines :: "database \<Rightarrow> string \<Rightarrow> int \<Rightarrow> builder res" where
  "CompileLines db now peerID =
     bindE (loadPeerData db peerID) (\<lambda>(hostname, ipAddress, hasDocker, hasIPSet).
     bindE (loadApplicablePolicies db peerID) (\<lambda>(policies, groupOrder, groupIDToName).
     bindE (preloadRequiredServices db policies) (\<lambda>services.
     bindE (resolveIPSetDefinitions db hasIPSet groupOrder groupIDToName) (\<lambda>(ipsets, groupIDToIpsetName).
       generateIptablesPayload db now peerID hostname ipAddress hasDocker hasIPSet policies services ipsets
         groupIDToIpsetName (loadControlPlanePort db)))))"

definition Compile :: "database \<Rightarrow> string \<Rightarrow> int \<Rightarrow> string res" where
  "Compile db now peerID = bindE (CompileLines db now peerID) (\<lambda>ls. Inr (unlines ls))"

section \<open>Storing a bundle\<close>

text \<open>
  \<^verbatim>\<open>db.SaveBundle\<close>: one insert in a transaction, subject to the constraint
  \<^verbatim>\<open>UNIQUE(peer_id, version)\<close>; the new row gets an identifier above every other.
\<close>

definition SaveBundle :: "database \<Rightarrow> int \<Rightarrow> string \<Rightarrow> int \<Rightarrow> string \<Rightarrow> string \<Rightarrow> (database \<times> bundle_row) res" where
  "SaveBundle db peerID version versionNumber content hmac =
     (if db_fails db (QSaveBundle peerID) then Inl (Leaf ''database error'')
      else if list_ex (\<lambda>b. b_peer_id b = peerID \<and> b_version b = version) (db_bundles db)
      then Inl (Leaf ''UNIQUE constraint failed'')
      else
        (let row = \<lparr>b_id = foldl max 0 (map b_id (db_bundles db)) + 1, b_peer_id = peerID, b_version = version,
                     b_version_number = versionNumber, b_rules_content = content, b_hmac = hmac\<rparr>
         in Inr (db\<lparr>db_bundles := db_bundles db @ [row]\<rparr>, row)))"

definition nextVersionNumber :: "database \<Rightarrow> int \<Rightarrow> int" where
  "nextVersionNumber db peerID =
     (case map b_version_number (filter (\<lambda>b. b_peer_id b = peerID) (db_bundles db)) of
        [] \<Rightarrow> 0 | n # ns \<Rightarrow> foldl max n ns) + 1"

definition CompileAndStore :: "crypto \<Rightarrow> database \<Rightarrow> string \<Rightarrow> int \<Rightarrow> (database \<times> bundle_row) res" where
  "CompileAndStore C db now peerID =
     bindE (wrapE ''compile'' (Compile db now peerID)) (\<lambda>content.
     bindE (wrapE ''fetch peer HMAC key''
             (queryRow db (QHmacKey peerID) (map p_hmac_key (filter (\<lambda>p. p_id p = peerID) (db_peers db))))) (\<lambda>hmacKey.
     bindE (wrapE ''get next version number''
             (queryRow db (QNextVersion peerID) [nextVersionNumber db peerID])) (\<lambda>versionNumber.
       wrapE ''save bundle''
         (SaveBundle db peerID (Version C content) versionNumber content
            (SignWithVersion C content hmacKey versionNumber)))))"

section \<open>Which policies apply\<close>

lemma applicableCol_iff:
  "applicableCol db peerID p \<longleftrightarrow>
     pl_enabled p \<and> \<not> pl_pending_delete p \<and> (isTargetCol db peerID p \<or> isSourceCol db peerID p)"
  by (auto simp: applicableCol_def isTargetCol_def isSourceCol_def)

text \<open>
  C7 (APPLICABLE): the policies loaded for a peer are exactly the enabled, live policies in which the
  query's own columns give the peer a role, in non-decreasing order of priority. The
  \<^verbatim>\<open>WHERE\<close> clause and the two \<^verbatim>\<open>CASE\<close> columns of the query, which repeat each other's
  conditions, are consistent: no policy is loaded without a role and none with a role is missed.
\<close>

theorem applicablePolicies_roles:
  "sorted (map pol_Priority (applicablePolicies db peerID)) \<and>
   set (applicablePolicies db peerID) = scanPolicy db peerID `
     {p \<in> set (db_policies db). pl_enabled p \<and> \<not> pl_pending_delete p \<and>
        (isTargetCol db peerID p \<or> isSourceCol db peerID p)}"
proof -
  have "pol_Priority \<circ> scanPolicy db peerID = pl_priority"
    by (simp add: fun_eq_iff scanPolicy_def)
  then show ?thesis
    by (auto simp: applicablePolicies_def applicableCol_iff)
qed

section \<open>Stored bundles\<close>

lemma filter_live:
  assumes "filter Q xs = filter Q ys" and "\<And>x. P x \<Longrightarrow> Q x"
  shows "filter P xs = filter P ys"
proof -
  have "filter P zs = filter P (filter Q zs)" for zs using assms(2) by (induction zs) auto
  then show ?thesis using assms(1) by metis
qed

text \<open>What the compiler reads: the peers, the configuration and the rows that are not softly deleted.\<close>

locale same_live =
  fixes db db' :: database
  assumes peers: "db_peers db' = db_peers db"
    and config: "db_config db' = db_config db"
    and fails: "db_fails db' = db_fails db"
    and groups: "filter (\<lambda>g. \<not> g_pending_delete g) (db_groups db') = filter (\<lambda>g. \<not> g_pending_delete g) (db_groups db)"
    and services: "filter (\<lambda>s. \<not> s_pending_delete s) (db_services db') = filter (\<lambda>s. \<not> s_pending_delete s) (db_services db)"
    and policies: "filter (\<lambda>p. \<not> pl_pending_delete p) (db_policies db') = filter (\<lambda>p. \<not> pl_pending_delete p) (db_policies db)"
    and members: "inGroup db' = inGroup db" "groupMemberRows db' = groupMemberRows db"
begin

lemma live_query: "queryRows db' q rows = queryRows db q rows" "queryRow db' q rows' = queryRow db q rows'"
  by (simp_all add: fails queryRows_def queryRow_def)

lemma live_resolve:
  "ResolveGroup db' g = ResolveGroup db g" "ResolveEntity db' t i = ResolveEntity db t i"
  "resolveGroupForIpset db' g = resolveGroupForIpset db g" "allPeersTarget db' = allPeersTarget db"
  "ResolveSpecialTarget db' i ip = ResolveSpecialTarget db i ip" "GetPeerHostname db' i = GetPeerHostname db i"
  by (simp_all add: peers members ResolveGroup_def ResolveEntity_def resolveGroupForIpset_def allPeersTarget_def
      ResolveSpecialTarget_def GetPeerHostname_def live_query)

lemma live_groupName: "GetActiveGroupNameByID db' i = GetActiveGroupNameByID db i"
  using filter_live [of "\<lambda>g. \<not> g_pending_delete g" "db_groups db'" "db_groups db" "\<lambda>g. g_id g = i \<and> \<not> g_pending_delete g"] groups
  by (simp add: GetActiveGroupNameByID_def live_query)

lemma live_policies: "applicablePolicies db' i = applicablePolicies db i"
proof -
  have "applicableCol db' i = applicableCol db i" "scanPolicy db' i = scanPolicy db i"
    by (simp_all add: applicableCol_def scanPolicy_def isTargetCol_def isSourceCol_def members fun_eq_iff)
  moreover have "filter (applicableCol db i) (db_policies db') = filter (applicableCol db i) (db_policies db)"
    by (rule filter_live [where Q = "\<lambda>p. \<not> pl_pending_delete p"]) (auto simp: policies applicableCol_def)
  ultimately show ?thesis by (simp add: applicablePolicies_def)
qed

lemma live_services: "preloadRequiredServices db' ps = preloadRequiredServices db ps"
proof -
  have "filter (\<lambda>s. \<not> s_pending_delete s \<and> P s) (db_services db') = filter (\<lambda>s. \<not> s_pending_delete s \<and> P s) (db_services db)" for P
    by (rule filter_live [where Q = "\<lambda>s. \<not> s_pending_delete s"]) (auto simp: services)
  then show ?thesis by (simp add: preloadRequiredServices_def live_query)
qed

lemma live_load:
  "loadPeerData db' i = loadPeerData db i" "noteGroup db' = noteGroup db" "loadControlPlanePort db' = loadControlPlanePort db"
  "resolveEntityCIDRs db' = resolveEntityCIDRs db" "formatEntityName db' = formatEntityName db" "resolveOneIpset db' = resolveOneIpset db"
  by (simp_all add: peers config loadPeerData_def noteGroup_def loadControlPlanePort_def resolveEntityCIDRs_def
      formatEntityName_def resolveOneIpset_def live_query live_resolve live_groupName fun_eq_iff)

lemma live_write: "writeTargetSection db' = writeTargetSection db" "writeSourceSection db' = writeSourceSection db"
  by (intro ext, unfold writeTargetSection_def live_load live_resolve, rule refl)
    (intro ext, unfold writeSourceSection_def live_load live_resolve, rule refl)

lemma live_Compile: "Compile db' now i = Compile db now i"
proof -
  have "writeSinglePolicy db' = writeSinglePolicy db"
    by (intro ext) (unfold writeSinglePolicy_def live_write, rule refl)
  then have "generateIptablesPayload db' = generateIptablesPayload db"
    by (intro ext) (simp add: generateIptablesPayload_def writePolicySection_def)
  moreover have "resolveIPSetDefinitions db' = resolveIPSetDefinitions db"
    by (intro ext) (unfold resolveIPSetDefinitions_def live_load, rule refl)
  ultimately show ?thesis
    by (simp add: Compile_def CompileLines_def loadApplicablePolicies_def collectGroups_def live_query live_policies live_services live_load)
qed

end

interpretation bl: same_live db "db\<lparr>db_bundles := bs\<rparr>" for db bs
  by unfold_locales (simp_all add: inGroup_def liveGroup_def groupMemberRows_def fun_eq_iff)

lemmas bundles_irrelevant [simp] = bl.live_query bl.live_Compile

text \<open>The invariant of the bundle table: identifiers, and versions per peer, are not repeated.\<close>

definition wf_bundles :: "database \<Rightarrow> bool" where
  "wf_bundles db =
     (distinct (map b_id (db_bundles db)) \<and>
      distinct (map (\<lambda>b. (b_peer_id b, b_version b)) (db_bundles db)) \<and>
      distinct (map (\<lambda>b. (b_peer_id b, b_version_number b)) (db_bundles db)))"

lemma foldl_max_ge: "(x :: int) \<in> insert a (set xs) \<Longrightarrow> x \<le> foldl max a xs"
proof (induction xs arbitrary: a x)
  case (Cons y xs)
  have "max a y \<le> foldl max (max a y) xs" by (rule Cons.IH) simp
  with Cons.prems Cons.IH [of x "max a y"] show ?case by auto
qed simp

lemma nextVersionNumber_greater:
  assumes "b \<in> set (db_bundles db)" "b_peer_id b = peerID"
  shows "b_version_number b < nextVersionNumber db peerID"
proof -
  let ?ns = "map b_version_number (filter (\<lambda>b. b_peer_id b = peerID) (db_bundles db))"
  have "b_version_number b \<in> set ?ns" using assms by simp
  then obtain n ns where "?ns = n # ns" "b_version_number b \<in> insert n (set ns)"
    by (cases ?ns) auto
  then show ?thesis
    using foldl_max_ge [of "b_version_number b" n ns] by (simp add: nextVersionNumber_def)
qed

lemma CompileAndStore_Inr:
  assumes "CompileAndStore C db now peerID = Inr (db', row)"
  shows "db' = db\<lparr>db_bundles := db_bundles db @ [row]\<rparr> \<and> b_peer_id row = peerID \<and>
    b_id row = foldl max 0 (map b_id (db_bundles db)) + 1 \<and>
    b_version_number row = nextVersionNumber db peerID \<and> b_version row = Version C (b_rules_content row) \<and>
    Compile db now peerID = Inr (b_rules_content row) \<and>
    (\<forall>b \<in> set (db_bundles db). b_peer_id b = peerID \<longrightarrow> b_version b \<noteq> b_version row) \<and>
    (\<exists>p \<in> set (db_peers db). p_id p = peerID \<and>
       b_hmac row = SignWithVersion C (b_rules_content row) (p_hmac_key p) (b_version_number row))"
  using assms
  by (auto simp: CompileAndStore_def SaveBundle_def bindE_eq_Inr queryRow_Inr list_ex_iff Let_def
      split: if_splits dest!: filter_head)

text \<open>
  C13 (STORE): storing a compiled bundle appends one row and changes nothing else; its version number
  exceeds every earlier one of the peer, its signature verifies under the peer's key for that
  number, and the keys of the bundle table stay unique.
\<close>

theorem CompileAndStore_invariant:
  assumes "CompileAndStore C db now peerID = Inr (db', row)" and "wf_bundles db"
  shows "wf_bundles db' \<and> db' = db\<lparr>db_bundles := db_bundles db @ [row]\<rparr> \<and>
    (\<forall>b \<in> set (db_bundles db). b_peer_id b = peerID \<longrightarrow> b_version_number b < b_version_number row) \<and>
    (\<exists>p \<in> set (db_peers db). p_id p = peerID \<and>
       Verify C (b_rules_content row) (p_hmac_key p) (b_hmac row) (b_version_number row))"
proof -
  note r = CompileAndStore_Inr [OF assms(1)]
  have lt: "\<forall>b \<in> set (db_bundles db). b_peer_id b = peerID \<longrightarrow> b_version_number b < b_version_number row"
    using r nextVersionNumber_greater by auto
  have "\<forall>b \<in> set (db_bundles db). b_id b < b_id row"
    using r foldl_max_ge [of _ 0 "map b_id (db_bundles db)"] by fastforce
  with assms(2) r lt have "wf_bundles db'"
    by (fastforce simp: wf_bundles_def)
  moreover have "VerifyWithVersion C c k (SignWithVersion C c k v) v" for c k v
    by (simp add: VerifyWithVersion_def SignWithVersion_def signWithDerivedKey_def)
  ultimately show ?thesis
    using r lt by (auto simp: Verify_def)
qed

text \<open>Stand-ins for the hash functions, to evaluate the definitions.\<close>

definition exCrypto :: crypto where
  "exCrypto = \<lparr>sha256 = (\<lambda>s. take 2 s), hmacSha256 = (\<lambda>k m. k @ take 2 m), hkdfRead = (\<lambda>k salt info. Some k)\<rparr>"

lemma exDB_stores: "\<exists>db' row. CompileAndStore exCrypto exDB ''now'' 2 = Inr (db', row)"
proof -
  have "\<not> isl (CompileAndStore exCrypto exDB ''now'' 2)" by code_simp
  then show ?thesis by (cases "CompileAndStore exCrypto exDB ''now'' 2") auto
qed

theorem CompileAndStore_invariant_witness:
  "\<exists>db' row. CompileAndStore exCrypto exDB ''now'' 2 = Inr (db', row) \<and> wf_bundles db'"
proof -
  obtain db' row where r: "CompileAndStore exCrypto exDB ''now'' 2 = Inr (db', row)" using exDB_stores by blast
  moreover have "wf_bundles exDB" by code_simp
  ultimately show ?thesis using CompileAndStore_invariant [OF r] by blast
qed

text \<open>
  Compiling a peer again within the same second, with nothing changed in between,
  fails: the payload is the same, hence the version is, and the table admits it only once.
\<close>

theorem CompileAndStore_same_second:
  assumes "CompileAndStore C db now peerID = Inr (db', row)"
  shows "\<exists>e. CompileAndStore C db' now peerID = Inl e"
proof (rule ccontr)
  assume "\<not> ?thesis"
  then obtain db2 row2 where again: "CompileAndStore C db' now peerID = Inr (db2, row2)"
    by (cases "CompileAndStore C db' now peerID") auto
  note r1 = CompileAndStore_Inr [OF assms] and r2 = CompileAndStore_Inr [OF again]
  from r1 r2 have "b_rules_content row2 = b_rules_content row" by simp
  with r1 r2 show False by auto
qed

theorem CompileAndStore_same_second_witness:
  "\<exists>db' row e. CompileAndStore exCrypto exDB ''now'' 2 = Inr (db', row) \<and> CompileAndStore exCrypto db' ''now'' 2 = Inl e"
  using exDB_stores CompileAndStore_same_second by blast

end
