(* ===== verification/Bundle_Text.thy ===== *)
theory Bundle_Text
  imports Compiler
begin

text \<open>
  The text of a compiled bundle. A bundle is a file of lines; the values that end up in it are
  columns of the database. The theory shows that no such value can add a line of its own, that
  the default-deny rules come last in each chain, and that the two ends of a policy between two
  peers get rules that match each other.
\<close>

section \<open>Text without line breaks\<close>

definition oneLine :: "string \<Rightarrow> bool" where
  "oneLine s = (NL \<notin> set s)"

lemma oneLine_simps [simp]:
  "oneLine []" "oneLine (c # s) \<longleftrightarrow> c \<noteq> NL \<and> oneLine s" "oneLine (s @ t) \<longleftrightarrow> oneLine s \<and> oneLine t"
  by (auto simp: oneLine_def)

lemma oneLine_join: "oneLine sep \<Longrightarrow> list_all oneLine xs \<Longrightarrow> oneLine (join sep xs)"
  by (induction sep xs rule: join.induct) auto

lemma oneLine_joinRuleParts: "list_all oneLine xs \<Longrightarrow> oneLine (joinRuleParts xs)"
  by (auto simp: joinRuleParts_def list_all_iff intro!: oneLine_join)

lemma oneLine_cidrText: "cidrText c \<Longrightarrow> oneLine c"
  by (auto simp: cidrText_def oneLine_def list_all_iff cidrChar_def addrChar_def isHex_def dest!: bspec)

lemma set_replaceAll: "set (replaceAll s old new) \<subseteq> set s \<union> set new"
proof (induction s old new rule: replaceAll.induct)
  case (2 c s old new)
  then show ?case using set_drop_subset [of "length old" "c # s"] by (fastforce split: if_splits)
qed auto

lemma oneLine_replaceAll: "oneLine s \<Longrightarrow> oneLine new \<Longrightarrow> oneLine (replaceAll s old new)"
  using set_replaceAll by (fastforce simp: oneLine_def)

lemma oneLine_quoted [simp]: "oneLine (quoted (dropPrefixFor chain))"
  by (simp add: quoted_def dropPrefixFor_def)

lemma oneLine_digits: "list_all isDigit s \<Longrightarrow> oneLine s"
  by (auto simp: oneLine_def list_all_iff isDigit_def dest!: bspec)

lemma oneLine_itoa [simp]: "oneLine (itoa i)"
  by (simp add: itoa_def oneLine_digits)

lemma oneLine_sanitize [simp]: "oneLine (sanitizeForIpset name)"
proof -
  have "set (sanitizeForIpset name) \<subseteq> set (sanitizeLoop False (toLower name))"
    by (auto simp: sanitizeForIpset_def Let_def dest!: trimByte_subset in_set_takeD split: if_splits)
  then show ?thesis
    using sanitizeLoop_chars [of NL False "toLower name"] by (auto simp: oneLine_def isLower_def isDigit_def)
qed

section \<open>Rules are single lines\<close>

definition clauseOK :: "PortClause \<Rightarrow> bool" where
  "clauseOK pc = (oneLine (Protocol pc) \<and> oneLine (PortMatch pc) \<and> oneLine (SrcPortMatch pc))"

lemma ValidatePorts_oneLine: "ValidatePorts ports = Inr () \<Longrightarrow> oneLine ports"
  using portsReFrom_chars [of False ports NL]
  by (auto simp: ValidatePorts_def ValidPortsRe_def oneLine_def isDigit_def split: if_splits)

lemma ExpandPorts_clauseOK:
  "ExpandPorts d s p = Inr pcs \<Longrightarrow> oneLine p \<Longrightarrow> pc \<in> set pcs \<Longrightarrow> clauseOK pc"
  by (auto simp: ExpandPorts_def bindE_eq_Inr expandPortsSingle_def clauseOK_def Let_def
      dest!: ValidatePorts_oneLine split: if_splits)

lemma clauseOK_ports:
  "clauseOK pc \<Longrightarrow> oneLine (fst (splitPortMatches pc)) \<and> oneLine (snd (splitPortMatches pc))"
  by (auto simp: clauseOK_def splitPortMatches_def invertPortMatch_def Let_def intro!: oneLine_replaceAll)

lemma oneLine_conntrack [simp]: "oneLine (conntrackMatch b)"
  by (simp add: conntrackMatch_def)

lemma oneLine_private [simp]: "oneLine privateIpsetDstMatch" "oneLine privateIpsetSrcMatch"
    "oneLine (internetFallbackMatch ''-d'')" "oneLine (internetFallbackMatch ''-s'')"
  by (simp_all add: privateIpsetDstMatch_def privateIpsetSrcMatch_def internetFallbackMatch_def privateFallbackCIDRList_def)

lemma oneLine_logDropRule [simp]:
  "oneLine act \<Longrightarrow> oneLine chain \<Longrightarrow> oneLine m \<Longrightarrow> list_all oneLine (logDropRule act chain m)"
  by (simp add: logDropRule_def)

lemma okE_dirSwitch [okE_intros]: "list_all P t \<Longrightarrow> list_all P s \<Longrightarrow> okE P (dirSwitch dir t s)"
  by (simp add: dirSwitch_def okE_def)

lemma okE_whenE [okE_intros]: "okE P m \<Longrightarrow> okE P (whenE b m)"
  by (simp add: whenE_def okE_def)

lemma okE_filterSelf: "list_all P cidrs \<Longrightarrow> okE P (filterSelfReferencingCIDRs cidrs ip)"
  by (auto simp: okE_def filterSelf_Inr selfFiltered_def list_all_iff)

lemma acceptInternetRules_oneLine:
  "clauseOK pc \<Longrightarrow> oneLine (pol_Action pol) \<Longrightarrow> list_all oneLine (acceptInternetRules pol pc host docker noct)"
  using clauseOK_ports [of pc]
  by (auto simp: acceptInternetRules_def split_beta Let_def clauseOK_def intro!: oneLine_joinRuleParts)

lemma acceptIpsetRules_oneLine:
  "clauseOK pc \<Longrightarrow> oneLine (pol_Action pol) \<Longrightarrow> oneLine n \<Longrightarrow>
     okE oneLine (acceptIpsetRules pol pc n host docker noct dir)"
  using clauseOK_ports [of pc]
  by (auto simp: acceptIpsetRules_def split_beta Let_def clauseOK_def intro!: okE_bindE_list okE_intros)

lemma acceptCidrRules_oneLine:
  assumes "clauseOK pc" "oneLine (pol_Action pol)" "list_all oneLine cidrs"
  shows "okE oneLine (acceptCidrRules pol pc cidrs ip host docker noct dir mt)"
proof -
  have ports: "oneLine (Protocol pc)" "oneLine (fst (splitPortMatches pc))" "oneLine (snd (splitPortMatches pc))"
    using assms(1) clauseOK_ports [of pc] by (simp_all add: clauseOK_def)
  have ret: "list_all oneLine (if dir = ruleDirSource then if mt then if noct then [] else [''0.0.0.0/0''] else cidrs else [])"
    using assms(3) by simp
  show ?thesis
    unfolding acceptCidrRules_def split_beta Let_def
    apply (rule okE_bindE_list [OF okE_filterSelf [OF assms(3)]])
    apply (rule okE_bindE_list)
    subgoal
      by (rule okE_concatMapE_all, assumption, intro okE_bindE_list okE_whenE okE_dirSwitch okE_Inr)
        (use assms(2) ports in simp_all)
    subgoal
      by (intro okE_if okE_bindE_list [OF okE_filterSelf [OF ret]] okE_Inr)
        (use ports in \<open>auto simp: list_all_iff\<close>)
    done
qed

lemma logDropClause_oneLine:
  assumes "clauseOK pc" "oneLine (pol_Action pol)" "oneLine n" "list_all oneLine cidrs"
  shows "okE oneLine (logDropClause pol pc useIpset n cidrs ip host docker dir)"
  unfolding logDropClause_def Let_def
  by (intro okE_if okE_bindE_list [OF okE_filterSelf] okE_bindE_list [OF okE_whenE] okE_bindE
      okE_concatMapE_all [where Q = oneLine] okE_dirSwitch okE_Inr okE_Inl; (assumption | rule assms(4))?)
    (use assms in \<open>simp_all add: clauseOK_def oneLine_joinRuleParts\<close>)

lemma writeRules_oneLine:
  assumes "list_all clauseOK pcs" "oneLine (pol_Action pol)" "oneLine ipsetName" "list_all oneLine cidrs"
  shows "okE oneLine (writeRules pol pcs useIpset ipsetName cidrs ip host docker noct dir mt)"
  using assms
  by (auto simp: writeRules_def buildAcceptRules_def buildLogDropRules_def list_all_iff
      intro!: okE_intros okE_bindE acceptInternetRules_oneLine acceptIpsetRules_oneLine acceptCidrRules_oneLine
        logDropClause_oneLine)

section \<open>Sections are single lines\<close>

text \<open>The columns whose text reaches a bundle unchecked contain no line break.\<close>

definition cleanText :: "database \<Rightarrow> bool" where
  "cleanText db =
     (list_all (\<lambda>p. oneLine (p_hostname p)) (db_peers db) \<and>
      list_all (\<lambda>g. oneLine (g_name g)) (db_groups db) \<and>
      list_all (\<lambda>s. oneLine (s_protocol s)) (db_services db) \<and>
      list_all (\<lambda>p. oneLine (pl_name p) \<and> oneLine (pl_source_type p) \<and> oneLine (pl_target_type p)) (db_policies db) \<and>
      list_all (\<lambda>kv. oneLine (snd kv)) (db_config db))"

lemma queryRow_oneLine:
  "queryRow db q rows = Inr r \<Longrightarrow> list_all oneLine rows \<Longrightarrow> oneLine r"
  by (auto simp: queryRow_Inr)

lemma GetPeerHostname_oneLine: "GetPeerHostname db i = Inr n \<Longrightarrow> cleanText db \<Longrightarrow> oneLine n"
  by (auto simp: GetPeerHostname_def cleanText_def list_all_iff elim!: queryRow_oneLine)

lemma GetActiveGroupNameByID_oneLine: "GetActiveGroupNameByID db i = Inr n \<Longrightarrow> cleanText db \<Longrightarrow> oneLine n"
  by (auto simp: GetActiveGroupNameByID_def cleanText_def list_all_iff elim!: queryRow_oneLine)

lemma getSpecialDisplayName_oneLine: "oneLine (getSpecialDisplayName i)"
  by (simp add: getSpecialDisplayName_def)

lemma formatEntityName_oneLine:
  "cleanText db \<Longrightarrow> oneLine t \<Longrightarrow> oneLine (formatEntityName db t i)"
  by (auto simp: formatEntityName_def getSpecialDisplayName_oneLine
      dest: GetPeerHostname_oneLine GetActiveGroupNameByID_oneLine split: sum.splits)

lemma oneLine_sentinel [simp]: "oneLine InternetSentinel"
  by (simp add: InternetSentinel_def)

lemma okE_ResolveSpecialTarget: "okE oneLine (ResolveSpecialTarget db i ip)"
  by (auto simp: okE_def list_all_iff dest: ResolveSpecialTarget_cidrText oneLine_cidrText)

lemma okE_resolveEntityCIDRs: "okE oneLine (resolveEntityCIDRs db t i ov ip)"
proof -
  have "okE oneLine (ResolveEntity db t i)"
    by (auto simp: okE_def list_all_iff dest: ResolveEntity_cidrText oneLine_cidrText)
  moreover have "ValidatePeerCIDR ov = Inr () \<Longrightarrow> oneLine (NormalizeToCIDR ov)"
    by (blast intro: oneLine_cidrText cidrText_normalized ValidatePeerCIDR_generic)
  ultimately show ?thesis
    by (auto simp: resolveEntityCIDRs_def okE_ResolveSpecialTarget intro!: okE_intros okE_bindE)
qed

definition validAction :: "string \<Rightarrow> bool" where
  "validAction a = (a = ActionAccept \<or> a = ActionDrop \<or> a = ActionLogDrop)"

lemma validAction_oneLine: "validAction a \<Longrightarrow> oneLine a"
  by (auto simp: validAction_def)

lemma writeMulticastRule_oneLine: "list_all oneLine (writeMulticastRule act scope d)"
  by (simp add: writeMulticastRule_def scopeFlags_def rw_writeAction_def rw_accept_def rw_drop_def rw_logDrop_def)

lemma writeBroadcastRule_oneLine:
  "oneLine addr \<Longrightarrow> oneLine proto \<Longrightarrow> list_all oneLine (writeBroadcastRule act scope d addr proto)"
  by (simp add: writeBroadcastRule_def scopeFlags_def rw_accept_def normalizeBroadcastProto_def)

lemma fallback_oneLine:
  assumes "list_all clauseOK pcs" "oneLine (pol_Action pol)"
  shows "list_all oneLine (buildInternetFallbackRules pol pcs host docker noct)"
proof -
  have "list_all oneLine (map Protocol pcs)" "\<forall>pc \<in> set pcs. oneLine (fst (splitPortMatches pc)) \<and> oneLine (snd (splitPortMatches pc))"
    using assms(1) clauseOK_ports by (auto simp: list_all_iff clauseOK_def)
  with assms show ?thesis
    by (auto simp: buildInternetFallbackRules_def list_all_iff split_beta Let_def clauseOK_def
        internetFallbackDstMatch_def internetFallbackSrcMatch_def
        intro!: oneLine_joinRuleParts dest: oneLine_logDropRule [unfolded list_all_iff, THEN bspec, rotated 3])
qed

lemma multicastEgress_oneLine: "list_all oneLine (multicastEgress pol host docker)"
  by (simp add: multicastEgress_def Let_def)

definition idmapOK :: "idmap \<Rightarrow> bool" where
  "idmapOK m = list_all (\<lambda>kv. oneLine (snd kv)) m"

lemma idLookup_oneLine: "idmapOK m \<Longrightarrow> oneLine (idLookup m k)"
  by (auto simp: idmapOK_def idLookup_def list_all_iff split: option.splits dest!: map_of_SomeD)

lemmas rules_oneLine = writeRules_oneLine [OF _ validAction_oneLine] fallback_oneLine [OF _ validAction_oneLine]
  writeMulticastRule_oneLine multicastEgress_oneLine formatEntityName_oneLine idLookup_oneLine

definition policyOK :: "policyInfo \<Rightarrow> bool" where
  "policyOK pol = (validAction (pol_Action pol) \<and> oneLine (pol_Name pol) \<and> oneLine (pol_SourceType pol) \<and>
     oneLine (pol_TargetType pol))"

lemma writeTargetSection_oneLine:
  assumes "cleanText db" "policyOK pol" "list_all clauseOK pcs" "oneLine proto" "idmapOK sets"
  shows "okE oneLine (writeTargetSection db pol pcs svc proto sets d i ip host docker noct)"
proof -
  have a: "validAction (pol_Action pol)" "oneLine (pol_SourceType pol)" using assms(2) by (simp_all add: policyOK_def)
  have h: "list_all oneLine body \<Longrightarrow> okE oneLine (Inr
      ((''# As Target (Ingress from '' @ formatEntityName db (pol_SourceType pol) (pol_SourceID pol) @ '')'') # body))" for body
    using a assms(1) by (simp add: okE_def formatEntityName_oneLine)
  have n: "oneLine (if b then idLookup sets k else [])" for b k
    using assms(5) by (simp add: idLookup_oneLine)
  show ?thesis
    unfolding writeTargetSection_def Let_def
    by (intro okE_if okE_Inl okE_Inr okE_bindE_list [OF _ h] okE_bindE_list [OF okE_wrapE [OF okE_ResolveSpecialTarget]]
        okE_bindE_list [OF okE_wrapE [OF okE_resolveEntityCIDRs]] rules_oneLine a assms(3) n)
      (auto simp: list_all_iff dest: writeBroadcastRule_oneLine [OF _ assms(4), unfolded list_all_iff, THEN bspec])
qed

lemma writeSourceSection_oneLine:
  assumes "cleanText db" "policyOK pol" "list_all clauseOK pcs" "idmapOK sets"
  shows "okE oneLine (writeSourceSection db peerID pol pcs svc sets i ip host docker noct)"
proof -
  have a: "validAction (pol_Action pol)" "oneLine (pol_TargetType pol)" using assms(2) by (simp_all add: policyOK_def)
  have h: "list_all oneLine body \<Longrightarrow> okE oneLine (Inr
      ((''# As Source (Egress to '' @ formatEntityName db (pol_TargetType pol) (pol_TargetID pol) @ '')'') # body))" for body
    using a assms(1) by (simp add: okE_def formatEntityName_oneLine)
  have n: "oneLine (if b then idLookup sets k else [])" for b k
    using assms(4) by (simp add: idLookup_oneLine)
  show ?thesis
    unfolding writeSourceSection_def Let_def
    by (intro okE_if okE_Inl okE_Inr okE_bindE_list [OF _ h] okE_bindE_list [OF okE_wrapE [OF okE_resolveEntityCIDRs]]
        rules_oneLine a assms(3) n okE_bindE) auto
qed

lemma fixed_oneLine:
  "list_all oneLine (writeIGMPRules scope d)" "list_all oneLine (writeVRRPRules scope d)"
  "list_all oneLine (writeLoggingSection d)" "list_all oneLine (writeFilterTableHeader d)"
  "oneLine port \<Longrightarrow> list_all oneLine (writeStandardRules d port)"
  by (simp_all add: writeIGMPRules_def writeVRRPRules_def rw_accept_def scopeFlags_def writeLoggingSection_def
      writeFilterTableHeader_def writeStandardRules_def)

definition servicesOK :: "(int \<times> ServiceInfo) list \<Rightarrow> bool" where
  "servicesOK svcs = list_all (\<lambda>kv. oneLine (svc_Protocol (snd kv))) svcs"

lemma policyPortClauses_OK:
  "policyPortClauses svc = Inr pcs \<Longrightarrow> oneLine (svc_Protocol svc) \<Longrightarrow> list_all clauseOK pcs"
  by (auto simp: policyPortClauses_def Let_def list_all_iff dest: ExpandPorts_clauseOK split: if_splits)

lemma writeSinglePolicy_oneLine:
  assumes "cleanText db" "oneLine (pol_Name pol)" "oneLine (pol_SourceType pol)" "oneLine (pol_TargetType pol)"
    and "servicesOK svcs" "idmapOK sets"
  shows "okE oneLine (writeSinglePolicy db peerID svcs sets d i ip pol)"
proof (cases "map_of svcs (pol_ServiceID pol)")
  case None
  then show ?thesis by (simp add: writeSinglePolicy_def okE_def)
next
  case (Some svc)
  then have p: "oneLine (svc_Protocol svc)"
    using assms(5) by (auto simp: servicesOK_def list_all_iff dest!: map_of_SomeD)
  show ?thesis
  proof (cases "validAction (pol_Action pol)")
    case True
    then have ok: "policyOK pol" using assms by (simp add: policyOK_def)
    have pcs: "okE oneLine (bindE (policyPortClauses svc) f)" if "\<And>pcs. list_all clauseOK pcs \<Longrightarrow> okE oneLine (f pcs)" for f
      using that p by (auto intro!: okE_bindE policyPortClauses_OK)
    show ?thesis
      unfolding writeSinglePolicy_def Some option.case split_beta Let_def
      by (intro okE_if okE_Inl okE_Inr pcs okE_bindE_list [OF writeTargetSection_oneLine]
          okE_bindE_list [OF writeSourceSection_oneLine] assms ok p)
        (use assms(2) fixed_oneLine in simp_all)
  next
    case False
    then show ?thesis by (simp add: writeSinglePolicy_def validAction_def okE_def)
  qed
qed

lemma resolveOneIpset_OK:
  assumes "resolveOneIpset db names g = Inr s"
  shows "oneLine (is_Name s) \<and> oneLine (is_SetType s) \<and> list_all oneLine (is_Members s)"
proof -
  have "c \<in> set cs \<Longrightarrow> resolveGroupForIpset db g = Inr cs \<Longrightarrow> oneLine c" for c cs
    by (auto simp: resolveGroupForIpset_def bindE_eq_Inr ValidateGroupCIDR_def dest!: mapE_Inr_origin
        intro!: oneLine_cidrText cidrText_normalized)
  with assms show ?thesis
    by (auto simp: resolveOneIpset_def bindE_eq_Inr Let_def list_all_iff)
qed

lemma resolveIPSetDefinitions_OK:
  assumes "resolveIPSetDefinitions db i order names = Inr (sets, idm)"
  shows "list_all (\<lambda>s. oneLine (is_Name s) \<and> oneLine (is_SetType s) \<and> list_all oneLine (is_Members s)) sets \<and> idmapOK idm"
proof -
  have "s \<in> set sets \<Longrightarrow> oneLine (is_Name s) \<and> oneLine (is_SetType s) \<and> list_all oneLine (is_Members s)" for s
    using assms resolveOneIpset_OK
    by (auto simp: resolveIPSetDefinitions_def bindE_eq_Inr split: if_splits dest!: mapE_Inr_origin)
  moreover from this have "idmapOK idm"
    using assms
    by (auto simp: resolveIPSetDefinitions_def bindE_eq_Inr idmapOK_def list_all_iff split: if_splits
        dest!: set_zip_rightD)
  ultimately show ?thesis by (auto simp: list_all_iff)
qed

lemma writeIpsetDefinitions_oneLine:
  assumes "list_all (\<lambda>s. oneLine (is_Name s) \<and> oneLine (is_SetType s) \<and> list_all oneLine (is_Members s)) sets"
  shows "okE oneLine (writeIpsetDefinitions i sets)"
proof -
  have "ipsetFamilyForMembers ms = Inr f \<Longrightarrow> oneLine f" for ms f
    by (auto simp: ipsetFamilyForMembers_def bindE_eq_Inr split: if_splits prod.splits)
  then show ?thesis
    unfolding writeIpsetDefinitions_def
    by (intro okE_bindE_list okE_if okE_Inr okE_concatMapE okE_bindE)
      (use assms in \<open>auto simp: list_all_iff privateFallbackCIDRList_def\<close>)
qed

lemma loaded_OK:
  assumes "cleanText db"
  shows "pol \<in> set (applicablePolicies db i) \<Longrightarrow>
      oneLine (pol_Name pol) \<and> oneLine (pol_SourceType pol) \<and> oneLine (pol_TargetType pol)"
    and "preloadRequiredServices db pols = Inr svcs \<Longrightarrow> servicesOK svcs"
    and "loadPeerData db i = Inr (h, ip, d, s) \<Longrightarrow> oneLine h"
    and "oneLine (loadControlPlanePort db)"
proof -
  show "pol \<in> set (applicablePolicies db i) \<Longrightarrow>
      oneLine (pol_Name pol) \<and> oneLine (pol_SourceType pol) \<and> oneLine (pol_TargetType pol)"
    using assms by (auto simp: applicablePolicies_def cleanText_def list_all_iff scanPolicy_def)
  show "preloadRequiredServices db pols = Inr svcs \<Longrightarrow> servicesOK svcs"
    using assms by (auto simp: preloadRequiredServices_def Let_def bindE_eq_Inr queryRows_Inr servicesOK_def
        cleanText_def list_all_iff split: if_splits)
  show "loadPeerData db i = Inr (h, ip, d, s) \<Longrightarrow> oneLine h"
    using assms by (auto simp: loadPeerData_def bindE_eq_Inr queryRow_Inr cleanText_def list_all_iff dest!: filter_head)
  have "queryRow db q (map snd (filter P (db_config db))) = Inr port \<Longrightarrow> oneLine port" for q P port
    using assms by (auto simp: cleanText_def list_all_iff elim!: queryRow_oneLine)
  then show "oneLine (loadControlPlanePort db)"
    by (auto simp: loadControlPlanePort_def DefaultControlPlanePort_def split: sum.splits)
qed

lemma CompileLines_elim:
  assumes "CompileLines db now peerID = Inr ls"
  obtains h ip d i svcs order names sets idm where
    "loadPeerData db peerID = Inr (h, ip, d, i)"
    "preloadRequiredServices db (applicablePolicies db peerID) = Inr svcs"
    "resolveIPSetDefinitions db i order names = Inr (sets, idm)"
    "generateIptablesPayload db now peerID h ip d i (applicablePolicies db peerID) svcs sets idm
       (loadControlPlanePort db) = Inr ls"
proof -
  obtain order names where "collectGroups db (applicablePolicies db peerID) = (order, names)" by fastforce
  with assms that show thesis
    by (auto simp: CompileLines_def bindE_eq_Inr loadApplicablePolicies_def queryRows_Inr)
qed

lemma CompileLines_oneLine:
  assumes "cleanText db" "oneLine now"
  shows "okE oneLine (CompileLines db now peerID)"
proof -
  have "list_all oneLine ls" if "CompileLines db now peerID = Inr ls" for ls
  proof -
    let ?pols = "applicablePolicies db peerID"
    from that obtain h ip d i svcs order names sets idm where
      l: "loadPeerData db peerID = Inr (h, ip, d, i)" and s: "preloadRequiredServices db ?pols = Inr svcs" and
      r: "resolveIPSetDefinitions db i order names = Inr (sets, idm)" and
      g: "generateIptablesPayload db now peerID h ip d i ?pols svcs sets idm (loadControlPlanePort db) = Inr ls"
      by (rule CompileLines_elim)
    note ok = resolveIPSetDefinitions_OK [OF r] and ld = loaded_OK [OF assms(1)]
    have "okE oneLine (writePolicySection db peerID ?pols svcs idm d i ip)"
      unfolding writePolicySection_def
      by (intro okE_concatMapE writeSinglePolicy_oneLine) (use assms(1) ok ld(1) ld(2) [OF s] in auto)
    moreover have "okE oneLine (writeIpsetDefinitions i sets)"
      using ok by (intro writeIpsetDefinitions_oneLine) simp
    ultimately show ?thesis
      using g ld(3) [OF l] ld(4) assms(2) fixed_oneLine
      by (auto simp: generateIptablesPayload_def bindE_eq_Inr okE_def writePayloadHeader_def)
  qed
  then show ?thesis by (simp add: okE_def)
qed

section \<open>Properties\<close>

lemma splitByte_unlines: "list_all oneLine ls \<Longrightarrow> splitByte NL (unlines ls) = ls @ [[]]"
  by (induction ls) (simp_all add: splitByte_append_sep oneLine_def)

text \<open>
  C4 (INJECT): no stored value can add a line to a bundle. When the free-text columns contain no line
  break, the lines of the compiled text are exactly the lines the compiler wrote; addresses,
  ports and set names need no such assumption, because they are validated or sanitised on the
  way.
\<close>

theorem Compile_lines_intact:
  assumes "CompileLines db now peerID = Inr ls" and "cleanText db" and "oneLine now"
  shows "\<exists>text. Compile db now peerID = Inr text \<and> splitByte NL text = ls @ [[]]"
proof -
  have "list_all oneLine ls"
    using CompileLines_oneLine [OF assms(2,3)] assms(1) by (simp add: okE_def)
  then show ?thesis
    using assms(1) by (simp add: Compile_def splitByte_unlines)
qed

lemma exDB_compiles: "i = 1 \<or> i = 2 \<Longrightarrow> \<exists>ls. CompileLines exDB ''now'' i = Inr ls"
proof -
  have "\<not> isl (CompileLines exDB ''now'' 1)" "\<not> isl (CompileLines exDB ''now'' 2)" by code_simp+
  then show "i = 1 \<or> i = 2 \<Longrightarrow> ?thesis"
    by (cases "CompileLines exDB ''now'' 1"; cases "CompileLines exDB ''now'' 2") auto
qed

theorem Compile_lines_intact_witness:
  "\<exists>ls text. Compile exDB ''now'' 2 = Inr text \<and> splitByte NL text = ls @ [[]]"
proof -
  obtain ls where "CompileLines exDB ''now'' 2 = Inr ls" using exDB_compiles by blast
  moreover have "cleanText exDB" "oneLine ''now''" by code_simp+
  ultimately show ?thesis using Compile_lines_intact by blast
qed

text \<open>The rules of one chain, in the order the kernel evaluates them.\<close>

definition chainLines :: "string \<Rightarrow> string list \<Rightarrow> string list" where
  "chainLines chain ls = filter (\<lambda>l. hasPrefix l (''-A '' @ chain @ '' '')) ls"

lemma unlines_snoc: "ls \<noteq> [] \<Longrightarrow> \<exists>t. unlines ls = t @ [NL]"
  by (induction ls rule: rev_induct) auto

lemma logging_lines:
  "chainLines ''INPUT'' (writeLoggingSection d @ [[], ''COMMIT'', []]) =
     [''-A INPUT -j LOG --log-prefix '' @ quoted ''[RUNIC-DROP-I] '' @ '' --log-level 4'', ''-A INPUT -j DROP'']"
  "chainLines ''OUTPUT'' (writeLoggingSection d @ [[], ''COMMIT'', []]) =
     [''-A OUTPUT -j LOG --log-prefix '' @ quoted ''[RUNIC-DROP-O] '' @ '' --log-level 4'', ''-A OUTPUT -j DROP'']"
  by (cases d; simp add: chainLines_def writeLoggingSection_def dropPrefixFor_def hasPrefix_def)+

lemma payload_tail:
  assumes "generateIptablesPayload db now peerID h ip d i pols svcs sets idm port = Inr ls"
  shows "\<exists>front. front \<noteq> [] \<and> ls = front @ writeLoggingSection d @ [[], ''COMMIT'']"
proof -
  from assms obtain a b where "ls = (writePayloadHeader now h pols i sets @ a @ writeFilterTableHeader d @
      writeStandardRules d port @ b) @ writeLoggingSection d @ [[], ''COMMIT'']"
    by (auto simp: generateIptablesPayload_def bindE_eq_Inr)
  moreover have "writePayloadHeader now h pols i sets \<noteq> []" by (simp add: writePayloadHeader_def)
  ultimately show ?thesis
    by (intro exI [where x = "writePayloadHeader now h pols i sets @ a @ writeFilterTableHeader d @
      writeStandardRules d port @ b"]) simp
qed

text \<open>
  C3 (DENY): every compiled bundle denies by default. Whatever the policies and whatever the stored
  text, the last two rules of the INPUT chain and of the OUTPUT chain are the logging rule and
  the unconditional DROP, so no rule of a policy follows them.
\<close>

theorem Compile_default_deny:
  assumes "Compile db now peerID = Inr text"
  shows "(\<exists>pre. chainLines ''INPUT'' (splitByte NL text) = pre @
           [''-A INPUT -j LOG --log-prefix '' @ quoted ''[RUNIC-DROP-I] '' @ '' --log-level 4'', ''-A INPUT -j DROP'']) \<and>
         (\<exists>pre. chainLines ''OUTPUT'' (splitByte NL text) = pre @
           [''-A OUTPUT -j LOG --log-prefix '' @ quoted ''[RUNIC-DROP-O] '' @ '' --log-level 4'', ''-A OUTPUT -j DROP''])"
proof -
  from assms obtain ls where "CompileLines db now peerID = Inr ls" and t: "text = unlines ls"
    by (auto simp: Compile_def bindE_eq_Inr)
  then obtain d front where "ls = front @ writeLoggingSection d @ [[], ''COMMIT'']" "front \<noteq> []"
    by (elim CompileLines_elim) (blast dest: payload_tail)
  moreover obtain f where "unlines front = f @ [NL]" using calculation(2) unlines_snoc by blast
  moreover have "list_all oneLine (writeLoggingSection d @ [[], ''COMMIT''])" by (simp add: fixed_oneLine)
  ultimately have "splitByte NL text = splitByte NL f @ writeLoggingSection d @ [[], ''COMMIT'', []]"
    using splitByte_unlines [of "writeLoggingSection d @ [[], ''COMMIT'']"] by (simp add: t splitByte_append del: unlines_append unlines_Cons add: unlines_append [of front])
  then have "chainLines c (splitByte NL text) = chainLines c (splitByte NL f) @ chainLines c (writeLoggingSection d @ [[], ''COMMIT'', []])" for c
    by (simp add: chainLines_def)
  then show ?thesis by (simp only: logging_lines) blast
qed

theorem Compile_default_deny_witness:
  "\<exists>text pre. Compile exDB ''now'' 2 = Inr text \<and> chainLines ''INPUT'' (splitByte NL text) = pre @
     [''-A INPUT -j LOG --log-prefix '' @ quoted ''[RUNIC-DROP-I] '' @ '' --log-level 4'', ''-A INPUT -j DROP'']"
proof -
  obtain t where "Compile exDB ''now'' 2 = Inr t" using exDB_compiles [of 2] by (auto simp: Compile_def)
  with Compile_default_deny show ?thesis by blast
qed

section \<open>The two ends of a policy\<close>

text \<open>A service that is expanded into port clauses, and not one of the fixed system services.\<close>

definition regularService :: "string \<Rightarrow> bool" where
  "regularService n = (\<not> isMulticastService n \<and> n \<noteq> ''Subnet Broadcast'' \<and> n \<noteq> ''Limited Broadcast'' \<and> \<not> isIGMPorVRRP n)"

definition peerPolicy :: "policyInfo \<Rightarrow> bool" where
  "peerPolicy pol =
     (pol_SourceType pol = ''peer'' \<and> pol_TargetType pol = ''peer'' \<and> pol_SourceIP pol = [] \<and> pol_TargetIP pol = [] \<and>
      pol_Action pol = ActionAccept \<and> pol_Direction pol = ''both'' \<and> (pol_TargetScope pol = ''host'' \<or> pol_TargetScope pol = ''both''))"

lemma ResolveEntity_peer:
  "ResolveEntity db ''peer'' i = Inr cs \<Longrightarrow>
     \<exists>p \<in> set (db_peers db). p_id p = i \<and> cs = [NormalizeToCIDR (p_ip_address p)]"
  by (auto simp: ResolveEntity_def bindE_eq_Inr queryRow_Inr normalizePeerCIDR_Inr dest!: filter_head)

lemma selfFiltered_other: "c \<noteq> NormalizeToCIDR ip \<Longrightarrow> selfFiltered [c] ip = [c]"
  by (simp add: selfFiltered_def)

lemma writeRules_peer:
  assumes "writeRules pol pcs False [] [c] ip True docker noct dir False = Inr rules"
    and "pol_Action pol = ActionAccept" "dir = ruleDirTarget \<or> dir = ruleDirSource"
    and "c \<noteq> NormalizeToCIDR ip" "pc \<in> set pcs"
  shows "renderAccept (primaryRule dir noct (ECidr c) pc) \<in> set rules \<and>
         renderAccept (returnRule dir noct (ECidr c) pc) \<in> set rules"
  using assms(3) writeRules_accept_set [OF assms(1,2)] assms(4,5)
  by (auto simp: endpoints_def selfFiltered_other flowRules_def)

lemma policySection_peer:
  assumes "writeSinglePolicy db me svcs idm d i ip pol = Inr ls" "peerPolicy pol"
    and "map_of svcs (pol_ServiceID pol) = Some svc" "regularService (svc_Name svc)"
    and "ExpandPorts (svc_Ports svc) (svc_SourcePorts svc) (svc_Protocol svc) = Inr pcs" "pc \<in> set pcs"
  shows "pol_IsTarget pol \<Longrightarrow> \<exists>p \<in> set (db_peers db). p_id p = pol_SourceID pol \<and>
      (NormalizeToCIDR (p_ip_address p) \<noteq> NormalizeToCIDR ip \<longrightarrow>
         renderAccept (primaryRule ruleDirTarget (svc_NoConntrack svc) (ECidr (NormalizeToCIDR (p_ip_address p))) pc) \<in> set ls \<and>
         renderAccept (returnRule ruleDirTarget (svc_NoConntrack svc) (ECidr (NormalizeToCIDR (p_ip_address p))) pc) \<in> set ls)"
      (is "_ \<Longrightarrow> ?T")
    and "pol_IsSource pol \<Longrightarrow> \<exists>p \<in> set (db_peers db). p_id p = pol_TargetID pol \<and>
      (NormalizeToCIDR (p_ip_address p) \<noteq> NormalizeToCIDR ip \<longrightarrow>
         renderAccept (primaryRule ruleDirSource (svc_NoConntrack svc) (ECidr (NormalizeToCIDR (p_ip_address p))) pc) \<in> set ls \<and>
         renderAccept (returnRule ruleDirSource (svc_NoConntrack svc) (ECidr (NormalizeToCIDR (p_ip_address p))) pc) \<in> set ls)"
      (is "_ \<Longrightarrow> ?S")
proof -
  let ?docker = "d \<and> pol_TargetScope pol \<noteq> ''host''" and ?n = "svc_NoConntrack svc"
  have host: "scopeFlags (pol_TargetScope pol) d = (True, ?docker)"
    using assms(2) by (auto simp: scopeFlags_def peerPolicy_def)
  have "policyPortClauses svc = Inr pcs"
    using assms(4,5) by (simp add: policyPortClauses_def regularService_def)
  with assms(1-4) host obtain tgt src where
    t: "writeTargetSection db pol pcs (svc_Name svc) (svc_Protocol svc) idm d i ip True ?docker ?n = Inr tgt" and
    s: "writeSourceSection db me pol pcs (svc_Name svc) idm i ip True ?docker ?n = Inr src" and
    "ls = (''# --- Policy: '' @ pol_Name pol @ '' ---'') # tgt @ src @ [[]]"
    by (auto simp: writeSinglePolicy_def peerPolicy_def regularService_def bindE_eq_Inr)
  then have ls: "set tgt \<subseteq> set ls" "set src \<subseteq> set ls" by auto
  have pol: "pol_Action pol = ActionAccept" using assms(2) by (simp add: peerPolicy_def)
  show "pol_IsTarget pol \<Longrightarrow> ?T"
  proof -
    assume "pol_IsTarget pol"
    with t assms(2,4) obtain cs rules where "ResolveEntity db ''peer'' (pol_SourceID pol) = Inr cs"
      "writeRules pol pcs False [] cs ip True ?docker ?n ruleDirTarget False = Inr rules"
      "tgt = (''# As Target (Ingress from '' @ formatEntityName db (pol_SourceType pol) (pol_SourceID pol) @ '')'') # rules"
      by (auto simp: writeTargetSection_def peerPolicy_def regularService_def resolveEntityCIDRs_def bindE_eq_Inr Let_def)
    then show ?T
      using ls writeRules_peer [OF _ pol _ _ assms(6)] by (fastforce dest!: ResolveEntity_peer)
  qed
  show "pol_IsSource pol \<Longrightarrow> ?S"
  proof -
    assume "pol_IsSource pol"
    with s assms(2,4) obtain cs rules where "ResolveEntity db ''peer'' (pol_TargetID pol) = Inr cs"
      "writeRules pol pcs False [] cs ip True ?docker ?n ruleDirSource False = Inr rules"
      "src = (''# As Source (Egress to '' @ formatEntityName db (pol_TargetType pol) (pol_TargetID pol) @ '')'') # rules"
      by (auto simp: writeSourceSection_def peerPolicy_def regularService_def resolveEntityCIDRs_def bindE_eq_Inr Let_def
          split: if_splits)
    then show ?S
      using ls writeRules_peer [OF _ pol _ _ assms(6)] by (fastforce dest!: ResolveEntity_peer)
  qed
qed

text \<open>The part of the schema the end-to-end property rests on.\<close>

definition serviceInfoOf :: "service_row \<Rightarrow> ServiceInfo" where
  "serviceInfoOf s = \<lparr>svc_Name = s_name s, svc_Ports = s_ports s, svc_SourcePorts = coalesceText [] (s_source_ports s),
     svc_Protocol = s_protocol s, svc_NoConntrack = scanBool (coalesce0 (s_no_conntrack s))\<rparr>"

lemma preload_lookup:
  assumes "preloadRequiredServices db pols = Inr svcs" "wf_db db"
    and "s \<in> set (db_services db)" "\<not> s_pending_delete s" "pol \<in> set pols" "pol_ServiceID pol = s_id s"
  shows "map_of svcs (s_id s) = Some (serviceInfoOf s)"
proof -
  let ?rows = "filter (\<lambda>s. \<not> s_pending_delete s \<and> s_id s \<in> set (map pol_ServiceID pols)) (db_services db)"
  from assms(5) have "pols \<noteq> []" by auto
  with assms(1) have svcs: "svcs = rev (map (\<lambda>s. (s_id s, serviceInfoOf s)) ?rows)"
    by (auto simp: preloadRequiredServices_def Let_def bindE_eq_Inr queryRows_Inr serviceInfoOf_def)
  have "distinct (map s_id (db_services db))" using assms(2) by (simp add: wf_db_def)
  then have "distinct (map fst svcs)"
    by (simp add: svcs rev_map [symmetric] o_def distinct_map inj_on_def)
  moreover have "(s_id s, serviceInfoOf s) \<in> set svcs"
    using assms(3-6) by (force simp: svcs)
  ultimately show ?thesis by (rule map_of_is_SomeI)
qed

lemma loadPeerData_unique:
  assumes "loadPeerData db (p_id p) = Inr (h, ip, d, i)" "wf_db db" "p \<in> set (db_peers db)"
  shows "ip = p_ip_address p"
proof -
  from assms(1) obtain q where "q \<in> set (db_peers db)" "p_id q = p_id p" "ip = p_ip_address q"
    by (auto simp: loadPeerData_def bindE_eq_Inr queryRow_Inr dest!: filter_head)
  with assms(2,3) show ?thesis by (auto simp: wf_db_def dest: distinct_map_unique)
qed

lemma compiled_policy:
  assumes "CompileLines db now (p_id me) = Inr ls" "wf_db db" "me \<in> set (db_peers db)"
    and "row \<in> set (db_policies db)" "applicableCol db (p_id me) row"
    and "s \<in> set (db_services db)" "\<not> s_pending_delete s" "pl_service_id row = s_id s"
  obtains d i svcs idm pls where
    "writeSinglePolicy db (p_id me) svcs idm d i (p_ip_address me) (scanPolicy db (p_id me) row) = Inr pls"
    "set pls \<subseteq> set ls" "map_of svcs (s_id s) = Some (serviceInfoOf s)"
proof -
  let ?pol = "scanPolicy db (p_id me) row"
  have pol: "?pol \<in> set (applicablePolicies db (p_id me))" "pol_ServiceID ?pol = s_id s"
    using assms(4,5,8) by (auto simp: applicablePolicies_def scanPolicy_def)
  from assms(1) show thesis
  proof (rule CompileLines_elim)
    fix h ip d i svcs order names sets idm
    assume l: "loadPeerData db (p_id me) = Inr (h, ip, d, i)"
      and p: "preloadRequiredServices db (applicablePolicies db (p_id me)) = Inr svcs"
      and g: "generateIptablesPayload db now (p_id me) h ip d i (applicablePolicies db (p_id me)) svcs sets idm
         (loadControlPlanePort db) = Inr ls"
    have ip: "ip = p_ip_address me" using l assms(2,3) by (rule loadPeerData_unique)
    from g obtain pls front where
      "writePolicySection db (p_id me) (applicablePolicies db (p_id me)) svcs idm d i ip = Inr pls"
      "ls = writePayloadHeader now h (applicablePolicies db (p_id me)) i sets @ front @ writeFilterTableHeader d @
         writeStandardRules d (loadControlPlanePort db) @ pls @ writeLoggingSection d @ [[], ''COMMIT'']"
      by (auto simp: generateIptablesPayload_def bindE_eq_Inr)
    then have "writePolicySection db (p_id me) (applicablePolicies db (p_id me)) svcs idm d i ip = Inr pls"
      "set pls \<subseteq> set ls" by auto
    then show thesis
      using that [of svcs idm d i] preload_lookup [OF p assms(2,6,7) pol] concatMapE_member [OF _ pol(1)] ip
      by (fastforce simp: writePolicySection_def)
  qed
qed

text \<open>
  C1 (BOTHENDS): a policy between two peers opens the same flow on both of them. For an enabled
  ACCEPT policy from one peer to another over a regular service, and for every port clause of
  the service, the bundle of the source lets the packets out towards the target and the answers
  back in, and the bundle of the target lets the same packets in and the answers out.
\<close>

theorem Compile_both_ends:
  assumes "CompileLines db now (p_id a) = Inr la" and "CompileLines db now' (p_id b) = Inr lb" and "wf_db db"
    and "a \<in> set (db_peers db)" and "b \<in> set (db_peers db)"
    and "NormalizeToCIDR (p_ip_address a) \<noteq> NormalizeToCIDR (p_ip_address b)"
    and "row \<in> set (db_policies db)" and "pl_enabled row" and "\<not> pl_pending_delete row"
    and "pl_source_type row = ''peer''" and "pl_source_id row = p_id a"
    and "pl_target_type row = ''peer''" and "pl_target_id row = p_id b"
    and "pl_source_ip row = None" and "pl_target_ip row = None" and "pl_action row = ActionAccept"
    and "pl_direction row = Some ''both''" and "pl_target_scope row \<in> {''host'', ''both''}"
    and "s \<in> set (db_services db)" and "s_id s = pl_service_id row" and "\<not> s_pending_delete s"
    and "regularService (s_name s)"
    and "ExpandPorts (s_ports s) (coalesceText [] (s_source_ports s)) (s_protocol s) = Inr pcs" and "pc \<in> set pcs"
  shows "let noct = scanBool (coalesce0 (s_no_conntrack s));
             toB = ECidr (NormalizeToCIDR (p_ip_address b)); fromA = ECidr (NormalizeToCIDR (p_ip_address a))
         in renderAccept (primaryRule ruleDirSource noct toB pc) \<in> set la \<and>
            renderAccept (returnRule ruleDirSource noct toB pc) \<in> set la \<and>
            renderAccept (primaryRule ruleDirTarget noct fromA pc) \<in> set lb \<and>
            renderAccept (returnRule ruleDirTarget noct fromA pc) \<in> set lb"
proof -
  have app: "applicableCol db (p_id a) row" "applicableCol db (p_id b) row"
    using assms(8-13) by (simp_all add: applicableCol_def)
  have peers: "peerPolicy (scanPolicy db i row)" for i
    using assms(10-18) by (auto simp: peerPolicy_def scanPolicy_def coalesceText_def)
  have roles: "pol_IsSource (scanPolicy db (p_id a) row)" "pol_IsTarget (scanPolicy db (p_id b) row)"
    using assms(10-13) by (simp_all add: scanPolicy_def isSourceCol_def isTargetCol_def)
  have ids: "pol_ServiceID (scanPolicy db i row) = s_id s" "pol_SourceID (scanPolicy db i row) = p_id a"
    "pol_TargetID (scanPolicy db i row) = p_id b" for i
    using assms(11,13,20) by (simp_all add: scanPolicy_def)
  have svc: "regularService (svc_Name (serviceInfoOf s))"
    "ExpandPorts (svc_Ports (serviceInfoOf s)) (svc_SourcePorts (serviceInfoOf s)) (svc_Protocol (serviceInfoOf s)) = Inr pcs"
    "svc_NoConntrack (serviceInfoOf s) = scanBool (coalesce0 (s_no_conntrack s))"
    using assms(22,23) by (simp_all add: serviceInfoOf_def)
  have uniq: "q \<in> set (db_peers db) \<Longrightarrow> p \<in> set (db_peers db) \<Longrightarrow> p_id q = p_id p \<Longrightarrow> q = p" for p q
    using assms(3) by (auto simp: wf_db_def dest: distinct_map_unique)
  obtain d i svcs idm pls where
    A: "writeSinglePolicy db (p_id a) svcs idm d i (p_ip_address a) (scanPolicy db (p_id a) row) = Inr pls"
      "set pls \<subseteq> set la" "map_of svcs (s_id s) = Some (serviceInfoOf s)"
    by (rule compiled_policy [OF assms(1,3,4,7) app(1) assms(19,21) assms(20) [symmetric]])
  obtain d' i' svcs' idm' pls' where
    B: "writeSinglePolicy db (p_id b) svcs' idm' d' i' (p_ip_address b) (scanPolicy db (p_id b) row) = Inr pls'"
      "set pls' \<subseteq> set lb" "map_of svcs' (s_id s) = Some (serviceInfoOf s)"
    by (rule compiled_policy [OF assms(2,3,5,7) app(2) assms(19,21) assms(20) [symmetric]])
  obtain q where q: "q \<in> set (db_peers db)" "p_id q = p_id b" and
    qr: "NormalizeToCIDR (p_ip_address q) \<noteq> NormalizeToCIDR (p_ip_address a) \<longrightarrow>
      renderAccept (primaryRule ruleDirSource (svc_NoConntrack (serviceInfoOf s)) (ECidr (NormalizeToCIDR (p_ip_address q))) pc) \<in> set pls \<and>
      renderAccept (returnRule ruleDirSource (svc_NoConntrack (serviceInfoOf s)) (ECidr (NormalizeToCIDR (p_ip_address q))) pc) \<in> set pls"
    using policySection_peer(2) [OF A(1) peers _ svc(1,2) assms(24) roles(1), unfolded ids, OF A(3)] by (elim bexE conjE)
  obtain r where r: "r \<in> set (db_peers db)" "p_id r = p_id a" and
    rr: "NormalizeToCIDR (p_ip_address r) \<noteq> NormalizeToCIDR (p_ip_address b) \<longrightarrow>
      renderAccept (primaryRule ruleDirTarget (svc_NoConntrack (serviceInfoOf s)) (ECidr (NormalizeToCIDR (p_ip_address r))) pc) \<in> set pls' \<and>
      renderAccept (returnRule ruleDirTarget (svc_NoConntrack (serviceInfoOf s)) (ECidr (NormalizeToCIDR (p_ip_address r))) pc) \<in> set pls'"
    using policySection_peer(1) [OF B(1) peers _ svc(1,2) assms(24) roles(2), unfolded ids, OF B(3)] by (elim bexE conjE)
  have "q = b" "r = a" using uniq q r assms(4,5) by blast+
  with qr rr assms(6) A(2) B(2) show ?thesis
    unfolding svc(3) Let_def by auto
qed

theorem Compile_both_ends_witness:
  "\<exists>la lb. CompileLines exDB ''now'' 1 = Inr la \<and> CompileLines exDB ''now'' 2 = Inr lb \<and>
     renderAccept (primaryRule ruleDirSource False (ECidr ''10.0.0.2/32'') exClause) \<in> set la \<and>
     renderAccept (primaryRule ruleDirTarget False (ECidr ''10.0.0.1/32'') exClause) \<in> set lb"
proof -
  obtain la lb where c: "CompileLines exDB ''now'' (p_id exPeerA) = Inr la" "CompileLines exDB ''now'' (p_id exPeerB) = Inr lb"
    using exDB_compiles by (force simp: exPeerA_def exPeerB_def)
  have n: "NormalizeToCIDR (p_ip_address exPeerA) = ''10.0.0.1/32''" "NormalizeToCIDR (p_ip_address exPeerB) = ''10.0.0.2/32''"
    "scanBool (coalesce0 (s_no_conntrack exService)) = False"
    by code_simp+
  have e: "ExpandPorts (s_ports exService) (coalesceText [] (s_source_ports exService)) (s_protocol exService) = Inr [exClause]"
    "regularService (s_name exService)" "wf_db exDB"
    by code_simp+
  have "let noct = scanBool (coalesce0 (s_no_conntrack exService));
             toB = ECidr (NormalizeToCIDR (p_ip_address exPeerB)); fromA = ECidr (NormalizeToCIDR (p_ip_address exPeerA))
         in renderAccept (primaryRule ruleDirSource noct toB exClause) \<in> set la \<and>
            renderAccept (returnRule ruleDirSource noct toB exClause) \<in> set la \<and>
            renderAccept (primaryRule ruleDirTarget noct fromA exClause) \<in> set lb \<and>
            renderAccept (returnRule ruleDirTarget noct fromA exClause) \<in> set lb"
    by (rule Compile_both_ends [OF c e(3), where row = exPolicy and pcs = "[exClause]"])
      (simp_all add: n e, simp_all add: ex_defs)
  then show ?thesis
    using c unfolding n Let_def by (auto simp: exPeerA_def exPeerB_def)
qed

end
