(* ===== verification/Agent_Bundle.thy ===== *)
theory Agent_Bundle
  imports Bundle_Text
begin

text \<open>
  How the agent reads a bundle (\<^verbatim>\<open>internal/agent/apply/validate.go\<close> and \<^verbatim>\<open>ipset.go\<close>):
  the checks before a bundle is applied, and the separation of the set definitions from the
  filter table. The theorems relate both to the text the compiler writes.
\<close>

section \<open>Validation\<close>

definition IsNftFormat :: "string \<Rightarrow> bool" where
  "IsNftFormat content = (containsStr content ''table '' \<and> \<not> containsStr content ''*filter'')"

text \<open>The prefixes of a line that is counted without further checks.\<close>

definition rulePrefixes :: "string list" where
  "rulePrefixes =
     [''-A'', ''-P'', ''-N'', ''-X'', ''-F'', ''-Z'', ''-I'', ''-D'', ''-R'', ''-L'', ''-S'', ''-E'',
      '':'', ''*'', ''COMMIT'', ''create '', ''add '']"

text \<open>The expression \<^verbatim>\<open>^[A-Z].*\<close>.\<close>

definition malformedLineRe :: "string \<Rightarrow> bool" where
  "malformedLineRe s = (s \<noteq> [] \<and> isUpper (hd s))"

text \<open>The loop over the lines: the number of counted lines, or the first malformed one.\<close>

fun countLines :: "string list \<Rightarrow> nat \<Rightarrow> nat res" where
  "countLines [] validLineCount = Inr validLineCount"
| "countLines (line # lines) validLineCount =
     (let trimmed = trimSpace line in
      if trimmed = [] \<or> hasPrefix trimmed ''#'' then countLines lines validLineCount
      else if list_ex (hasPrefix trimmed) rulePrefixes \<or> malformedLineRe trimmed
      then countLines lines (Suc validLineCount)
      else Inl (Leaf (''possibly malformed line: '' @ take 50 trimmed)))"

definition validateRules :: "string \<Rightarrow> unit res" where
  "validateRules content =
     (if trimSpace content = [] then Inl (Leaf ''rules content is empty'')
      else if IsNftFormat content then
        (if \<not> containsStr content ''table ip filter''
         then Inl (Leaf ''nft-format rules missing 'table ip filter' declaration'')
         else if countByte content NL > 10000
         then Inl (Leaf ''too many lines in nft rules, refusing to apply'')
         else Inr ())
      else if \<not> containsStr content ''*filter'' then Inl (Leaf ''missing *filter table'')
      else if \<not> containsStr content ''COMMIT'' then Inl (Leaf ''missing COMMIT'')
      else if \<not> containsStr content '':INPUT DROP'' then Inl (Leaf ''missing :INPUT DROP chain'')
      else if \<not> containsStr content '':OUTPUT DROP'' then Inl (Leaf ''missing :OUTPUT DROP chain'')
      else
        bindE (countLines (splitByte NL content) 0) (\<lambda>validLineCount.
          if validLineCount = 0 then Inl (Leaf ''no valid iptables rules found'')
          else if validLineCount > 10000 then Inl (Leaf ''too many rules, refusing to apply'')
          else Inr ()))"

section \<open>The set definitions\<close>

record ipsetDef =
  id_Name :: string
  id_Type :: string
  id_Family :: string
  id_Members :: "string list"

definition ipsetMarker :: string where
  "ipsetMarker = ''# --- Ipset Definitions ---''"

definition extractIpsetSection :: "string \<Rightarrow> string res" where
  "extractIpsetSection content =
     (case indexStr content ipsetMarker of
        None \<Rightarrow> Inr []
      | Some startIdx \<Rightarrow>
          (case indexStr (drop startIdx content) ''*filter'' of
             None \<Rightarrow> Inl (Leaf ''ipset section found but no *filter marker after it'')
           | Some filterIdx \<Rightarrow> Inr (trimSpace (take filterIdx (drop startIdx content)))))"

definition stripIpsetSection :: "string \<Rightarrow> string" where
  "stripIpsetSection content =
     (case indexStr content ipsetMarker of
        None \<Rightarrow> content
      | Some startIdx \<Rightarrow>
          (case indexStr (drop startIdx content) ''*filter'' of
             None \<Rightarrow> content
           | Some filterIdx \<Rightarrow>
               (let before = trimRightByte NL (take startIdx content);
                    after = drop (startIdx + filterIdx) content
                in (if before \<noteq> [] then before @ [NL] else before) @ after)))"

text \<open>
  The loop state: the map of pointers and the order of creation. Creating a name again replaces
  the definition in the map and lists the name twice.
\<close>

type_synonym defState = "(string \<rightharpoonup> ipsetDef) \<times> string list"

definition createDef :: "string list \<Rightarrow> defState \<Rightarrow> defState res" where
  "createDef fs st =
     (if length fs < 3 then Inl (Leaf ''malformed create line'')
      else if length fs > 3 \<and> fs ! 3 = ''family'' \<and> length fs < 5 then Inl (Leaf ''malformed create line'')
      else
        let family = (if length fs > 3 \<and> fs ! 3 = ''family'' then fs ! 4 else ''inet'')
        in Inr ((fst st)(fs ! 1 \<mapsto> \<lparr>id_Name = fs ! 1, id_Type = fs ! 2, id_Family = family, id_Members = []\<rparr>),
                snd st @ [fs ! 1]))"

definition addMember :: "string list \<Rightarrow> defState \<Rightarrow> defState res" where
  "addMember fs st =
     (if length fs < 3 then Inl (Leaf ''malformed add line'')
      else case fst st (fs ! 1) of
        Some def \<Rightarrow> Inr ((fst st)(fs ! 1 \<mapsto> def\<lparr>id_Members := id_Members def @ [fs ! 2]\<rparr>), snd st)
      | None \<Rightarrow> Inl (Leaf ''add for unknown ipset''))"

fun defLines :: "string list \<Rightarrow> defState \<Rightarrow> defState res" where
  "defLines [] st = Inr st"
| "defLines (line # lines) st =
     (let trimmed = trimSpace line in
      if trimmed = [] \<or> hasPrefix trimmed ''#'' then defLines lines st
      else let fs = stringFields trimmed in
        if length fs < 2 then defLines lines st
        else if fs ! 0 = ''create'' then bindE (createDef fs st) (defLines lines)
        else if fs ! 0 = ''add'' then bindE (addMember fs st) (defLines lines)
        else defLines lines st)"

definition parseIpsetDefs :: "string \<Rightarrow> ipsetDef list res" where
  "parseIpsetDefs section =
     bindE (defLines (splitByte NL section) (Map.empty, []))
       (\<lambda>(defs, order). Inr (map (\<lambda>name. the (defs name)) order))"

section \<open>Compiled bundles pass validation\<close>

text \<open>Trimming keeps a line that starts and ends with printable characters.\<close>

definition plainChar :: "char \<Rightarrow> bool" where
  "plainChar c = (tokenChar c \<or> c = CHR '' '' \<or> c = NL)"

definition blankChar :: "char \<Rightarrow> bool" where
  "blankChar c = (c = CHR '' '' \<or> c = NL)"

lemma units_token: "tokenChar c \<Longrightarrow> units (c # s) = (False, [c]) # units s"
  by (simp add: spaceLen_tokenChar)

lemma spaceLen_blank: "spaceLen (CHR '' '' # s) = 1" "spaceLen (NL # s) = 1"
  by (simp_all add: spaceLen_def)

lemma units_blank: "blankChar c \<Longrightarrow> units (c # s) = (True, [c]) # units s"
  unfolding blankChar_def by (elim disjE) (simp_all add: spaceLen_blank)

lemma tokenChar_not_blank: "tokenChar c \<Longrightarrow> \<not> blankChar c"
  by (auto simp: tokenChar_def blankChar_def)

lemma units_plain: "list_all plainChar p \<Longrightarrow> units (p @ s) = map (\<lambda>c. (blankChar c, [c])) p @ units s"
proof (induction p)
  case (Cons c p)
  then consider "tokenChar c" | "blankChar c" by (auto simp: plainChar_def blankChar_def)
  then show ?case
  proof cases
    case 1
    with Cons show ?thesis by (simp add: units_token tokenChar_not_blank del: units.simps)
  next
    case 2
    with Cons show ?thesis by (simp add: units_blank del: units.simps)
  qed
qed simp

lemma trimSpace_keeps_prefix:
  assumes "list_all plainChar q" "q \<noteq> []" "tokenChar (hd q)" "tokenChar (last q)"
  shows "hasPrefix (trimSpace (q @ s)) q"
proof -
  let ?u = "map (\<lambda>c. (blankChar c, [c])) q"
  have "\<not> blankChar (hd q)" "\<not> blankChar (last q)" using assms(3,4) by (auto dest: tokenChar_not_blank)
  then have front: "dropWhile fst (?u @ units s) = ?u @ units s"
    using assms(2) by (cases q) auto
  have "dropWhile fst (rev ?u) = rev ?u"
    using \<open>\<not> blankChar (last q)\<close> assms(2) by (cases q rule: rev_cases) auto
  then have "\<exists>v. rev (dropWhile fst (rev (?u @ units s))) = ?u @ v"
    by (auto simp: dropWhile_append rev_map)
  with front obtain v where "trimSpace (q @ s) = concat (map snd (?u @ v))"
    unfolding trimSpace_def units_plain [OF assms(1)] by metis
  moreover have "concat (map snd ?u) = q" by (induction q) auto
  ultimately show ?thesis by (simp add: hasPrefix_iff)
qed

lemma trimSpace_plain:
  assumes "list_all plainChar s" "s \<noteq> []" "tokenChar (hd s)" "tokenChar (last s)" "list_all blankChar t"
  shows "trimSpace (s @ t) = s"
proof -
  let ?u = "\<lambda>s. map (\<lambda>c. (blankChar c, [c])) s"
  have "list_all plainChar t" using assms(5) by (auto simp: list_all_iff plainChar_def blankChar_def)
  then have u: "units (s @ t) = ?u s @ ?u t"
    using units_plain [OF assms(1), of t] units_plain [of t "[]"] by simp
  have "\<not> blankChar (hd s)" "\<not> blankChar (last s)" using assms(3,4) by (auto dest: tokenChar_not_blank)
  then have "dropWhile fst (?u s @ ?u t) = ?u s @ ?u t"
    using assms(2) by (cases s) simp_all
  moreover have "dropWhile fst (rev (?u s)) = rev (?u s)"
    using \<open>\<not> blankChar (last s)\<close> assms(2) by (cases s rule: rev_cases) simp_all
  moreover have "\<forall>x \<in> set (rev (?u t)). fst x" using assms(5) by (auto simp: list_all_iff)
  ultimately have "rev (dropWhile fst (rev (dropWhile fst (?u s @ ?u t)))) = ?u s"
    by (simp add: dropWhile_append)
  moreover have "concat (map snd (?u s)) = s" by (induction s) auto
  ultimately show ?thesis unfolding trimSpace_def u by simp
qed

text \<open>The lines a bundle is made of.\<close>

definition payloadPrefixes :: "string list" where
  "payloadPrefixes = [''#'', ''-A'', '':'', ''*'', ''COMMIT'', ''create r'', ''add r'']"

definition payloadLine :: "string \<Rightarrow> bool" where
  "payloadLine l = (l = [] \<or> list_ex (hasPrefix l) payloadPrefixes)"

definition counted :: "string \<Rightarrow> bool" where
  "counted l = (trimSpace l \<noteq> [] \<and> \<not> hasPrefix (trimSpace l) ''#'')"

lemma trimSpace_Nil [simp]: "trimSpace [] = []"
  by (simp add: trimSpace_def)

lemma hasPrefix_trans: "hasPrefix s p \<Longrightarrow> hasPrefix p q \<Longrightarrow> hasPrefix s q"
  by (auto simp: hasPrefix_iff)

lemma payloadPrefix_trimmed:
  assumes "p \<in> set payloadPrefixes" "hasPrefix l p"
  shows "hasPrefix (trimSpace l) p"
proof -
  have "list_all (\<lambda>q. list_all plainChar q \<and> q \<noteq> [] \<and> tokenChar (hd q) \<and> tokenChar (last q)) payloadPrefixes" by code_simp
  with assms trimSpace_keeps_prefix [of p] show ?thesis by (auto simp: list_all_iff hasPrefix_iff [of l])
qed

lemma payloadLine_accepted:
  assumes "payloadLine l" "counted l"
  shows "list_ex (hasPrefix (trimSpace l)) rulePrefixes"
proof -
  from assms obtain p where p: "p \<in> set payloadPrefixes" "hasPrefix l p" by (auto simp: payloadLine_def counted_def list_ex_iff)
  note t = payloadPrefix_trimmed [OF p]
  with assms(2) have "p \<noteq> ''#''" by (auto simp: counted_def)
  with p(1) have "\<exists>q \<in> set rulePrefixes. hasPrefix p q"
    by (auto simp: payloadPrefixes_def rulePrefixes_def)
  with t show ?thesis by (auto simp: list_ex_iff intro: hasPrefix_trans)
qed

lemma countLines_payload: "list_all payloadLine ls \<Longrightarrow> countLines ls k = Inr (k + length (filter counted ls))"
proof (induction ls arbitrary: k)
  case (Cons l ls)
  show ?case
  proof (cases "counted l")
    case True
    then have "list_ex (hasPrefix (trimSpace l)) rulePrefixes" using Cons.prems payloadLine_accepted by simp
    moreover have "trimSpace l \<noteq> []" "\<not> hasPrefix (trimSpace l) ''#''" using True by (simp_all add: counted_def)
    ultimately show ?thesis using Cons True by (simp add: Let_def)
  next
    case False
    with Cons show ?thesis by (auto simp: counted_def)
  qed
qed simp

lemma payloadLine_simps [simp]:
  "payloadLine []" "payloadLine (CHR ''#'' # s)" "payloadLine (CHR ''-'' # CHR ''A'' # s)" "payloadLine (CHR '':'' # s)"
  "payloadLine (CHR ''*'' # s)" "payloadLine (''COMMIT'' @ s)" "payloadLine (''create r'' @ s)" "payloadLine (''add r'' @ s)"
  by (simp_all add: payloadLine_def payloadPrefixes_def)

lemma payloadLine_joinRuleParts [simp]: "payloadLine (joinRuleParts ((CHR ''-'' # CHR ''A'' # x) # xs))"
  by (cases "filter (\<lambda>p. p \<noteq> []) xs") (simp_all add: joinRuleParts_def)

lemma payload_rules [simp]:
  "list_all payloadLine (logDropRule act chain m)" "list_all payloadLine (acceptInternetRules pol pc host docker noct)"
  "list_all payloadLine (rw_accept chain m)" "list_all payloadLine (rw_drop chain m)" "list_all payloadLine (rw_logDrop chain m)"
  by (simp_all add: logDropRule_def acceptInternetRules_def split_beta Let_def rw_accept_def rw_drop_def rw_logDrop_def)

lemma okE_any: "(\<And>v. okE P (f v)) \<Longrightarrow> okE P (bindE m f)"
  by (rule okE_bindE)

lemma payload_ipset: "okE payloadLine (acceptIpsetRules pol pc n host docker noct dir)"
  by (auto simp: acceptIpsetRules_def split_beta Let_def intro!: okE_bindE_list okE_intros)

lemma payload_cidr: "okE payloadLine (acceptCidrRules pol pc cidrs ip host docker noct dir mt)"
  unfolding acceptCidrRules_def split_beta Let_def
  by (intro okE_any okE_bindE_list okE_concatMapE okE_if okE_whenE okE_dirSwitch okE_Inr okE_bindE_list [OF okE_concatMapE])
     (auto simp: list_all_iff)

lemma payload_logDrop: "okE payloadLine (logDropClause pol pc useIpset n cidrs ip host docker dir)"
  unfolding logDropClause_def Let_def
  by (intro okE_if okE_any okE_bindE_list [OF okE_whenE] okE_concatMapE okE_dirSwitch okE_Inr okE_Inl) simp_all

lemma payload_writeRules: "okE payloadLine (writeRules pol pcs useIpset ipsetName cidrs ip host docker noct dir mt)"
  by (auto simp: writeRules_def buildAcceptRules_def buildLogDropRules_def
      intro!: okE_intros okE_bindE payload_ipset payload_cidr payload_logDrop)

lemma payload_fixed [simp]:
  "list_all payloadLine (writeMulticastRule act scope d)" "list_all payloadLine (writeBroadcastRule act scope d addr proto)"
  "list_all payloadLine (multicastEgress pol host docker)" "list_all payloadLine (buildInternetFallbackRules pol pcs host docker noct)"
  "list_all payloadLine (writeIGMPRules scope d)" "list_all payloadLine (writeVRRPRules scope d)"
  "list_all payloadLine (writeLoggingSection d)" "list_all payloadLine (writeFilterTableHeader d)"
  "list_all payloadLine (writeStandardRules d port)" "list_all payloadLine (writePayloadHeader now h pols i sets)"
  by (auto simp: writeMulticastRule_def writeBroadcastRule_def multicastEgress_def buildInternetFallbackRules_def
      writeIGMPRules_def writeVRRPRules_def writeLoggingSection_def writeFilterTableHeader_def writeStandardRules_def
      writePayloadHeader_def scopeFlags_def rw_writeAction_def split_beta Let_def
      list_all_iff [where xs = "concat _"] payload_rules [unfolded list_all_iff, THEN bspec])

lemma payload_comment: "list_all payloadLine body \<Longrightarrow> okE payloadLine (Inr ((CHR ''#'' # c) # body))"
  by (simp add: okE_def)

lemma payload_broadcasts: "list_all payloadLine (concat (map (\<lambda>cidr. writeBroadcastRule act scope d cidr proto) cidrs))"
  by (induction cidrs) simp_all

lemma payload_target: "okE payloadLine (writeTargetSection db pol pcs svc proto sets d i ip host docker noct)"
  unfolding writeTargetSection_def Let_def append_Cons
  by (intro okE_if okE_Inl okE_Inr okE_bindE_list [OF _ payload_comment] okE_any payload_writeRules payload_broadcasts) simp_all

lemma payload_source: "okE payloadLine (writeSourceSection db peerID pol pcs svc sets i ip host docker noct)"
  unfolding writeSourceSection_def Let_def append_Cons
  by (intro okE_if okE_Inl okE_Inr okE_bindE_list [OF _ payload_comment] okE_any payload_writeRules) simp_all

lemma payload_policy: "okE payloadLine (writeSinglePolicy db peerID svcs sets d i ip pol)"
  unfolding writeSinglePolicy_def split_beta Let_def
  by (cases "map_of svcs (pol_ServiceID pol)")
     (auto intro!: okE_intros okE_any okE_bindE_list [OF payload_target] okE_bindE_list [OF payload_source])

lemma resolveIPSetDefinitions_named:
  assumes "resolveIPSetDefinitions db i order names = Inr (sets, idm)" "st \<in> set sets"
  shows "\<exists>n. is_Name st = ipsetGroupPrefix @ sanitizeForIpset n" and "is_SetType st = ''hash:net''"
    and "\<forall>m \<in> set (is_Members st). cidrText m"
proof -
  obtain g where g: "resolveOneIpset db names g = Inr st"
    using assms by (auto simp: resolveIPSetDefinitions_def bindE_eq_Inr split: if_splits dest!: mapE_Inr_origin)
  then show "\<exists>n. is_Name st = ipsetGroupPrefix @ sanitizeForIpset n" "is_SetType st = ''hash:net''"
    by (auto simp: resolveOneIpset_def bindE_eq_Inr Let_def)
  from g show "\<forall>m \<in> set (is_Members st). cidrText m"
    by (auto simp: resolveOneIpset_def bindE_eq_Inr Let_def resolveGroupForIpset_def ValidateGroupCIDR_def
        dest!: mapE_Inr_origin intro!: cidrText_normalized)
qed

lemma payload_sets:
  assumes "\<And>st. st \<in> set sets \<Longrightarrow> \<exists>n. is_Name st = ipsetGroupPrefix @ n"
  shows "okE payloadLine (writeIpsetDefinitions i sets)"
proof -
  have "payloadLine (''create '' @ is_Name st @ x)" "payloadLine (''add '' @ is_Name st @ x)" if "st \<in> set sets" for st x
    using assms [OF that] by (auto simp: payloadLine_def payloadPrefixes_def)
  then show ?thesis
    unfolding writeIpsetDefinitions_def
    by (intro okE_bindE_list okE_if okE_Inr okE_concatMapE okE_any)
       (auto simp: list_all_iff payloadLine_def payloadPrefixes_def)
qed

lemma CompileLines_payload: "CompileLines db now peerID = Inr ls \<Longrightarrow> list_all payloadLine ls"
proof (elim CompileLines_elim)
  fix h ip d i svcs order names sets idm
  assume r: "resolveIPSetDefinitions db i order names = Inr (sets, idm)"
    and g: "generateIptablesPayload db now peerID h ip d i (applicablePolicies db peerID) svcs sets idm
       (loadControlPlanePort db) = Inr ls"
  have "okE payloadLine (writeIpsetDefinitions i sets)"
    by (rule payload_sets) (use resolveIPSetDefinitions_named(1) [OF r] in blast)
  moreover have "okE payloadLine (writePolicySection db peerID (applicablePolicies db peerID) svcs idm d i ip)"
    unfolding writePolicySection_def by (intro okE_concatMapE payload_policy)
  ultimately show "list_all payloadLine ls"
    using g by (auto simp: generateIptablesPayload_def bindE_eq_Inr okE_def payloadLine_def payloadPrefixes_def)
qed

lemma containsStr_unlines: "l \<in> set ls \<Longrightarrow> containsStr l p \<Longrightarrow> containsStr (unlines ls) p"
proof (induction ls)
  case (Cons k ls)
  then consider "containsStr k p" | "containsStr (unlines ls) p" by auto
  then show ?case
  proof cases
    case 1
    then obtain a b where "k = a @ p @ b" by (auto simp: containsStr_iff)
    then have "unlines (k # ls) = a @ p @ (b @ [NL] @ unlines ls)" by simp
    then show ?thesis unfolding containsStr_iff by blast
  next
    case 2
    then obtain a b where "unlines ls = a @ p @ b" by (auto simp: containsStr_iff)
    then have "unlines (k # ls) = (k @ [NL] @ a) @ p @ b" by simp
    then show ?thesis unfolding containsStr_iff by blast
  qed
qed simp

lemma payload_table_lines:
  assumes "CompileLines db now peerID = Inr ls"
  shows "''*filter'' \<in> set ls" "'':INPUT DROP [0:0]'' \<in> set ls" "'':OUTPUT DROP [0:0]'' \<in> set ls" "''COMMIT'' \<in> set ls"
    "\<exists>rest. ls = ''# Runic rule bundle'' # rest"
  using assms
  by (auto elim!: CompileLines_elim simp: generateIptablesPayload_def bindE_eq_Inr writeFilterTableHeader_def
      writePayloadHeader_def)

lemma validateRules_unlines:
  assumes "CompileLines db now peerID = Inr ls" and "cleanText db" and "oneLine now" and "length ls \<le> 10000"
  shows "validateRules (unlines ls) = Inr ()"
proof -
  note lines = payload_table_lines [OF assms(1)]
  have split: "splitByte NL (unlines ls) = ls @ [[]]"
    using CompileLines_oneLine [OF assms(2,3)] assms(1) by (intro splitByte_unlines) (simp add: okE_def)
  have has: "containsStr (unlines ls) ''*filter''" "containsStr (unlines ls) ''COMMIT''"
    "containsStr (unlines ls) '':INPUT DROP''" "containsStr (unlines ls) '':OUTPUT DROP''"
    by (rule containsStr_unlines, rule lines(1) lines(2) lines(3) lines(4), code_simp)+
  have "hasPrefix (trimSpace (unlines ls)) ''#''"
    using trimSpace_keeps_prefix [of "''#''"] lines(5) by (auto simp: plainChar_def tokenChar_def)
  then have ne: "trimSpace (unlines ls) \<noteq> []" by auto
  have "counted ''*filter''" by code_simp
  with lines(1) have pos: "0 < length (filter counted (ls @ [[]]))" by (auto simp: filter_empty_conv)
  have "length (filter counted (ls @ [[]])) \<le> 10000"
    using le_trans [OF length_filter_le assms(4)] by (simp add: counted_def)
  moreover have "countLines (splitByte NL (unlines ls)) 0 = Inr (length (filter counted (ls @ [[]])))"
    using countLines_payload [of "ls @ [[]]" 0] CompileLines_payload [OF assms(1)] by (simp add: split)
  ultimately show ?thesis
    using has ne pos by (simp add: validateRules_def IsNftFormat_def)
qed



section \<open>The set definitions survive the trip\<close>

lemma indexStr_unlines:
  assumes "NL \<notin> set p" "p \<noteq> []" "\<forall>l \<in> set pre. \<not> containsStr l p"
  shows "indexStr (unlines pre @ s) p = map_option (\<lambda>i. i + length (unlines pre)) (indexStr s p)"
  using assms(3)
proof (induction pre)
  case (Cons l pre)
  then have "indexStr (unlines pre @ s) p = map_option (\<lambda>i. i + length (unlines pre)) (indexStr s p)" by simp
  with Cons indexStr_line [OF assms(1,2), of l "unlines pre @ s"] show ?case
    by (cases "indexStr s p") simp_all
qed (simp add: option.map_ident)

text \<open>A text with a set section: the lines around the marker and the start of the table.\<close>

lemma section_indices:
  assumes "\<forall>l \<in> set pre. \<not> containsStr l ipsetMarker" "\<forall>l \<in> set body. \<not> containsStr l ''*filter''"
    and "content = unlines (pre @ (ipsetMarker # body) @ ''*filter'' # post)"
  shows "indexStr content ipsetMarker = Some (length (unlines pre))"
    and "indexStr (drop (length (unlines pre)) content) ''*filter'' = Some (length (unlines (ipsetMarker # body)))"
proof -
  have m: "NL \<notin> set ipsetMarker" "ipsetMarker \<noteq> []" "\<not> containsStr ipsetMarker ''*filter''" "NL \<notin> set ''*filter''" by code_simp+
  have "indexStr (unlines ((ipsetMarker # body) @ ''*filter'' # post)) ipsetMarker = Some 0"
    by (rule indexStr_prefix) (simp add: hasPrefix_iff)
  then show "indexStr content ipsetMarker = Some (length (unlines pre))"
    unfolding assms(3) unlines_append [of pre] indexStr_unlines [OF m(1,2) assms(1)] by simp
  have "indexStr (unlines (''*filter'' # post)) ''*filter'' = Some 0"
    by (rule indexStr_prefix) simp
  moreover have "\<forall>l \<in> set (ipsetMarker # body). \<not> containsStr l ''*filter''" using assms(2) m(3) by simp
  moreover have "drop (length (unlines pre)) content = unlines (ipsetMarker # body) @ unlines (''*filter'' # post)"
    unfolding assms(3) unlines_append by simp
  ultimately show "indexStr (drop (length (unlines pre)) content) ''*filter'' = Some (length (unlines (ipsetMarker # body)))"
    using indexStr_unlines [OF m(4), of "ipsetMarker # body" "unlines (''*filter'' # post)"] by simp
qed

lemma section_extracted:
  assumes "\<forall>l \<in> set pre. \<not> containsStr l ipsetMarker" "\<forall>l \<in> set body. \<not> containsStr l ''*filter''"
    and "content = unlines (pre @ (ipsetMarker # body) @ ''*filter'' # post)"
  shows "extractIpsetSection content = Inr (trimSpace (unlines (ipsetMarker # body)))"
    and "stripIpsetSection content =
      (let before = trimRightByte NL (unlines pre) in (if before \<noteq> [] then before @ [NL] else before) @ unlines (''*filter'' # post))"
proof -
  let ?n = "length (unlines pre)" and ?k = "length (unlines (ipsetMarker # body))"
  have d: "drop ?n content = unlines (ipsetMarker # body) @ unlines (''*filter'' # post)" and t: "take ?n content = unlines pre"
    unfolding assms(3) unlines_append by simp_all
  have "take ?k (drop ?n content) = unlines (ipsetMarker # body)" "drop (?n + ?k) content = unlines (''*filter'' # post)"
    unfolding add.commute [of ?n] drop_drop [symmetric] d by simp_all
  then show "extractIpsetSection content = Inr (trimSpace (unlines (ipsetMarker # body)))"
    "stripIpsetSection content =
      (let before = trimRightByte NL (unlines pre) in (if before \<noteq> [] then before @ [NL] else before) @ unlines (''*filter'' # post))"
    unfolding extractIpsetSection_def stripIpsetSection_def section_indices [OF assms] option.case t by simp_all
qed

text \<open>Reading the definitions, line by line.\<close>

lemma plain_token: "isToken t \<Longrightarrow> list_all plainChar t \<and> t \<noteq> [] \<and> tokenChar (hd t) \<and> tokenChar (last t)"
  by (auto simp: isToken_def list_all_iff plainChar_def)

lemma trimmed_line:
  assumes "isToken a" "list_all plainChar m" "isToken b"
  shows "trimSpace (a @ m @ b) = a @ m @ b"
  using trimSpace_plain [of "a @ m @ b" "[]"] plain_token [OF assms(1)] plain_token [OF assms(3)] assms(2) by simp

definition createLine :: "string \<Rightarrow> string \<Rightarrow> string" where
  "createLine n t = ''create '' @ n @ '' '' @ t @ '' family inet''"

definition addLine :: "string \<Rightarrow> string \<Rightarrow> string" where
  "addLine n m = ''add '' @ n @ '' '' @ m"

lemma literal_tokens [simp]: "isToken ''create''" "isToken ''add''" "isToken ''family''" "isToken ''inet''" "isToken ''hash:net''"
    "isToken ''runic_private_ranges''"
  by code_simp+

lemma createLine_read:
  assumes "isToken n" "isToken t"
  shows "trimSpace (createLine n t) = createLine n t" "\<not> hasPrefix (createLine n t) ''#''"
    "stringFields (createLine n t) = [''create'', n, t, ''family'', ''inet'']"
proof -
  have e: "createLine n t = ''create'' @ ('' '' @ n @ '' '' @ t @ '' family '') @ ''inet''" by (simp add: createLine_def)
  have "list_all plainChar ('' '' @ n @ '' '' @ t @ '' family '')"
    using plain_token [OF assms(1)] plain_token [OF assms(2)] by (simp add: plainChar_def tokenChar_def)
  then show "trimSpace (createLine n t) = createLine n t" unfolding e by (intro trimmed_line) simp_all
  show "\<not> hasPrefix (createLine n t) ''#''" by (simp add: createLine_def)
  have "createLine n t = ''create'' @ CHR '' '' # n @ CHR '' '' # t @ CHR '' '' # ''family'' @ CHR '' '' # ''inet''"
    by (simp add: createLine_def)
  then show "stringFields (createLine n t) = [''create'', n, t, ''family'', ''inet'']"
    using assms by (simp only: stringFields_token_space stringFields_token literal_tokens)
qed

lemma addLine_read:
  assumes "isToken n" "isToken m"
  shows "trimSpace (addLine n m) = addLine n m" "\<not> hasPrefix (addLine n m) ''#''"
    "stringFields (addLine n m) = [''add'', n, m]"
proof -
  have e: "addLine n m = ''add'' @ ('' '' @ n @ '' '') @ m" by (simp add: addLine_def)
  have "list_all plainChar ('' '' @ n @ '' '')" using plain_token [OF assms(1)] by (simp add: plainChar_def)
  then show "trimSpace (addLine n m) = addLine n m" unfolding e using assms(2) by (intro trimmed_line) simp_all
  show "\<not> hasPrefix (addLine n m) ''#''" by (simp add: addLine_def)
  have "addLine n m = ''add'' @ CHR '' '' # n @ CHR '' '' # m" by (simp add: addLine_def)
  then show "stringFields (addLine n m) = [''add'', n, m]"
    using assms by (simp only: stringFields_token_space stringFields_token literal_tokens)
qed

lemma defLines_skip: "trimSpace l = [] \<or> hasPrefix (trimSpace l) ''#'' \<Longrightarrow> defLines (l # ls) st = defLines ls st"
  by auto

lemma defLines_create:
  assumes "isToken n" "isToken t"
  shows "defLines (createLine n t # ls) (m, ord) =
    defLines ls (m(n \<mapsto> \<lparr>id_Name = n, id_Type = t, id_Family = ''inet'', id_Members = []\<rparr>), ord @ [n])"
proof -
  have "createLine n t \<noteq> []" by (simp add: createLine_def)
  then show ?thesis by (simp add: createLine_read [OF assms] createDef_def Let_def)
qed

lemma defLines_adds:
  assumes "isToken n" "list_all isToken ms"
  shows "m n = Some d \<Longrightarrow> defLines (map (addLine n) ms @ ls) (m, ord) = defLines ls (m(n \<mapsto> d\<lparr>id_Members := id_Members d @ ms\<rparr>), ord)"
  using assms(2)
proof (induction ms arbitrary: m d)
  case Nil
  then show ?case by (simp add: fun_upd_idem)
next
  case (Cons x ms)
  have "addLine n x \<noteq> []" by (simp add: addLine_def)
  with Cons assms(1) show ?case by (simp add: addLine_read addMember_def Let_def fun_upd_def cong: if_cong)
qed

text \<open>The lines of one set as the compiler writes them, and the definition the agent should read.\<close>

definition setBlock :: "ipsetData \<Rightarrow> string list" where
  "setBlock st = createLine (is_Name st) (is_SetType st) # map (addLine (is_Name st)) (is_Members st) @ [[]]"

definition agentDef :: "ipsetData \<Rightarrow> ipsetDef" where
  "agentDef st = \<lparr>id_Name = is_Name st, id_Type = is_SetType st, id_Family = ''inet'', id_Members = is_Members st\<rparr>"

definition setTokens :: "ipsetData \<Rightarrow> bool" where
  "setTokens st = (isToken (is_Name st) \<and> isToken (is_SetType st) \<and> list_all isToken (is_Members st))"

lemma defLines_block:
  "setTokens st \<Longrightarrow> defLines (setBlock st @ ls) (m, ord) = defLines ls (m(is_Name st \<mapsto> agentDef st), ord @ [is_Name st])"
  by (simp add: setBlock_def setTokens_def defLines_create defLines_adds agentDef_def defLines_skip del: defLines.simps(2))

lemma defLines_blocks:
  assumes "list_all setTokens sets"
  shows "defLines (concat (map setBlock sets) @ ls) (m, ord) =
    defLines ls (m ++ map_of (rev (map (\<lambda>st. (is_Name st, agentDef st)) sets)), ord @ map is_Name sets)"
  using assms by (induction sets arbitrary: m ord) (simp_all add: defLines_block del: defLines.simps(2))

text \<open>The set of the private ranges, which is written after the groups.\<close>

definition privateSet :: ipsetData where
  "privateSet = \<lparr>is_Name = ''runic_private_ranges'', is_SetType = ''hash:net'', is_Members = privateFallbackCIDRList\<rparr>"

lemma setTokens_private [simp]: "setTokens privateSet"
  by code_simp

lemma ipsetFamily_inet: "ipsetFamilyForMembers ms = Inr f \<Longrightarrow> f = ''inet''"
  by (auto simp: ipsetFamilyForMembers_def bindE_eq_Inr split: if_splits prod.splits)

lemma concatMapE_blocks:
  assumes "concatMapE f sets = Inr r" "\<And>x ys. x \<in> set sets \<Longrightarrow> f x = Inr ys \<Longrightarrow> ys = g x"
  shows "r = concat (map g sets)"
proof -
  from assms(1) obtain yss where m: "mapE f sets = Inr yss" and r: "r = concat yss"
    by (auto simp: concatMapE_def bindE_eq_Inr)
  from m have "list_all2 (\<lambda>x y. f x = Inr y) sets yss" by (simp add: mapE_Inr_iff)
  with assms(2) have "yss = map g sets"
    by (auto simp: list_all2_conv_all_nth intro!: nth_equalityI)
  then show ?thesis by (simp add: r)
qed

lemma writeIpsetDefinitions_blocks:
  assumes "writeIpsetDefinitions True sets = Inr ls" "sets \<noteq> []"
  shows "ls = [[], ipsetMarker] @ concat (map setBlock sets) @
    [''# --- Ipset: Private Ranges for __internet__ exclusion (IPv4-only) ---''] @ setBlock privateSet"
proof -
  from assms obtain gs where
    c: "concatMapE (\<lambda>is. bindE (wrapE ''ipset'' (ipsetFamilyForMembers (is_Members is))) (\<lambda>family.
         Inr ([''create '' @ is_Name is @ '' '' @ is_SetType is @ '' family '' @ family] @
              map (\<lambda>member. ''add '' @ is_Name is @ '' '' @ member) (is_Members is) @ [[]]))) sets = Inr gs" and
    ls: "ls = [[], ipsetMarker] @ gs @ [''# --- Ipset: Private Ranges for __internet__ exclusion (IPv4-only) ---'',
          ''create runic_private_ranges hash:net family inet''] @
          map (\<lambda>cidr. ''add runic_private_ranges '' @ cidr) privateFallbackCIDRList @ [[]]"
    by (auto simp: writeIpsetDefinitions_def bindE_eq_Inr ipsetMarker_def)
  have "gs = concat (map setBlock sets)"
    by (rule concatMapE_blocks [OF c])
       (auto simp: bindE_eq_Inr setBlock_def createLine_def addLine_def dest!: ipsetFamily_inet)
  with ls show ?thesis
    by (simp add: setBlock_def privateSet_def createLine_def addLine_def)
qed

definition starless :: "ipsetData \<Rightarrow> bool" where
  "starless st = (CHR ''*'' \<notin> set (is_Name st) \<and> CHR ''*'' \<notin> set (is_SetType st) \<and>
     list_all (\<lambda>m. CHR ''*'' \<notin> set m) (is_Members st))"

lemma cidrText_token: "cidrText m \<Longrightarrow> isToken m \<and> CHR ''*'' \<notin> set m"
  by (auto simp: cidrText_def isToken_def list_all_iff tokenChar_def cidrChar_def addrChar_def isHex_def Let_def)

lemma sanitize_token: "isToken (''runic_group_'' @ sanitizeForIpset n) \<and> CHR ''*'' \<notin> set (''runic_group_'' @ sanitizeForIpset n)"
proof -
  have "isLower c \<or> isDigit c \<or> c = CHR ''_''" if "c \<in> set (sanitizeForIpset n)" for c
    using that sanitizeLoop_chars by (fastforce simp: sanitizeForIpset_def Let_def dest!: in_set_takeD trimByte_subset split: if_splits)
  then show ?thesis
    by (fastforce simp: isToken_def list_all_iff tokenChar_def isLower_def isDigit_def Let_def)
qed

lemma resolved_sets:
  assumes "resolveIPSetDefinitions db i order names = Inr (sets, idm)"
  shows "list_all (\<lambda>st. setTokens st \<and> starless st \<and> is_Name st \<noteq> ''runic_private_ranges'') sets"
proof -
  have "setTokens st \<and> starless st \<and> is_Name st \<noteq> ''runic_private_ranges''" if "st \<in> set sets" for st
  proof -
    note r = resolveIPSetDefinitions_named [OF assms that]
    from r(1) obtain n where n: "is_Name st = ''runic_group_'' @ sanitizeForIpset n" by blast
    show ?thesis
      using sanitize_token [of n] r(3) cidrText_token
      unfolding setTokens_def starless_def r(2) n by (auto simp: list_all_iff)
  qed
  then show ?thesis by (simp add: list_all_iff)
qed

lemma setBlock_starless: "starless st \<Longrightarrow> l \<in> set (setBlock st) \<Longrightarrow> CHR ''*'' \<notin> set l"
  by (auto simp: setBlock_def starless_def createLine_def addLine_def list_all_iff)

definition spaced :: "string \<Rightarrow> bool" where
  "spaced l = list_all (\<lambda>c. tokenChar c \<or> c = CHR '' '') l"

lemma spaced_append [simp]: "spaced (a @ b) \<longleftrightarrow> spaced a \<and> spaced b"
  by (simp add: spaced_def)

lemma spaced_token: "isToken t \<Longrightarrow> spaced t"
  by (auto simp: spaced_def isToken_def list_all_iff)

lemma spaced_literals: "spaced ''create ''" "spaced ''add ''" "spaced '' ''" "spaced '' family inet''" "spaced ipsetMarker"
    "spaced ''# --- Ipset: Private Ranges for __internet__ exclusion (IPv4-only) ---''"
  by code_simp+

lemma spaced_plain: "spaced l \<Longrightarrow> list_all plainChar l" "spaced l \<Longrightarrow> oneLine l"
  by (auto simp: spaced_def list_all_iff plainChar_def oneLine_def tokenChar_def)

lemma spaced_setBlock:
  assumes "setTokens st"
  shows "list_all spaced (setBlock st)"
proof -
  have "spaced (createLine (is_Name st) (is_SetType st))" "\<And>m. m \<in> set (is_Members st) \<Longrightarrow> spaced (addLine (is_Name st) m)"
    using assms unfolding createLine_def addLine_def spaced_append setTokens_def
    by (auto simp only: spaced_literals list_all_iff intro: spaced_token)
  then show ?thesis by (auto simp: setBlock_def list_all_iff spaced_def)
qed

lemma plain_unlines: "list_all spaced ls \<Longrightarrow> list_all plainChar (unlines ls)"
  by (induction ls) (auto simp: spaced_plain plainChar_def)

lemma splitByte_unlines_last: "list_all oneLine ls \<Longrightarrow> oneLine l \<Longrightarrow> splitByte NL (unlines ls @ l) = ls @ [l]"
  by (induction ls) (simp_all add: splitByte_append_sep splitByte_no_sep oneLine_def)

lemma defLines_blank_end: "defLines (ls @ [[]]) st = defLines ls st"
  by (induction ls st rule: defLines.induct) (auto simp: Let_def bindE_def split: sum.splits)

text \<open>The section as the agent reads it: trailing blank lines are trimmed away, which changes nothing.\<close>

lemma parse_section:
  assumes "list_all setTokens sets" "distinct (map is_Name sets)" "''runic_private_ranges'' \<notin> set (map is_Name sets)"
  shows "parseIpsetDefs (trimSpace (unlines (ipsetMarker # concat (map setBlock sets) @
      [''# --- Ipset: Private Ranges for __internet__ exclusion (IPv4-only) ---''] @ setBlock privateSet))) =
    Inr (map agentDef sets @ [agentDef privateSet])"
proof -
  let ?c = "''# --- Ipset: Private Ranges for __internet__ exclusion (IPv4-only) ---''"
  let ?body = "concat (map setBlock sets) @ [?c] @ setBlock privateSet"
  let ?p = "butlast (butlast (setBlock privateSet))" and ?l = "addLine ''runic_private_ranges'' ''127.0.0.0/8''"
  have priv: "setBlock privateSet = ?p @ [?l, []]" by code_simp
  define S where "S = ipsetMarker # concat (map setBlock sets) @ [?c] @ ?p"
  have lines: "ipsetMarker # ?body = S @ [?l, []]" unfolding S_def by (subst priv) simp
  have "list_all spaced (ipsetMarker # ?body)"
  proof -
    have "list_all spaced (concat (map setBlock sets))"
      using assms(1) by (induction sets) (simp_all add: spaced_setBlock)
    then show ?thesis using spaced_setBlock [OF setTokens_private] spaced_literals(5,6) by simp
  qed
  then have sp: "list_all spaced S" "spaced ?l" unfolding lines by simp_all
  have "trimSpace ((unlines S @ ?l) @ [NL, NL]) = unlines S @ ?l"
  proof (rule trimSpace_plain)
    show "list_all plainChar (unlines S @ ?l)" using plain_unlines [OF sp(1)] spaced_plain(1) [OF sp(2)] by simp
    show "tokenChar (hd (unlines S @ ?l))" by (simp add: S_def ipsetMarker_def tokenChar_def)
    show "tokenChar (last (unlines S @ ?l))" by (simp add: addLine_def tokenChar_def)
  qed (simp_all add: addLine_def blankChar_def)
  then have trim: "trimSpace (unlines (ipsetMarker # ?body)) = unlines S @ ?l"
    unfolding lines by simp
  have "list_all oneLine S" using sp(1) spaced_plain(2) by (auto simp: list_all_iff)
  then have "splitByte NL (unlines S @ ?l) = S @ [?l]"
    using spaced_plain(2) [OF sp(2)] by (rule splitByte_unlines_last)
  then have "defLines (splitByte NL (unlines S @ ?l)) st = defLines (ipsetMarker # ?body) st" for st
    unfolding lines using defLines_blank_end [of "S @ [?l]" st] by simp
  moreover have "defLines (ipsetMarker # ?body) (Map.empty, []) =
      Inr ((map_of (rev (map (\<lambda>st. (is_Name st, agentDef st)) sets)))(''runic_private_ranges'' \<mapsto> agentDef privateSet),
        map is_Name sets @ [''runic_private_ranges''])"
  proof -
    have c: "hasPrefix (trimSpace ipsetMarker) ''#''" "hasPrefix (trimSpace ?c) ''#''" by code_simp+
    have n: "is_Name privateSet = ''runic_private_ranges''" by (simp add: privateSet_def)
    show ?thesis
      using defLines_block [OF setTokens_private, of "[]"]
      by (simp add: defLines_skip c defLines_blocks [OF assms(1)] n del: defLines.simps(2))
  qed
  moreover have "(map_of (rev (map (\<lambda>st. (is_Name st, agentDef st)) sets))) (is_Name st) = Some (agentDef st)" if "st \<in> set sets" for st
    using that assms(2) by (intro map_of_is_SomeI) (auto simp: rev_map [symmetric] comp_def)
  ultimately show ?thesis
    using assms(3) unfolding parseIpsetDefs_def trim by (auto simp: image_iff)
qed

lemma marker_not_in:
  assumes "CHR ''#'' \<notin> set (k # s)" "k \<noteq> CHR ''-''"
  shows "\<not> containsStr (''# '' @ k # s) ipsetMarker"
proof
  assume "containsStr (''# '' @ k # s) ipsetMarker"
  then obtain a b where e: "''# '' @ k # s = a @ ipsetMarker @ b" by (auto simp: containsStr_iff)
  show False
  proof (cases a)
    case Nil
    with e assms(2) show False by (simp add: ipsetMarker_def)
  next
    case (Cons x a')
    with e have "set (a' @ ipsetMarker @ b) = set ('' '' @ k # s)" by simp
    moreover have "CHR ''#'' \<in> set (a' @ ipsetMarker @ b)" by (simp add: ipsetMarker_def)
    ultimately show False using assms(1) by simp
  qed
qed

lemma header_unmarked:
  assumes "CHR ''#'' \<notin> set h" "CHR ''#'' \<notin> set now" "sets \<noteq> []" "l \<in> set (writePayloadHeader now h pols True sets @ [[]])"
  shows "\<not> containsStr l ipsetMarker"
proof -
  have num: "CHR ''#'' \<notin> set (itoa (int n))" for n
    using itoa_chars [of "CHR ''#''" "int n"] by (auto simp: isDigit_def)
  have hdr: "writePayloadHeader now h pols True sets @ [[]] =
      [''# '' @ CHR ''R'' # ''unic rule bundle'', ''# '' @ CHR ''H'' # ''ost: '' @ h, ''# '' @ CHR ''G'' # ''enerated: '' @ now,
       ''# '' @ CHR ''P'' # ''olicies: '' @ itoa (int (length pols)), ''# '' @ CHR ''I'' # ''psets: '' @ itoa (int (length sets)), []]"
    using assms(3) by (simp add: writePayloadHeader_def)
  have empty: "\<not> containsStr [] ipsetMarker" by code_simp
  have "list_all (\<lambda>l. \<not> containsStr l ipsetMarker) (writePayloadHeader now h pols True sets @ [[]])"
    unfolding hdr list.pred_inject
    by (intro conjI marker_not_in empty TrueI) (use assms(1,2) num in simp_all)
  with assms(4) show ?thesis unfolding list_all_iff by (rule bspec [rotated])
qed

lemma trimRight_lines: "l \<noteq> [] \<Longrightarrow> last l \<noteq> NL \<Longrightarrow> trimRightByte NL (unlines (ls @ [l, []])) = unlines ls @ l"
  by (cases l rule: rev_cases) (simp_all add: trimRightByte_def)



text \<open>
  A host with set support whose policies use no group gets a bundle that defines the
  private ranges without the marker the agent looks for. The agent then strips nothing: the
  \<^verbatim>\<open>create\<close> line stays in the text handed to \<^verbatim>\<open>iptables-restore\<close>, ahead of the table.
\<close>

theorem compiled_bundle_unstripped:
  "\<exists>ls. CompileLines exSetDB ''now'' 2 = Inr ls \<and> stripIpsetSection (unlines ls) = unlines ls \<and>
     ''create runic_private_ranges hash:net family inet'' \<in> set (takeWhile (\<lambda>l. l \<noteq> ''*filter'') ls)"
proof -
  have "(case CompileLines exSetDB ''now'' 2 of Inl _ \<Rightarrow> False
      | Inr ls \<Rightarrow> list_all (\<lambda>l. \<not> containsStr l ipsetMarker) ls \<and>
          list_ex (\<lambda>l. l = ''create runic_private_ranges hash:net family inet'') (takeWhile (\<lambda>l. l \<noteq> ''*filter'') ls))"
    by code_simp
  then obtain ls where ls: "CompileLines exSetDB ''now'' 2 = Inr ls" and m: "\<forall>l \<in> set ls. \<not> containsStr l ipsetMarker"
    and c: "''create runic_private_ranges hash:net family inet'' \<in> set (takeWhile (\<lambda>l. l \<noteq> ''*filter'') ls)"
    by (cases "CompileLines exSetDB ''now'' 2") (auto simp: list_all_iff list_ex_iff)
  have "NL \<notin> set ipsetMarker" "ipsetMarker \<noteq> []" by code_simp+
  from indexStr_unlines [OF this m, of "[]"] have "indexStr (unlines ls) ipsetMarker = None" by (simp add: ipsetMarker_def)
  then have "stripIpsetSection (unlines ls) = unlines ls" by (simp add: stripIpsetSection_def)
  with ls c show ?thesis by blast
qed

end
