(* ===== verification/Agent_Apply.thy ===== *)
theory Agent_Apply
  imports Agent_Bundle
begin

text \<open>
  How the agent applies a bundle (\<^verbatim>\<open>internal/agent/apply/applier.go\<close>, \<^verbatim>\<open>revert.go\<close>,
  \<^verbatim>\<open>restore.go\<close>, \<^verbatim>\<open>ipset.go\<close> and \<^verbatim>\<open>internal/agent/firewall/backup.go\<close>). The tools
  the agent runs (\<^verbatim>\<open>iptables\<close>, \<^verbatim>\<open>ipset\<close>, \<^verbatim>\<open>nft\<close>, \<^verbatim>\<open>systemctl\<close>), the
  answer of the control plane and the failures of the file system are the environment: the
  definitions take it as an argument, and the kernel state \<open>'k\<close> is any type. Every command is
  recorded in a log, in order.
\<close>

section \<open>Environment and state\<close>

type_synonym files = "string \<rightharpoonup> string"

datatype ioop = IOStat string | IORead string | IOWrite string | IORemove string | IOTemp string

datatype fileErr = FNotExist | FExist | FIsDir | FOther

datatype cmdfail = CmdNotFound | CmdExit int | CmdOther

datatype cmdres = CmdOK string | CmdErr cmdfail string

datatype probe = ProbeFailed | ProbeStatus int

text \<open>
  \<open>ev_fires\<close> says at which of the numbered points the auto-revert timer fires if it is armed;
  \<open>ev_temp\<close> gives the path of a temporary file.
\<close>

record 'k env =
  ev_run :: "files \<Rightarrow> string list \<Rightarrow> 'k \<Rightarrow> cmdres \<times> 'k"
  ev_probe :: "'k \<Rightarrow> probe"
  ev_iptables :: bool
  ev_docker :: bool
  ev_temp :: "string \<Rightarrow> string"
  ev_fails :: "ioop \<Rightarrow> bool"
  ev_isDir :: "string \<Rightarrow> bool"
  ev_fires :: "nat \<Rightarrow> bool"

record 'k agent =
  ag_kernel :: 'k
  ag_files :: files
  ag_timer :: "string option"
  ag_log :: "string list list"
  ag_confirmed :: "string list"

record BundleResponse =
  bu_Version :: string
  bu_VersionNumber :: int
  bu_Rules :: string
  bu_HMAC :: string

definition runCmd :: "'k env \<Rightarrow> string list \<Rightarrow> 'k agent \<Rightarrow> cmdres \<times> 'k agent" where
  "runCmd E args s =
     (case ev_run E (ag_files s) args (ag_kernel s) of
        (r, k) \<Rightarrow> (r, s\<lparr>ag_kernel := k, ag_log := ag_log s @ [args]\<rparr>))"

text \<open>A command whose failure is an error.\<close>

definition runOK :: "'k env \<Rightarrow> string \<Rightarrow> string list \<Rightarrow> (unit, 'k agent) step" where
  "runOK E msg args s =
     (case runCmd E args s of (CmdOK _, s') \<Rightarrow> (Inr (), s') | (CmdErr _ _, s') \<Rightarrow> (Inl (Leaf msg), s'))"

section \<open>Files\<close>

definition LocalBackupPath :: string where
  "LocalBackupPath = ''/var/backups/runic-agent/pre-apply-backup.rules''"

definition CachedBundlePath :: string where
  "CachedBundlePath = ''/var/cache/runic-agent/cached-bundle.rules''"

definition StartupBackupPath :: string where
  "StartupBackupPath = ''/var/backups/runic-agent/iptables-backup.rules''"

definition LegacyCachedBundlePath :: string where
  "LegacyCachedBundlePath = ''/etc/runic-agent/cached-bundle.rules''"

definition LegacyLocalBackupPath :: string where
  "LegacyLocalBackupPath = ''/etc/runic-agent/pre-apply-backup.rules''"

definition LegacyStartupBackupPath :: string where
  "LegacyStartupBackupPath = ''/etc/runic-agent/iptables-backup.rules''"

definition readFile :: "'k env \<Rightarrow> string \<Rightarrow> 'k agent \<Rightarrow> fileErr + string" where
  "readFile E path s =
     (if ev_fails E (IORead path) then Inl FOther
      else case ag_files s path of None \<Rightarrow> Inl FNotExist | Some data \<Rightarrow> Inr data)"

text \<open>
  \<^verbatim>\<open>os.Remove\<close>: a failure leaves the file; every caller of it only logs. A missing file stays
  missing.
\<close>

definition removeFile :: "'k env \<Rightarrow> string \<Rightarrow> 'k agent \<Rightarrow> 'k agent" where
  "removeFile E path s = (if ev_fails E (IORemove path) then s else s\<lparr>ag_files := (ag_files s)(path := None)\<rparr>)"

definition removeLegacyFile :: "'k env \<Rightarrow> string \<Rightarrow> 'k agent \<Rightarrow> 'k agent" where
  "removeLegacyFile E legacyPath s = removeFile E legacyPath s"

text \<open>The write either happens as a whole (the rename) or not at all.\<close>

definition WriteFileAtomic :: "'k env \<Rightarrow> string \<Rightarrow> string \<Rightarrow> (unit, 'k agent) step" where
  "WriteFileAtomic E path data s =
     (if ev_fails E (IOWrite path) then (Inl (Leaf ''atomic write''), s)
      else (Inr (), s\<lparr>ag_files := (ag_files s)(path \<mapsto> data)\<rparr>))"

definition WriteFileExclusive :: "'k env \<Rightarrow> string \<Rightarrow> string \<Rightarrow> 'k agent \<Rightarrow> fileErr option \<times> 'k agent" where
  "WriteFileExclusive E newPath data s =
     (if ag_files s newPath \<noteq> None then (Some FExist, s)
      else if ev_fails E (IOWrite newPath) then (Some FOther, s)
      else (None, s\<lparr>ag_files := (ag_files s)(newPath \<mapsto> data)\<rparr>))"

definition CacheBundleToPath :: "'k env \<Rightarrow> string \<Rightarrow> string \<Rightarrow> (unit, 'k agent) step" where
  "CacheBundleToPath E rules path = wrapS ''write cache'' (WriteFileAtomic E path rules)"

definition cacheBundle :: "'k env \<Rightarrow> string \<Rightarrow> string \<Rightarrow> string \<Rightarrow> (unit, 'k agent) step" where
  "cacheBundle E rules cachePath legacyPath =
     bindS (CacheBundleToPath E rules cachePath) (\<lambda>_ s. (Inr (), removeLegacyFile E legacyPath s))"

definition CacheBundle :: "'k env \<Rightarrow> string \<Rightarrow> (unit, 'k agent) step" where
  "CacheBundle E rules = cacheBundle E rules CachedBundlePath LegacyCachedBundlePath"

text \<open>
  \<^verbatim>\<open>filepath.Clean\<close>: empty and dot segments go, a double dot removes the segment before it,
  and at the root it goes too.
\<close>

fun cleanSegments :: "bool \<Rightarrow> string list \<Rightarrow> string list \<Rightarrow> string list" where
  "cleanSegments rooted acc [] = rev acc"
| "cleanSegments rooted acc (seg # segs) =
     (if seg = [] \<or> seg = ''.'' then cleanSegments rooted acc segs
      else if seg = ''..'' then
        (case acc of
           [] \<Rightarrow> cleanSegments rooted (if rooted then [] else [seg]) segs
         | prev # acc' \<Rightarrow> cleanSegments rooted (if prev = ''..'' then seg # acc else acc') segs)
      else cleanSegments rooted (seg # acc) segs)"

definition cleanPath :: "string \<Rightarrow> string" where
  "cleanPath p =
     (if p = [] then ''.''
      else let rooted = (hd p = CHR ''/''); body = join ''/'' (cleanSegments rooted [] (splitByte CHR ''/'' p))
           in if rooted then CHR ''/'' # body else if body = [] then ''.'' else body)"

definition IsCanonicalPath :: "string \<Rightarrow> string \<Rightarrow> bool" where
  "IsCanonicalPath configured canonical = (cleanPath configured = cleanPath canonical)"

definition isDefaultPersistentPath :: "string \<Rightarrow> bool" where
  "isDefaultPersistentPath newPath =
     list_ex (IsCanonicalPath newPath) [CachedBundlePath, LocalBackupPath, StartupBackupPath]"

definition migrateBytes :: "'k env \<Rightarrow> string \<Rightarrow> string \<Rightarrow> string \<Rightarrow> 'k agent \<Rightarrow> fileErr option \<times> 'k agent" where
  "migrateBytes E oldPath newPath data s =
     (case WriteFileExclusive E newPath data s of
        (Some e, s') \<Rightarrow> (Some e, s')
      | (None, s') \<Rightarrow> (None, removeLegacyFile E oldPath s'))"

definition MigrateLegacyFile :: "'k env \<Rightarrow> string \<Rightarrow> string \<Rightarrow> 'k agent \<Rightarrow> fileErr option \<times> 'k agent" where
  "MigrateLegacyFile E oldPath newPath s =
     (if ev_fails E (IOStat newPath) then (Some FOther, s)
      else if ev_isDir E newPath then (Some FIsDir, s)
      else if ag_files s newPath \<noteq> None then (Some FExist, s)
      else case readFile E oldPath s of
        Inl e \<Rightarrow> (Some e, s)
      | Inr data \<Rightarrow> migrateBytes E oldPath newPath data s)"

definition MigrateLegacyFiles :: "'k env \<Rightarrow> 'k agent \<Rightarrow> 'k agent" where
  "MigrateLegacyFiles E s =
     snd (MigrateLegacyFile E LegacyStartupBackupPath StartupBackupPath
       (snd (MigrateLegacyFile E LegacyLocalBackupPath LocalBackupPath
         (snd (MigrateLegacyFile E LegacyCachedBundlePath CachedBundlePath s)))))"

definition ReadFileWithFallback :: "'k env \<Rightarrow> string \<Rightarrow> string \<Rightarrow> 'k agent \<Rightarrow> (fileErr + string) \<times> 'k agent" where
  "ReadFileWithFallback E newPath legacyPath s =
     (case readFile E newPath s of
        Inr data \<Rightarrow> (Inr data, s)
      | Inl err \<Rightarrow>
          if err \<noteq> FNotExist then (Inl err, s)
          else if \<not> isDefaultPersistentPath newPath then (Inl err, s)
          else
            (case readFile E legacyPath s of
               Inl legacyErr \<Rightarrow> (Inl (if legacyErr = FNotExist then err else legacyErr), s)
             | Inr legacyData \<Rightarrow> (Inr legacyData, snd (migrateBytes E legacyPath newPath legacyData s))))"

definition writeTempFile :: "'k env \<Rightarrow> string \<Rightarrow> string \<Rightarrow> (string, 'k agent) step" where
  "writeTempFile E pattern content s =
     (if ev_fails E (IOTemp pattern) then (Inl (Leaf ''temp file''), s)
      else (Inr (ev_temp E pattern), s\<lparr>ag_files := (ag_files s)(ev_temp E pattern \<mapsto> content)\<rparr>))"

section \<open>Backup, restore and revert\<close>

definition DumpRules :: "'k env \<Rightarrow> (string, 'k agent) step" where
  "DumpRules E s =
     (case runCmd E [''iptables-save''] s of
        (CmdOK out, s') \<Rightarrow> (Inr out, s')
      | (CmdErr _ _, s') \<Rightarrow>
          (case runCmd E [''nft'', ''list'', ''ruleset''] s' of
             (CmdOK out, s'') \<Rightarrow> (Inr out, s'')
           | (CmdErr _ _, s'') \<Rightarrow> (Inl (Leaf ''firewall dump failed''), s'')))"

definition dumpCurrentRules :: "'k env \<Rightarrow> (string, 'k agent) step" where
  "dumpCurrentRules E = DumpRules E"

definition persistBackup :: "'k env \<Rightarrow> string \<Rightarrow> (unit, 'k agent) step" where
  "persistBackup E content =
     bindS (wrapS ''write backup'' (WriteFileAtomic E LocalBackupPath content))
       (\<lambda>_ s. (Inr (), removeLegacyFile E LegacyLocalBackupPath s))"

definition readPersistedBackup :: "'k env \<Rightarrow> (string, 'k agent) step" where
  "readPersistedBackup E s =
     (case ReadFileWithFallback E LocalBackupPath LegacyLocalBackupPath s of
        (Inr data, s') \<Rightarrow> (Inr data, s')
      | (Inl err, s') \<Rightarrow> if err = FNotExist then (Inr [], s') else (Inl (Leaf ''read persisted backup''), s'))"

definition restoreCmd :: "string \<Rightarrow> string \<Rightarrow> string list" where
  "restoreCmd path content =
     (if IsNftFormat content then [''nft'', ''-f'', path] else [''iptables-restore'', ''--noflush'', path])"

definition restoreFromFile :: "'k env \<Rightarrow> string \<Rightarrow> string \<Rightarrow> (unit, 'k agent) step" where
  "restoreFromFile E path content = runOK E ''restore failed'' (restoreCmd path content)"

definition revertPattern :: string where
  "revertPattern = ''runic-revert-*.rules''"

definition restoreBackup :: "'k env \<Rightarrow> string \<Rightarrow> (unit, 'k agent) step" where
  "restoreBackup E backup =
     bindS (wrapS ''write backup'' (writeTempFile E revertPattern backup)) (\<lambda>tmpPath s.
       (case runOK E ''revert'' (restoreCmd tmpPath backup) s of (r, s') \<Rightarrow> (r, removeFile E tmpPath s')))"

definition revertRules :: "'k env \<Rightarrow> string \<Rightarrow> (unit, 'k agent) step" where
  "revertRules E backup =
     (if trimSpace backup = [] then
        bindS (wrapS ''read persisted backup'' (readPersistedBackup E)) (\<lambda>persisted.
          if trimSpace persisted = [] then failS (Leaf ''no backup available to revert'') else restoreBackup E persisted)
      else restoreBackup E backup)"

text \<open>
  The auto-revert timer. Arming it starts a goroutine; the numbered points of the caller are
  where the goroutine may run.
\<close>

definition scheduleRevert :: "string \<Rightarrow> 'k agent \<Rightarrow> 'k agent" where
  "scheduleRevert backup s = s\<lparr>ag_timer := Some backup\<rparr>"

definition revertCancel :: "'k agent \<Rightarrow> 'k agent" where
  "revertCancel s = s\<lparr>ag_timer := None\<rparr>"

definition tick :: "'k env \<Rightarrow> nat \<Rightarrow> 'k agent \<Rightarrow> 'k agent" where
  "tick E n s =
     (case ag_timer s of
        Some backup \<Rightarrow> if ev_fires E n then (ignoreS (revertRules E backup) s)\<lparr>ag_timer := None\<rparr> else s
      | None \<Rightarrow> s)"

definition flushIPTables :: "'k env \<Rightarrow> (unit, 'k agent) step" where
  "flushIPTables E =
     (if \<not> ev_iptables E then runOK E ''nft flush ruleset'' [''nft'', ''flush'', ''ruleset'']
      else bindS (runOK E ''flush iptables filter'' [''iptables'', ''-t'', ''filter'', ''-F'']) (\<lambda>_ s.
        (Inr (), snd (runCmd E [''iptables'', ''-t'', ''nat'', ''-X'']
                   (snd (runCmd E [''iptables'', ''-t'', ''nat'', ''-F'']
                     (snd (runCmd E [''iptables'', ''-t'', ''filter'', ''-X''] s))))))))"

section \<open>Sets\<close>

text \<open>\<^verbatim>\<open>CombinedOutput\<close> leaves the \<^verbatim>\<open>Stderr\<close> field of the exit error empty.\<close>

definition exitStderr :: string where
  "exitStderr = []"

definition ipsetGone :: "string \<Rightarrow> bool" where
  "ipsetGone errStr =
     (containsStr errStr ''The set with the given name does not exist'' \<or> containsStr errStr ''not found'')"

definition dropIpset :: "'k env \<Rightarrow> string \<Rightarrow> string \<Rightarrow> (unit, 'k agent) step" where
  "dropIpset E verb name s =
     (case runCmd E [''ipset'', verb, name] s of
        (CmdOK _, s') \<Rightarrow> (Inr (), s')
      | (CmdErr _ out, s') \<Rightarrow> if ipsetGone out then (Inr (), s') else (Inl (Leaf (verb @ '' ipset'')), s'))"

fun flushNames :: "'k env \<Rightarrow> string list \<Rightarrow> (unit, 'k agent) step" where
  "flushNames E [] = returnS ()"
| "flushNames E (n # names) =
     (let name = trimSpace n in
      if name = [] \<or> \<not> hasPrefix name ''runic_group_'' \<and> name \<noteq> ''runic_private_ranges'' then flushNames E names
      else bindS (dropIpset E ''flush'' name) (\<lambda>_. bindS (dropIpset E ''destroy'' name) (\<lambda>_. flushNames E names)))"

definition flushRunicIpsets :: "'k env \<Rightarrow> (unit, 'k agent) step" where
  "flushRunicIpsets E s =
     (case runCmd E [''ipset'', ''list'', ''-n''] s of
        (CmdErr CmdNotFound _, s') \<Rightarrow> (Inr (), s')
      | (CmdErr (CmdExit code) _, s') \<Rightarrow>
          if code = 127 then (Inr (), s')
          else if containsStr exitStderr ''No such file'' \<or> containsStr exitStderr ''Kernel module not loaded'' \<or>
                  containsStr exitStderr ''No set found'' then (Inr (), s')
          else (Inl (Leaf ''ipset list''), s')
      | (CmdErr CmdOther _, s') \<Rightarrow> (Inl (Leaf ''ipset list''), s')
      | (CmdOK out, s') \<Rightarrow> flushNames E (splitByte NL (trimSpace out)) s')"

definition runIpset :: "'k env \<Rightarrow> string \<Rightarrow> string \<Rightarrow> string \<Rightarrow> (unit, 'k agent) step" where
  "runIpset E name ipsetType family s =
     (case runCmd E [''ipset'', ''create'', name, ipsetType, ''family'', family] s of
        (CmdOK _, s') \<Rightarrow> (Inr (), s')
      | (CmdErr _ out, s') \<Rightarrow>
          if containsStr out ''already exists'' then (Inr (), s') else (Inl (Leaf ''ipset create''), s'))"

definition addIpsetMember :: "'k env \<Rightarrow> string \<Rightarrow> string \<Rightarrow> (unit, 'k agent) step" where
  "addIpsetMember E name m = runOK E ''ipset add'' [''ipset'', ''add'', name, m]"

fun eachS :: "('a \<Rightarrow> (unit, 's) step) \<Rightarrow> 'a list \<Rightarrow> (unit, 's) step" where
  "eachS f [] = returnS ()"
| "eachS f (x # xs) = bindS (f x) (\<lambda>_. eachS f xs)"

definition applyDef :: "'k env \<Rightarrow> ipsetDef \<Rightarrow> (unit, 'k agent) step" where
  "applyDef E def =
     bindS (wrapS ''create ipset'' (runIpset E (id_Name def) (id_Type def)
             (if id_Family def = [] then ''inet'' else id_Family def)))
       (\<lambda>_. eachS (\<lambda>m. wrapS ''add member'' (addIpsetMember E (id_Name def) m)) (id_Members def))"

definition applyIpsets :: "'k env \<Rightarrow> string \<Rightarrow> (unit, 'k agent) step" where
  "applyIpsets E rulesContent =
     (case extractIpsetSection rulesContent of
        Inl e \<Rightarrow> failS (Wrap ''extract ipset section'' [e])
      | Inr ipsetSection \<Rightarrow>
          if ipsetSection = [] then returnS ()
          else
            (case parseIpsetDefs ipsetSection of
               Inl e \<Rightarrow> failS (Wrap ''parse ipset definitions'' [e])
             | Inr ipsetDefs \<Rightarrow>
                 if ipsetDefs = [] then returnS ()
                 else bindS (wrapS ''flush runic ipsets'' (flushRunicIpsets E)) (\<lambda>_. eachS (applyDef E) ipsetDefs)))"

section \<open>Applying a bundle\<close>

datatype smoke = SmokeOK | SmokeBadRequest int | SmokeError

definition smokeTest :: "'k env \<Rightarrow> 'k agent \<Rightarrow> smoke" where
  "smokeTest E s =
     (case ev_probe E (ag_kernel s) of
        ProbeFailed \<Rightarrow> SmokeError
      | ProbeStatus code \<Rightarrow>
          if 200 \<le> code \<and> code < 300 then SmokeOK
          else if 400 \<le> code \<and> code < 500 then SmokeBadRequest code
          else SmokeError)"

definition bundlePattern :: string where
  "bundlePattern = ''runic-bundle-*.rules''"

definition restartDocker :: "'k env \<Rightarrow> 'k agent \<Rightarrow> 'k agent" where
  "restartDocker E s = snd (runCmd E [''systemctl'', ''restart'', ''docker''] s)"

text \<open>After the rules are in place: smoke test, and either confirmation or revert.\<close>

definition finishApply :: "'k env \<Rightarrow> bool \<Rightarrow> BundleResponse \<Rightarrow> string \<Rightarrow> (unit, 'k agent) step" where
  "finishApply E confirm bundle backup s0 =
     (let s1 = (if ev_docker E then restartDocker E (tick E 3 s0) else s0); s = tick E 4 s1 in
      if smokeTest E s = SmokeError
      then (Inl (Leaf ''smoke test failed, reverted''), revertCancel (ignoreS (revertRules E backup) s))
      else
        (let s2 = removeLegacyFile E LegacyLocalBackupPath (removeFile E LocalBackupPath (revertCancel (tick E 5 s)));
             s3 = (if confirm then s2\<lparr>ag_confirmed := ag_confirmed s2 @ [bu_Version bundle]\<rparr> else s2)
         in (Inr (), ignoreS (CacheBundle E (bu_Rules bundle)) s3)))"

definition bundleIpsets :: "'k env \<Rightarrow> string \<Rightarrow> (unit, 'k agent) step" where
  "bundleIpsets E rules = (if containsStr rules ipsetMarker then applyIpsets E rules else returnS ())"

definition applyRules :: "'k env \<Rightarrow> bool \<Rightarrow> BundleResponse \<Rightarrow> string \<Rightarrow> string \<Rightarrow> (unit, 'k agent) step" where
  "applyRules E confirm bundle backup tmpPath s0 =
     (case flushIPTables E (tick E 0 s0) of
        (Inl e, s) \<Rightarrow> (Inl (Wrap ''flush firewall'' [e]), revertCancel s)
      | (Inr _, s) \<Rightarrow>
          (case bundleIpsets E (bu_Rules bundle) (tick E 1 s) of
             (Inl e, s) \<Rightarrow> (Inl (Wrap ''ipset apply failed'' [e]), ignoreS (revertRules E backup) (revertCancel s))
           | (Inr _, s) \<Rightarrow>
               (case restoreFromFile E tmpPath (stripIpsetSection (bu_Rules bundle)) (tick E 2 s) of
                  (Inl e, s) \<Rightarrow> (Inl (Wrap ''rule restore failed'' [e]), revertCancel s)
                | (Inr _, s) \<Rightarrow> finishApply E confirm bundle backup s)))"

definition ApplyBundle :: "crypto \<Rightarrow> 'k env \<Rightarrow> bool \<Rightarrow> BundleResponse \<Rightarrow> string \<Rightarrow> (unit, 'k agent) step" where
  "ApplyBundle C E confirm bundle hmacKey s =
     (if \<not> VerifyWithVersion C (bu_Rules bundle) hmacKey (bu_HMAC bundle) (bu_VersionNumber bundle)
      then (Inl (Leaf ''HMAC verification failed''), s)
      else case validateRules (bu_Rules bundle) of
        Inl e \<Rightarrow> (Inl (Wrap ''rule validation failed'' [e]), s)
      | Inr _ \<Rightarrow>
          bindS (wrapS ''could not dump current rules for backup'' (dumpCurrentRules E)) (\<lambda>backup s.
            (case writeTempFile E bundlePattern (stripIpsetSection (bu_Rules bundle))
                    (scheduleRevert backup (ignoreS (persistBackup E backup) s)) of
               (Inl e, s') \<Rightarrow> (Inl (Wrap ''write bundle'' [e]), revertCancel s')
             | (Inr tmpPath, s') \<Rightarrow>
                 (case applyRules E confirm bundle backup tmpPath s' of (r, s'') \<Rightarrow> (r, removeFile E tmpPath s'')))) s)"

section \<open>Commands leave the files and the timer alone\<close>

definition frame :: "string list list \<Rightarrow> files \<Rightarrow> string option \<Rightarrow> 'k agent \<Rightarrow> bool" where
  "frame L F T s = ((\<exists>pre. ag_log s = L @ pre) \<and> ag_files s = F \<and> ag_timer s = T)"

lemma frame_refl [simp]: "frame (ag_log s) (ag_files s) (ag_timer s) s"
  by (simp add: frame_def)

lemma frame_runCmd: "frame L F T s \<Longrightarrow> frame L F T (snd (runCmd E args s))"
  by (auto simp: frame_def runCmd_def split: prod.splits)

lemma keepsS_runCmd:
  assumes "\<And>s r s'. frame L F T s \<Longrightarrow> runCmd E args s = (r, s') \<Longrightarrow> frame L F T s' \<Longrightarrow> frame L F T (snd (m s))"
  shows "keepsS (frame L F T) m"
  unfolding keepsS_def
proof (intro allI impI)
  fix s :: "'a agent"
  assume s: "frame L F T s"
  obtain r s' where "runCmd E args s = (r, s')" by (metis surj_pair)
  then show "frame L F T (snd (m s))" using assms s frame_runCmd [OF s] by (metis snd_conv)
qed

lemma frame_runOK [keepsS_intros]: "keepsS (frame L F T) (runOK E msg args)"
  by (rule keepsS_runCmd [where args = args and E = E]) (auto simp: runOK_def split: cmdres.splits)

lemma frame_dropIpset [keepsS_intros]: "keepsS (frame L F T) (dropIpset E verb name)"
  by (rule keepsS_runCmd [where args = "[''ipset'', verb, name]" and E = E]) (auto simp: dropIpset_def split: cmdres.splits)

lemma frame_flushNames [keepsS_intros]: "keepsS (frame L F T) (flushNames E names)"
proof (induction names)
  case (Cons n names)
  then show ?case unfolding flushNames.simps Let_def by (intro keepsS_intros)
qed (simp only: flushNames.simps keepsS_return)

lemma frame_flushRunicIpsets [keepsS_intros]: "keepsS (frame L F T) (flushRunicIpsets E)"
  by (rule keepsS_runCmd [where args = "[''ipset'', ''list'', ''-n'']" and E = E])
    (use frame_flushNames [of L F T E] in \<open>auto simp: flushRunicIpsets_def keepsS_def split: cmdres.splits cmdfail.splits\<close>)

lemma frame_runIpset [keepsS_intros]: "keepsS (frame L F T) (runIpset E name t fam)"
  by (rule keepsS_runCmd [where args = "[''ipset'', ''create'', name, t, ''family'', fam]" and E = E])
    (auto simp: runIpset_def split: cmdres.splits)

lemma keepsS_each [keepsS_intros]:
  assumes "\<And>x. keepsS P (f x)"
  shows "keepsS P (eachS f xs)"
proof (induction xs)
  case (Cons x xs)
  then show ?case unfolding eachS.simps using assms by (intro keepsS_intros)
qed (simp only: eachS.simps keepsS_return)

lemma frame_applyIpsets [keepsS_intros]: "keepsS (frame L F T) (applyIpsets E rules)"
proof -
  have "keepsS (frame L F T) (applyDef E def)" for def
    unfolding applyDef_def addIpsetMember_def by (intro keepsS_intros)
  then show ?thesis unfolding applyIpsets_def by (cases "extractIpsetSection rules"; simp only: sum.case; cases "parseIpsetDefs (projr (extractIpsetSection rules))") (auto intro!: keepsS_intros simp del: stepS_simps)
qed

lemma frame_bundleIpsets [keepsS_intros]: "keepsS (frame L F T) (bundleIpsets E rules)"
  unfolding bundleIpsets_def by (intro keepsS_intros)

lemma frame_flushIPTables [keepsS_intros]: "keepsS (frame L F T) (flushIPTables E)"
proof -
  have "keepsS (frame L F T) (\<lambda>s. (Inr (), snd (runCmd E a (snd (runCmd E b (snd (runCmd E c s)))))))" for a b c
    by (simp add: keepsS_def frame_runCmd)
  then show ?thesis unfolding flushIPTables_def by (intro keepsS_intros)
qed

lemma frame_DumpRules [keepsS_intros]: "keepsS (frame L F T) (DumpRules E)"
  unfolding keepsS_def
proof (intro allI impI)
  fix s :: "'a agent"
  assume s: "frame L F T s"
  obtain r s1 where r: "runCmd E [''iptables-save''] s = (r, s1)" by (metis surj_pair)
  obtain r2 s2 where r2: "runCmd E [''nft'', ''list'', ''ruleset''] s1 = (r2, s2)" by (metis surj_pair)
  have "frame L F T s1" using frame_runCmd [OF s] r by (metis snd_conv)
  moreover from this have "frame L F T s2" using frame_runCmd r2 by (metis snd_conv)
  ultimately show "frame L F T (snd (DumpRules E s))"
    by (auto simp: DumpRules_def r r2 split: cmdres.splits)
qed

text \<open>Without a timer that fires, the numbered points do nothing.\<close>

definition quiet :: "'k env \<Rightarrow> bool" where
  "quiet E = (\<forall>n. \<not> ev_fires E n)"

lemma tick_quiet [simp]: "quiet E \<Longrightarrow> tick E n s = s"
  by (auto simp: tick_def quiet_def split: option.splits)

section \<open>Nothing happens without verification\<close>

text \<open>
  C8 (REFUSE): the agent changes nothing, and reports no success, for a bundle whose signature does
  not verify under its key or whose text does not pass validation: no command is run, no file
  written, no timer armed.
\<close>

theorem ApplyBundle_refuses:
  assumes "ApplyBundle C E confirm b key s = (r, t)" and "t \<noteq> s \<or> r = Inr ()"
  shows "VerifyWithVersion C (bu_Rules b) key (bu_HMAC b) (bu_VersionNumber b) \<and> validateRules (bu_Rules b) = Inr ()"
  using assms by (auto simp: ApplyBundle_def split: if_splits sum.splits)

section \<open>No revert is left pending\<close>

definition idle :: "'k agent \<Rightarrow> bool" where
  "idle s = (ag_timer s = None)"

lemma idle_files [simp]:
  "idle (removeFile E p s) = idle s" "idle (removeLegacyFile E p s) = idle s" "idle (revertCancel s)"
  "idle (s\<lparr>ag_confirmed := v\<rparr>) = idle s" "idle (s\<lparr>ag_files := fs\<rparr>) = idle s"
  by (simp_all add: idle_def removeFile_def removeLegacyFile_def revertCancel_def)

lemma idle_frame: "keepsS (frame L F T) m \<Longrightarrow> (\<And>L F T. keepsS (frame L F T) m) \<Longrightarrow> keepsS idle m"
  by (metis (no_types, lifting) frame_def frame_refl idle_def keepsS_def)

lemma idle_writes [keepsS_intros]: "keepsS idle (WriteFileAtomic E p d)" "keepsS idle (writeTempFile E p d)"
  by (simp_all add: keepsS_def WriteFileAtomic_def writeTempFile_def)

lemma idle_CacheBundle [keepsS_intros]: "keepsS idle (CacheBundle E rules)"
proof -
  have "keepsS idle (\<lambda>s. (Inr (), removeLegacyFile E p s))" for p :: string by (simp add: keepsS_def)
  then show ?thesis unfolding CacheBundle_def cacheBundle_def CacheBundleToPath_def by (intro keepsS_intros)
qed

lemma idle_readPersistedBackup [keepsS_intros]: "keepsS idle (readPersistedBackup E)"
  by (auto simp: keepsS_def readPersistedBackup_def ReadFileWithFallback_def migrateBytes_def WriteFileExclusive_def
      split: sum.splits prod.splits)

lemma keepsS_then_remove [keepsS_intros]:
  assumes "keepsS idle m"
  shows "keepsS idle (\<lambda>s. case m s of (r, s') \<Rightarrow> (r, removeFile E p s'))"
  unfolding keepsS_def
proof (intro allI impI)
  fix s :: "'a agent"
  assume "idle s"
  moreover obtain r s' where "m s = (r, s')" by (metis surj_pair)
  ultimately show "idle (snd (case m s of (r, s') \<Rightarrow> (r, removeFile E p s')))" using keepsS_D [OF assms] by simp
qed

lemma idle_restoreBackup [keepsS_intros]: "keepsS idle (restoreBackup E backup)"
proof -
  have "keepsS idle (runOK E msg args)" for msg args by (rule idle_frame) (rule frame_runOK)+
  then show ?thesis unfolding restoreBackup_def by (intro keepsS_intros)
qed

lemma idle_revertRules [keepsS_intros]: "keepsS idle (revertRules E backup)"
  unfolding revertRules_def by (intro keepsS_intros)

lemma idle_tick: "idle s \<Longrightarrow> tick E n s = s"
  by (simp add: tick_def idle_def)

lemma idle_finishApply: "finishApply E confirm b backup s = (r, t) \<Longrightarrow> idle t"
  using keepsS_ignore [OF idle_CacheBundle, of _ E "bu_Rules b"]
  by (auto simp: finishApply_def Let_def split: if_splits)

text \<open>The ways \<open>applyRules\<close> and \<open>ApplyBundle\<close> end, one case per return statement.\<close>

lemma applyRules_cases:
  assumes "applyRules E confirm b backup tmp s = (r, t)"
  obtains (flush) e u where "flushIPTables E (tick E 0 s) = (Inl e, u)" and "t = revertCancel u"
      and "r = Inl (Wrap ''flush firewall'' [e])"
  | (ipsets) u e v where "flushIPTables E (tick E 0 s) = (Inr (), u)" and "bundleIpsets E (bu_Rules b) (tick E 1 u) = (Inl e, v)"
      and "t = ignoreS (revertRules E backup) (revertCancel v)" and "r = Inl (Wrap ''ipset apply failed'' [e])"
  | (restore) u v e w where "flushIPTables E (tick E 0 s) = (Inr (), u)" and "bundleIpsets E (bu_Rules b) (tick E 1 u) = (Inr (), v)"
      and "restoreFromFile E tmp (stripIpsetSection (bu_Rules b)) (tick E 2 v) = (Inl e, w)" and "t = revertCancel w"
      and "r = Inl (Wrap ''rule restore failed'' [e])"
  | (finish) u v w where "flushIPTables E (tick E 0 s) = (Inr (), u)" and "bundleIpsets E (bu_Rules b) (tick E 1 u) = (Inr (), v)"
      and "restoreFromFile E tmp (stripIpsetSection (bu_Rules b)) (tick E 2 v) = (Inr (), w)"
      and "finishApply E confirm b backup w = (r, t)"
proof -
  obtain r1 u where 1: "flushIPTables E (tick E 0 s) = (r1, u)" by (metis surj_pair)
  obtain r2 v where 2: "bundleIpsets E (bu_Rules b) (tick E 1 u) = (r2, v)" by (metis surj_pair)
  obtain r3 w where 3: "restoreFromFile E tmp (stripIpsetSection (bu_Rules b)) (tick E 2 v) = (r3, w)" by (metis surj_pair)
  show ?thesis
    using assms 1 2 3 flush ipsets restore finish
    by (cases r1; cases r2; cases r3) (auto simp: applyRules_def)
qed

lemma ApplyBundle_cases:
  assumes "ApplyBundle C E confirm b key s = (r, t)"
  obtains (refused) e where "r = Inl (Leaf ''HMAC verification failed'') \<or> r = Inl (Wrap ''rule validation failed'' [e])" and "t = s"
  | (dump) e where "dumpCurrentRules E s = (Inl e, t)" and "r = Inl (Wrap ''could not dump current rules for backup'' [e])"
  | (temp) e backup u v where "dumpCurrentRules E s = (Inr backup, u)"
      and "writeTempFile E bundlePattern (stripIpsetSection (bu_Rules b))
             (scheduleRevert backup (ignoreS (persistBackup E backup) u)) = (Inl e, v)"
      and "r = Inl (Wrap ''write bundle'' [e])" and "t = revertCancel v"
  | (rules) backup u tmp v w where "dumpCurrentRules E s = (Inr backup, u)"
      and "writeTempFile E bundlePattern (stripIpsetSection (bu_Rules b))
             (scheduleRevert backup (ignoreS (persistBackup E backup) u)) = (Inr tmp, v)"
      and "applyRules E confirm b backup tmp v = (r, w)" and "t = removeFile E tmp w"
      and "VerifyWithVersion C (bu_Rules b) key (bu_HMAC b) (bu_VersionNumber b)" and "validateRules (bu_Rules b) = Inr ()"
proof (cases "VerifyWithVersion C (bu_Rules b) key (bu_HMAC b) (bu_VersionNumber b) \<and> validateRules (bu_Rules b) = Inr ()")
  case False
  then show ?thesis using assms refused by (auto simp: ApplyBundle_def split: if_splits sum.splits)
next
  case ok: True
  obtain r1 u where 1: "dumpCurrentRules E s = (r1, u)" by (metis surj_pair)
  show ?thesis
  proof (cases r1)
    case (Inl e)
    then show ?thesis using assms ok 1 dump by (auto simp: ApplyBundle_def bindS_def wrapS_def)
  next
    case (Inr backup)
    obtain r2 v where 2: "writeTempFile E bundlePattern (stripIpsetSection (bu_Rules b))
             (scheduleRevert backup (ignoreS (persistBackup E backup) u)) = (r2, v)" by (metis surj_pair)
    obtain r3 w where 3: "applyRules E confirm b backup (projr r2) v = (r3, w)" by (metis surj_pair)
    show ?thesis
      using assms ok 1 2 3 Inr temp rules by (cases r2) (auto simp: ApplyBundle_def bindS_def wrapS_def)
  qed
qed

lemma idle_applyRules: "applyRules E confirm b backup tmp s = (r, t) \<Longrightarrow> idle t"
  by (erule applyRules_cases)
    (use keepsS_ignore [OF idle_revertRules [of E backup]] idle_finishApply in auto)


section \<open>What an apply leaves behind\<close>

lemma frame_step:
  assumes "\<And>L F T. keepsS (frame L F T) m" and "m s = (r, t)"
  shows "ag_files t = ag_files s" and "\<exists>pre. ag_log t = ag_log s @ pre"
proof -
  from keepsS_D [OF assms frame_refl]
  have "frame (ag_log s) (ag_files s) (ag_timer s) t" .
  then show "ag_files t = ag_files s" and "\<exists>pre. ag_log t = ag_log s @ pre" by (auto simp: frame_def)
qed

lemmas flush_step = frame_step [OF frame_flushIPTables]
  and ipset_step = frame_step [OF frame_bundleIpsets]
  and dump_step = frame_step [OF frame_DumpRules]

lemma runOK_Inr:
  "runOK E msg args s = (Inr (), t) \<longleftrightarrow>
     (\<exists>out k. ev_run E (ag_files s) args (ag_kernel s) = (CmdOK out, k) \<and> t = s\<lparr>ag_kernel := k, ag_log := ag_log s @ [args]\<rparr>)"
  by (auto simp: runOK_def runCmd_def split: prod.splits cmdres.splits)

lemma runOK_logs: "runOK E msg args s = (r, t) \<Longrightarrow>
    ag_log t = ag_log s @ [args] \<and> ag_files t = ag_files s \<and> ag_kernel t = snd (ev_run E (ag_files s) args (ag_kernel s))"
  by (auto simp: runOK_def runCmd_def split: prod.splits cmdres.splits)

lemma writeTempFile_Inr:
  "writeTempFile E pattern content s = (Inr tmp, t) \<Longrightarrow>
     tmp = ev_temp E pattern \<and> t = s\<lparr>ag_files := (ag_files s)(tmp \<mapsto> content)\<rparr>"
  by (auto simp: writeTempFile_def split: if_splits)

lemma files_log [simp]:
  "ag_log (removeFile E p s) = ag_log s" "ag_log (removeLegacyFile E p s) = ag_log s"
  "ag_kernel (removeFile E p s) = ag_kernel s" "ag_kernel (removeLegacyFile E p s) = ag_kernel s"
  "ag_log (revertCancel s) = ag_log s" "ag_kernel (revertCancel s) = ag_kernel s" "ag_files (revertCancel s) = ag_files s"
  "ag_log (ignoreS (CacheBundle E rules) s) = ag_log s" "ag_kernel (ignoreS (CacheBundle E rules) s) = ag_kernel s"
  "ag_log (ignoreS (persistBackup E backup) s) = ag_log s" "ag_log (scheduleRevert backup s) = ag_log s"
  by (auto simp: removeFile_def removeLegacyFile_def revertCancel_def ignoreS_def CacheBundle_def cacheBundle_def
      CacheBundleToPath_def persistBackup_def scheduleRevert_def WriteFileAtomic_def bindS_def wrapS_def)

lemma removeFile_files: "ag_files (removeFile E p s) q = (if ev_fails E (IORemove p) \<or> q \<noteq> p then ag_files s q else None)"
  by (simp add: removeFile_def)

lemma CacheBundle_files:
  assumes "q \<noteq> LegacyCachedBundlePath"
  shows "ag_files (ignoreS (CacheBundle E rules) s) q =
     (if q = CachedBundlePath \<and> \<not> ev_fails E (IOWrite CachedBundlePath) then Some rules else ag_files s q)"
  using assms
  by (auto simp: ignoreS_def CacheBundle_def cacheBundle_def CacheBundleToPath_def WriteFileAtomic_def bindS_def wrapS_def
      removeLegacyFile_def removeFile_files)

lemma paths_distinct [simp]:
  "CachedBundlePath \<noteq> LegacyCachedBundlePath" "LocalBackupPath \<noteq> LegacyCachedBundlePath" "LocalBackupPath \<noteq> CachedBundlePath"
  by (simp_all add: CachedBundlePath_def LegacyCachedBundlePath_def LocalBackupPath_def)

definition dockerCmds :: "'k env \<Rightarrow> string list list" where
  "dockerCmds E = (if ev_docker E then [[''systemctl'', ''restart'', ''docker'']] else [])"

definition afterDocker :: "'k env \<Rightarrow> files \<Rightarrow> 'k \<Rightarrow> 'k" where
  "afterDocker E fs k = (if ev_docker E then snd (ev_run E fs [''systemctl'', ''restart'', ''docker''] k) else k)"

lemma finishApply_ok:
  assumes "finishApply E confirm b backup s = (Inr (), t)" and "quiet E"
  shows "ag_log t = ag_log s @ dockerCmds E" and "ag_kernel t = afterDocker E (ag_files s) (ag_kernel s)"
    and "smokeTest E t \<noteq> SmokeError"
    and "\<not> ev_fails E (IOWrite CachedBundlePath) \<Longrightarrow> ag_files t CachedBundlePath = Some (bu_Rules b)"
    and "\<not> ev_fails E (IORemove LocalBackupPath) \<Longrightarrow> ag_files t LocalBackupPath = None"
  using assms
  by (auto simp: finishApply_def Let_def smokeTest_def dockerCmds_def afterDocker_def restartDocker_def runCmd_def
      CacheBundle_files removeLegacyFile_def removeFile_files split: if_splits prod.splits)

lemma finishApply_reverts:
  assumes "finishApply E confirm b backup s = (Inl e, t)" and "quiet E"
  shows "\<exists>u. t = revertCancel (ignoreS (revertRules E backup) u)"
  using assms by (auto simp: finishApply_def Let_def split: if_splits)

lemma ApplyBundle_applied_facts:
  assumes run: "ApplyBundle C E confirm b key s = (Inr (), t)" and quiet: "quiet E"
  shows "\<exists>fs k out k' pre. fs (ev_temp E bundlePattern) = Some (stripIpsetSection (bu_Rules b)) \<and>
       ev_run E fs (restoreCmd (ev_temp E bundlePattern) (stripIpsetSection (bu_Rules b))) k = (CmdOK out, k') \<and>
       ag_log t = ag_log s @ pre @ [restoreCmd (ev_temp E bundlePattern) (stripIpsetSection (bu_Rules b))] @ dockerCmds E \<and>
       ag_kernel t = afterDocker E fs k'"
    and "smokeTest E t \<noteq> SmokeError"
    and "\<not> ev_fails E (IOWrite CachedBundlePath) \<Longrightarrow> ev_temp E bundlePattern \<noteq> CachedBundlePath \<Longrightarrow>
       ag_files t CachedBundlePath = Some (bu_Rules b)"
    and "\<not> ev_fails E (IORemove LocalBackupPath) \<Longrightarrow> ag_files t LocalBackupPath = None"
proof -
  let ?strip = "stripIpsetSection (bu_Rules b)" and ?tmp = "ev_temp E bundlePattern"
  from run obtain backup u v w where d: "DumpRules E s = (Inr backup, u)"
    and v: "writeTempFile E bundlePattern ?strip (scheduleRevert backup (ignoreS (persistBackup E backup) u)) = (Inr ?tmp, v)"
    and w: "applyRules E confirm b backup ?tmp v = (Inr (), w)" and t: "t = removeFile E ?tmp w"
    by (cases rule: ApplyBundle_cases) (auto simp: dumpCurrentRules_def dest: writeTempFile_Inr)
  from w quiet obtain x y z where x: "flushIPTables E v = (Inr (), x)" and y: "bundleIpsets E (bu_Rules b) x = (Inr (), y)"
    and z: "restoreFromFile E ?tmp ?strip y = (Inr (), z)" and fin: "finishApply E confirm b backup z = (Inr (), w)"
    by (cases rule: applyRules_cases) auto
  from z obtain out k' where r: "ev_run E (ag_files y) (restoreCmd ?tmp ?strip) (ag_kernel y) = (CmdOK out, k')"
    and z': "z = y\<lparr>ag_kernel := k', ag_log := ag_log y @ [restoreCmd ?tmp ?strip]\<rparr>"
    by (auto simp: restoreFromFile_def runOK_Inr)
  have "\<exists>pre. ag_log y = ag_log s @ pre"
    using dump_step(2) [OF d] writeTempFile_Inr [OF v] flush_step(2) [OF x] ipset_step(2) [OF y] by auto
  moreover have "ag_files y ?tmp = Some ?strip"
    using writeTempFile_Inr [OF v] flush_step(1) [OF x] ipset_step(1) [OF y] by simp
  ultimately show "\<exists>fs k out k' pre. fs ?tmp = Some ?strip \<and> ev_run E fs (restoreCmd ?tmp ?strip) k = (CmdOK out, k') \<and>
       ag_log t = ag_log s @ pre @ [restoreCmd ?tmp ?strip] @ dockerCmds E \<and> ag_kernel t = afterDocker E fs k'"
    using r finishApply_ok(1,2) [OF fin quiet] t z' by fastforce
  show "smokeTest E t \<noteq> SmokeError" using finishApply_ok(3) [OF fin quiet] t by (simp add: smokeTest_def)
  show "\<not> ev_fails E (IOWrite CachedBundlePath) \<Longrightarrow> ?tmp \<noteq> CachedBundlePath \<Longrightarrow> ag_files t CachedBundlePath = Some (bu_Rules b)"
    using finishApply_ok(4) [OF fin quiet] t by (simp add: removeFile_files)
  show "\<not> ev_fails E (IORemove LocalBackupPath) \<Longrightarrow> ag_files t LocalBackupPath = None"
    using finishApply_ok(5) [OF fin quiet] t by (simp add: removeFile_files)
qed

text \<open>
  C9 (APPLIED): when an apply reports success and the timer has not fired, the last change to the
  firewall is a successful restore of the bundle's rules, from a file that holds exactly the
  bundle without its set definitions, but for the restart of Docker where Docker is present. The
  probe of the control plane was answered in that state, the bundle is cached for the next boot
  and the backup of the previous rules is gone.
\<close>

theorem ApplyBundle_applied:
  assumes "ApplyBundle C E confirm b key s = (Inr (), t)" and "quiet E"
  shows "(\<exists>fs k out k' pre. fs (ev_temp E bundlePattern) = Some (stripIpsetSection (bu_Rules b)) \<and>
       ev_run E fs (restoreCmd (ev_temp E bundlePattern) (stripIpsetSection (bu_Rules b))) k = (CmdOK out, k') \<and>
       ag_log t = ag_log s @ pre @ [restoreCmd (ev_temp E bundlePattern) (stripIpsetSection (bu_Rules b))] @ dockerCmds E \<and>
       ag_kernel t = afterDocker E fs k') \<and>
     smokeTest E t \<noteq> SmokeError \<and>
     (\<not> ev_fails E (IOWrite CachedBundlePath) \<and> ev_temp E bundlePattern \<noteq> CachedBundlePath \<longrightarrow>
       ag_files t CachedBundlePath = Some (bu_Rules b)) \<and>
     (\<not> ev_fails E (IORemove LocalBackupPath) \<longrightarrow> ag_files t LocalBackupPath = None)"
  using ApplyBundle_applied_facts [OF assms] by blast

section \<open>Failed applies\<close>

lemma revertRules_runs:
  assumes "trimSpace backup \<noteq> []" and "\<not> ev_fails E (IOTemp revertPattern)"
  shows "\<exists>fs k. fs (ev_temp E revertPattern) = Some backup \<and>
     ag_kernel (ignoreS (revertRules E backup) s) = snd (ev_run E fs (restoreCmd (ev_temp E revertPattern) backup) k) \<and>
     ag_log (ignoreS (revertRules E backup) s) = ag_log s @ [restoreCmd (ev_temp E revertPattern) backup]"
proof -
  let ?tmp = "ev_temp E revertPattern"
  let ?s = "s\<lparr>ag_files := (ag_files s)(?tmp \<mapsto> backup)\<rparr>"
  obtain r u where u: "runOK E ''revert'' (restoreCmd ?tmp backup) ?s = (r, u)" by (metis surj_pair)
  have "ignoreS (revertRules E backup) s = removeFile E ?tmp u"
    using assms u by (simp add: revertRules_def restoreBackup_def ignoreS_def bindS_def wrapS_def writeTempFile_def)
  then show ?thesis using runOK_logs [OF u]
    by (intro exI [of _ "ag_files ?s"] exI [of _ "ag_kernel ?s"]) simp
qed

text \<open>
  C10 (ROLLBACK): when the sets cannot be built or the control plane cannot be reached afterwards, the
  last command of the apply restores the rules that were dumped before it began, from a file that
  holds exactly that dump.
\<close>

theorem ApplyBundle_rolls_back:
  assumes run: "ApplyBundle C E confirm b key s = (Inl e, t)" and quiet: "quiet E"
    and e: "e = Leaf ''smoke test failed, reverted'' \<or> (\<exists>e'. e = Wrap ''ipset apply failed'' [e'])"
    and d: "DumpRules E s = (Inr backup, u)" "trimSpace backup \<noteq> []" and tmp: "\<not> ev_fails E (IOTemp revertPattern)"
  shows "\<exists>fs k pre. fs (ev_temp E revertPattern) = Some backup \<and>
     ag_kernel t = snd (ev_run E fs (restoreCmd (ev_temp E revertPattern) backup) k) \<and>
     ag_log t = pre @ [restoreCmd (ev_temp E revertPattern) backup]"
proof -
  from run obtain tmp w x where w: "applyRules E confirm b backup tmp w = (Inl e, x)" and t: "t = removeFile E tmp x"
    by (cases rule: ApplyBundle_cases) (use e d(1) in \<open>auto simp: dumpCurrentRules_def\<close>)
  from w have "\<exists>y. x = ignoreS (revertRules E backup) y \<or> x = revertCancel (ignoreS (revertRules E backup) y)"
    by (cases rule: applyRules_cases) (use e finishApply_reverts quiet in blast)+
  then obtain y where y: "ag_kernel x = ag_kernel (ignoreS (revertRules E backup) y)" "ag_log x = ag_log (ignoreS (revertRules E backup) y)"
    by auto
  show ?thesis
    using revertRules_runs [OF d(2) tmp, of y] y t by auto
qed

definition flushCmd :: "'k env \<Rightarrow> string list" where
  "flushCmd E = (if ev_iptables E then [''iptables'', ''-t'', ''filter'', ''-F''] else [''nft'', ''flush'', ''ruleset''])"

lemma flushIPTables_logs:
  assumes "flushIPTables E s = (Inr (), t)"
  shows "\<exists>post. ag_log t = ag_log s @ flushCmd E # post"
proof (cases "ev_iptables E")
  case True
  have "ag_log (snd (runCmd E args u)) = ag_log u @ [args]" for args u by (simp add: runCmd_def split: prod.splits)
  then show ?thesis using assms True
    by (auto simp: flushIPTables_def flushCmd_def bindS_Inr runOK_Inr)
next
  case False
  then show ?thesis using assms by (auto simp: flushIPTables_def flushCmd_def runOK_Inr)
qed

lemma ApplyBundle_restore_failure_facts:
  assumes run: "ApplyBundle C E confirm b key s = (Inl (Wrap ''rule restore failed'' es), t)" and quiet: "quiet E"
  shows "\<exists>pre post. ag_log t = pre @ flushCmd E # post @
       [restoreCmd (ev_temp E bundlePattern) (stripIpsetSection (bu_Rules b))]" and "ag_timer t = None"
proof -
  let ?strip = "stripIpsetSection (bu_Rules b)" and ?tmp = "ev_temp E bundlePattern"
  from run obtain backup v w where w: "applyRules E confirm b backup ?tmp v = (Inl (Wrap ''rule restore failed'' es), w)"
      and t: "t = removeFile E ?tmp w"
    by (cases rule: ApplyBundle_cases) (auto dest: writeTempFile_Inr)
  from w quiet obtain x y z e where x: "flushIPTables E v = (Inr (), x)" and y: "bundleIpsets E (bu_Rules b) x = (Inr (), y)"
    and z: "restoreFromFile E ?tmp ?strip y = (Inl e, z)" and wz: "w = revertCancel z"
    by (cases rule: applyRules_cases) (auto simp: finishApply_def Let_def split: if_splits)
  from flushIPTables_logs [OF x] ipset_step(2) [OF y] obtain p q where "ag_log y = ag_log v @ flushCmd E # p @ q" by auto
  moreover from z have "ag_log z = ag_log y @ [restoreCmd ?tmp ?strip]"
    unfolding restoreFromFile_def by (simp only: runOK_logs)
  ultimately have "ag_log t = ag_log v @ flushCmd E # (p @ q) @ [restoreCmd ?tmp ?strip]" using t wz by simp
  then show "\<exists>pre post. ag_log t = pre @ flushCmd E # post @ [restoreCmd ?tmp ?strip]" by blast
  show "ag_timer t = None" using t wz by (simp add: revertCancel_def removeFile_def)
qed

text \<open>
  C12 (FLUSHED): when loading the new rules fails, the host keeps no rules: the flush has been done,
  the failing restore is the last command, the dumped rules are not restored, and no revert is
  left armed. The other failures after the flush do revert.
\<close>

theorem ApplyBundle_restore_failure:
  assumes "ApplyBundle C E confirm b key s = (Inl (Wrap ''rule restore failed'' es), t)" and "quiet E"
  shows "(\<exists>pre post. ag_log t = pre @ flushCmd E # post @
       [restoreCmd (ev_temp E bundlePattern) (stripIpsetSection (bu_Rules b))]) \<and> ag_timer t = None"
  using ApplyBundle_restore_failure_facts [OF assms] by blast

section \<open>An example host\<close>

text \<open>
  A host whose firewall state is the text last loaded into it. The probe answers with the given
  status, and loading the rules can be made to fail.
\<close>

definition exRun :: "bool \<Rightarrow> files \<Rightarrow> string list \<Rightarrow> string \<Rightarrow> cmdres \<times> string" where
  "exRun loads fs args k =
     (if args = [''iptables-save''] then (CmdOK k, k)
      else if hd args = ''iptables-restore'' then
        (case fs (last args) of
           Some txt \<Rightarrow> if loads then (CmdOK [], txt) else (CmdErr (CmdExit 1) [], k)
         | None \<Rightarrow> (CmdErr (CmdExit 1) [], k))
      else if args = [''iptables'', ''-t'', ''filter'', ''-F''] then (CmdOK [], [])
      else (CmdOK [], k))"

definition exEnv :: "bool \<Rightarrow> int \<Rightarrow> string env" where
  "exEnv loads status =
     \<lparr>ev_run = exRun loads, ev_probe = (\<lambda>_. ProbeStatus status), ev_iptables = True, ev_docker = False,
      ev_temp = (\<lambda>pattern. ''/tmp/'' @ pattern), ev_fails = (\<lambda>_. False), ev_isDir = (\<lambda>_. False), ev_fires = (\<lambda>_. False)\<rparr>"

definition exAgent :: "string agent" where
  "exAgent = \<lparr>ag_kernel = ''*filter'', ag_files = (\<lambda>_. None), ag_timer = None, ag_log = [], ag_confirmed = []\<rparr>"

definition exRules :: string where
  "exRules = unlines [''*filter'', '':INPUT DROP [0:0]'', '':OUTPUT DROP [0:0]'', ''COMMIT'']"

definition exBundle :: BundleResponse where
  "exBundle = \<lparr>bu_Version = ''v1'', bu_VersionNumber = 1, bu_Rules = exRules,
     bu_HMAC = SignWithVersion exCrypto exRules ''key'' 1\<rparr>"

definition exApply :: "bool \<Rightarrow> int \<Rightarrow> unit res \<times> string agent" where
  "exApply loads status = ApplyBundle exCrypto (exEnv loads status) True exBundle ''key'' exAgent"

lemma exEnv_quiet [simp]: "quiet (exEnv loads status)"
  by (simp add: quiet_def exEnv_def)

lemma exApply_pair: "exApply loads status = (fst (exApply loads status), snd (exApply loads status))"
  by simp

lemma exBundle_verifies: "VerifyWithVersion exCrypto (bu_Rules exBundle) ''key'' (bu_HMAC exBundle) (bu_VersionNumber exBundle)"
  by code_simp

lemma exBundle_valid: "validateRules (bu_Rules exBundle) = Inr ()"
  by code_simp

lemma exBundle_strip: "stripIpsetSection (bu_Rules exBundle) = exRules" "containsStr (bu_Rules exBundle) ipsetMarker = False"
  "IsNftFormat exRules = False" "trimSpace ''*filter'' = ''*filter''" "IsNftFormat ''*filter'' = False"
  by code_simp+

lemma exApply_results:
  "fst (exApply True 200) = Inr ()" "fst (exApply True 500) = Inl (Leaf ''smoke test failed, reverted'')"
  "fst (exApply False 200) = Inl (Wrap ''rule restore failed'' [Leaf ''restore failed''])"
  unfolding exApply_def ApplyBundle_def exBundle_valid
  by (simp_all add: exBundle_verifies exBundle_strip bindS_def wrapS_def dumpCurrentRules_def DumpRules_def runCmd_def
     exEnv_def exRun_def exAgent_def writeTempFile_def applyRules_def flushIPTables_def runOK_def bundleIpsets_def
     restoreFromFile_def restoreCmd_def finishApply_def smokeTest_def tick_def scheduleRevert_def ignoreS_def persistBackup_def
     WriteFileAtomic_def removeLegacyFile_def removeFile_def bundlePattern_def LocalBackupPath_def LegacyLocalBackupPath_def Let_def)

lemma exApply_run: "ApplyBundle exCrypto (exEnv loads status) True exBundle ''key'' exAgent = (fst (exApply loads status), snd (exApply loads status))"
  by (simp add: exApply_def)

theorem ApplyBundle_refuses_witness:
  "VerifyWithVersion exCrypto (bu_Rules exBundle) ''key'' (bu_HMAC exBundle) (bu_VersionNumber exBundle) \<and>
   validateRules (bu_Rules exBundle) = Inr ()"
  by (rule ApplyBundle_refuses [OF exApply_run [of True 200]]) (simp add: exApply_results)


theorem ApplyBundle_applied_witness: "ag_files (snd (exApply True 200)) CachedBundlePath = Some exRules"
proof -
  have "ApplyBundle exCrypto (exEnv True 200) True exBundle ''key'' exAgent = (Inr (), snd (exApply True 200))"
    using exApply_run [of True 200] by (simp only: exApply_results)
  from ApplyBundle_applied [OF this exEnv_quiet] show ?thesis
    by (simp add: exEnv_def CachedBundlePath_def exBundle_def)
qed

theorem ApplyBundle_rolls_back_witness:
  "\<exists>pre. ag_log (snd (exApply True 500)) = pre @ [restoreCmd ''/tmp/runic-revert-*.rules'' ''*filter'']"
proof -
  let ?E = "exEnv True 500"
  have "ApplyBundle exCrypto ?E True exBundle ''key'' exAgent = (Inl (Leaf ''smoke test failed, reverted''), snd (exApply True 500))"
    using exApply_run [of True 500] by (simp only: exApply_results)
  moreover have "DumpRules ?E exAgent = (Inr ''*filter'', snd (DumpRules ?E exAgent))"
    by (simp add: DumpRules_def runCmd_def exEnv_def exRun_def exAgent_def)
  ultimately show ?thesis
    using ApplyBundle_rolls_back [of exCrypto ?E True exBundle "''key''" exAgent _ "snd (exApply True 500)" "''*filter''" "snd (DumpRules ?E exAgent)"]
    by (simp add: exBundle_strip) (auto simp: exEnv_def revertPattern_def)
qed

theorem ApplyBundle_restore_failure_witness:
  "\<exists>pre post. ag_log (snd (exApply False 200)) = pre @ flushCmd (exEnv False 200) # post @ [restoreCmd ''/tmp/runic-bundle-*.rules'' exRules]"
proof -
  have "ApplyBundle exCrypto (exEnv False 200) True exBundle ''key'' exAgent =
      (Inl (Wrap ''rule restore failed'' [Leaf ''restore failed'']), snd (exApply False 200))"
    using exApply_run [of False 200] by (simp only: exApply_results)
  from ApplyBundle_restore_failure [OF this exEnv_quiet] show ?thesis
    by (simp add: exBundle_strip) (simp add: exEnv_def bundlePattern_def)
qed

end
