(* ===== verification/Delivery.thy ===== *)
theory Delivery
  imports Agent_Apply
begin

text \<open>
  How a stored bundle gets from the control plane onto a host: the handler that serves the latest
  bundle (\<^verbatim>\<open>GetBundle\<close> in \<^verbatim>\<open>internal/api/agents/handlers.go\<close>, with
  \<^verbatim>\<open>GetLatestBundle\<close> in \<^verbatim>\<open>internal/store/peer_store.go\<close>) and the pull of the agent
  (\<^verbatim>\<open>PullBundle\<close> in \<^verbatim>\<open>internal/agent/transport/puller.go\<close>), and what the two and the
  compiler guarantee together. JSON is taken to carry the four fields faithfully.
\<close>

section \<open>Serving\<close>

text \<open>
  \<open>created\<close> is the column \<^verbatim>\<open>created_at\<close>, which the database fills in with a resolution of
  one second. Among rows of the same second the statement leaves the order open; the model takes
  the first in the table.
\<close>

definition GetLatestBundle :: "(int \<Rightarrow> int) \<Rightarrow> (int \<Rightarrow> bool) \<Rightarrow> database \<Rightarrow> int \<Rightarrow> bundle_row res" where
  "GetLatestBundle created fails db peerID =
     (if fails peerID then Inl (Wrap ''get latest bundle'' [Leaf ''database error''])
      else case sort_key (\<lambda>b. - created (b_id b)) (filter (\<lambda>b. b_peer_id b = peerID) (db_bundles db)) of
        [] \<Rightarrow> Inl (Wrap ''get latest bundle'' [Sentinel ErrNoRows])
      | b # _ \<Rightarrow> Inr b)"

datatype bundleReply = BundleNotFound | BundleError | BundleNotModified | BundleOK BundleResponse

definition bundleResponse :: "bundle_row \<Rightarrow> BundleResponse" where
  "bundleResponse b = \<lparr>bu_Version = b_version b, bu_VersionNumber = b_version_number b, bu_Rules = b_rules_content b, bu_HMAC = b_hmac b\<rparr>"

definition GetBundle :: "(int \<Rightarrow> int) \<Rightarrow> (int \<Rightarrow> bool) \<Rightarrow> database \<Rightarrow> int \<Rightarrow> string \<Rightarrow> bundleReply" where
  "GetBundle created fails db serverID ifNoneMatch =
     (case GetLatestBundle created fails db serverID of
        Inl e \<Rightarrow> if errIs e ErrNoRows then BundleNotFound else BundleError
      | Inr bundle \<Rightarrow> if ifNoneMatch = b_version bundle then BundleNotModified else BundleOK (bundleResponse bundle))"

section \<open>Pulling\<close>

text \<open>The header is left out when the agent has no version; the reply is None when the request fails.\<close>

definition PullBundle :: "(string \<Rightarrow> bundleReply option) \<Rightarrow> string \<Rightarrow> (BundleResponse \<Rightarrow> (unit, 's) step) \<Rightarrow> (unit, 's) step" where
  "PullBundle server currentBundleVer applyFunc =
     (case server currentBundleVer of
        None \<Rightarrow> failS (Wrap ''bundle fetch'' [Leaf ''request failed''])
      | Some BundleNotModified \<Rightarrow> returnS ()
      | Some (BundleOK bundle) \<Rightarrow> applyFunc bundle
      | Some BundleNotFound \<Rightarrow> failS (Leaf ''bundle fetch failed'')
      | Some BundleError \<Rightarrow> failS (Leaf ''bundle fetch failed''))"

section \<open>The latest bundle\<close>

lemma hd_sort_key:
  assumes "x \<in> set xs" and "\<And>y. y \<in> set xs \<Longrightarrow> y \<noteq> x \<Longrightarrow> f x < f y"
  shows "\<exists>rest. sort_key f xs = x # rest"
proof (cases "sort_key f xs")
  case Nil
  then show ?thesis using assms(1) by (metis empty_iff list.set(1) set_sort)
next
  case (Cons y ys)
  then have y: "y \<in> set xs" "\<forall>z \<in> set xs. f y \<le> f z"
    using sorted_sort_key [of f xs] set_sort [of f xs] by auto
  then have "y = x" using assms by (metis leD)
  then show ?thesis using Cons by blast
qed

lemma GetLatestBundle_newest:
  assumes "b \<in> set (db_bundles db)" and "b_peer_id b = peerID" and "\<not> fails peerID"
    and "\<And>c. c \<in> set (db_bundles db) \<Longrightarrow> b_peer_id c = peerID \<Longrightarrow> c \<noteq> b \<Longrightarrow> created (b_id c) < created (b_id b)"
  shows "GetLatestBundle created fails db peerID = Inr b"
  using hd_sort_key [of b "filter (\<lambda>b. b_peer_id b = peerID) (db_bundles db)" "\<lambda>b. - created (b_id b)"] assms
  by (auto simp: GetLatestBundle_def)

section \<open>Signatures\<close>

text \<open>What the server and the agent rely on: a signature verifies under its key and version.\<close>

locale signature_scheme =
  fixes sign :: "string \<Rightarrow> string \<Rightarrow> int \<Rightarrow> string"
    and verify :: "string \<Rightarrow> string \<Rightarrow> string \<Rightarrow> int \<Rightarrow> bool"
  assumes verify_sign: "verify content key (sign content key v) v"
begin

lemma served_verifies:
  "b_hmac b = sign (b_rules_content b) key (b_version_number b) \<Longrightarrow>
     verify (bu_Rules (bundleResponse b)) key (bu_HMAC (bundleResponse b)) (bu_VersionNumber (bundleResponse b))"
  by (simp add: bundleResponse_def verify_sign)

end

interpretation sg: signature_scheme "SignWithVersion C" "VerifyWithVersion C" for C
  by unfold_locales (simp add: VerifyWithVersion_def SignWithVersion_def signWithDerivedKey_def)

section \<open>A healthy host\<close>

text \<open>
  Every command and file operation works, the control plane answers the probe, and temporary files
  do not collide with the cache.
\<close>

definition healthy :: "'k env \<Rightarrow> bool" where
  "healthy E \<longleftrightarrow> quiet E \<and> (\<forall>fs args k. \<exists>out k'. ev_run E fs args k = (CmdOK out, k')) \<and> (\<forall>io. \<not> ev_fails E io) \<and>
     (\<forall>k. ev_probe E k = ProbeStatus 200) \<and> ev_temp E bundlePattern \<noteq> CachedBundlePath"

lemma healthy_runCmd: "healthy E \<Longrightarrow> \<exists>out t. runCmd E args s = (CmdOK out, t)"
  unfolding runCmd_def healthy_def by (metis (no_types, lifting) case_prod_conv)

lemma succeedsS_command:
  assumes "healthy E" and "\<And>s out t. runCmd E args s = (CmdOK out, t) \<Longrightarrow> \<exists>v u. m s = (Inr v, u)"
  shows "succeedsS m"
  unfolding succeedsS_def using healthy_runCmd [OF assms(1)] assms(2) by blast

lemma healthy_runOK [succeedsS_intros]: "healthy E \<Longrightarrow> succeedsS (runOK E msg args)"
  by (rule succeedsS_command [where E = E and args = args]) (simp_all add: runOK_def)

lemma healthy_dropIpset [succeedsS_intros]: "healthy E \<Longrightarrow> succeedsS (dropIpset E verb name)"
  by (rule succeedsS_command [where E = E and args = "[''ipset'', verb, name]"]) (simp_all add: dropIpset_def)

lemma healthy_runIpset [succeedsS_intros]: "healthy E \<Longrightarrow> succeedsS (runIpset E name t fam)"
  by (rule succeedsS_command [where E = E and args = "[''ipset'', ''create'', name, t, ''family'', fam]"]) (simp_all add: runIpset_def)

lemma healthy_dump [succeedsS_intros]: "healthy E \<Longrightarrow> succeedsS (dumpCurrentRules E)"
  by (rule succeedsS_command [where E = E and args = "[''iptables-save'']"]) (simp_all add: dumpCurrentRules_def DumpRules_def)

lemma succeedsS_each [succeedsS_intros]:
  assumes "\<And>x. succeedsS (f x)"
  shows "succeedsS (eachS f xs)"
proof (induction xs)
  case (Cons x xs)
  then show ?case unfolding eachS.simps using assms by (intro succeedsS_intros)
qed (simp only: eachS.simps succeedsS_return)

lemma healthy_flushNames [succeedsS_intros]: "healthy E \<Longrightarrow> succeedsS (flushNames E names)"
proof (induction names)
  case (Cons n names)
  then show ?case unfolding flushNames.simps Let_def by (intro succeedsS_intros)
qed (simp only: flushNames.simps succeedsS_return)

lemma healthy_flushRunicIpsets [succeedsS_intros]: "healthy E \<Longrightarrow> succeedsS (flushRunicIpsets E)"
  by (rule succeedsS_command [where E = E and args = "[''ipset'', ''list'', ''-n'']"])
    (use healthy_flushNames [of E] in \<open>simp_all add: flushRunicIpsets_def succeedsS_def\<close>)

lemma healthy_flushIPTables [succeedsS_intros]: "healthy E \<Longrightarrow> succeedsS (flushIPTables E)"
proof -
  assume h: "healthy E"
  have "succeedsS (\<lambda>s. (Inr (), g s))" for g :: "'a agent \<Rightarrow> 'a agent" by (simp add: succeedsS_def)
  then show ?thesis unfolding flushIPTables_def using h by (intro succeedsS_intros)
qed

text \<open>The set definitions of a bundle can be read.\<close>

definition readableSets :: "string \<Rightarrow> bool" where
  "readableSets rules \<longleftrightarrow> \<not> containsStr rules ipsetMarker \<or>
     (\<exists>section defs. extractIpsetSection rules = Inr section \<and> parseIpsetDefs section = Inr defs)"

lemma healthy_bundleIpsets:
  assumes h: "healthy E" and r: "readableSets rules"
  shows "succeedsS (bundleIpsets E rules)"
proof -
  have "succeedsS (applyDef E def)" for def
    unfolding applyDef_def addIpsetMember_def using h by (intro succeedsS_intros)
  then have "succeedsS (bindS (wrapS msg (flushRunicIpsets E)) (\<lambda>_. eachS (applyDef E) defs))" for msg defs
    using h by (intro succeedsS_intros)
  then show ?thesis
    using r unfolding bundleIpsets_def applyIpsets_def readableSets_def
    by (auto simp del: stepS_simps intro!: succeedsS_intros)
qed

lemma healthy_applies:
  assumes h: "healthy E" and v: "VerifyWithVersion C (bu_Rules b) key (bu_HMAC b) (bu_VersionNumber b)"
    and ok: "validateRules (bu_Rules b) = Inr ()" and sets: "readableSets (bu_Rules b)"
  shows "\<exists>t. ApplyBundle C E confirm b key s = (Inr (), t)"
proof -
  have q: "quiet E" and io: "\<not> ev_fails E i" for i using h by (auto simp: healthy_def)
  obtain backup u where dump: "dumpCurrentRules E s = (Inr backup, u)"
    using healthy_dump [OF h] unfolding succeedsS_def by blast
  have fin: "\<exists>t. finishApply E confirm b backup u = (Inr (), t)" for backup u
    using h q by (auto simp: finishApply_def Let_def smokeTest_def healthy_def)
  have "\<exists>t. applyRules E confirm b backup tmp u = (Inr (), t)" for backup tmp u
  proof -
    obtain u1 where 1: "flushIPTables E u = (Inr (), u1)" using succeedsS_unit [OF healthy_flushIPTables [OF h]] by blast
    obtain u2 where 2: "bundleIpsets E (bu_Rules b) u1 = (Inr (), u2)" using succeedsS_unit [OF healthy_bundleIpsets [OF h sets]] by blast
    obtain u3 where 3: "restoreFromFile E tmp (stripIpsetSection (bu_Rules b)) u2 = (Inr (), u3)"
      unfolding restoreFromFile_def using succeedsS_unit [OF healthy_runOK [OF h]] by blast
    show ?thesis using 1 2 3 fin q by (simp add: applyRules_def)
  qed
  then obtain t where "applyRules E confirm b backup (ev_temp E bundlePattern)
      (let u' = scheduleRevert backup (ignoreS (persistBackup E backup) u)
       in u'\<lparr>ag_files := (ag_files u')(ev_temp E bundlePattern \<mapsto> stripIpsetSection (bu_Rules b))\<rparr>) = (Inr (), t)" by blast
  then show ?thesis
    using v ok dump io by (simp add: ApplyBundle_def bindS_def wrapS_def writeTempFile_def Let_def)
qed

section \<open>From the compiler to the host\<close>

lemma stored_row:
  assumes "CompileAndStore C db now peerID = Inr (db', row)" and "CompileLines db now peerID = Inr ls"
  shows "b_rules_content row = unlines ls"
proof -
  have "Compile db now peerID = Inr (b_rules_content row)" using CompileAndStore_Inr [OF assms(1)] by blast
  with assms(2) show ?thesis by (simp add: Compile_def)
qed


definition exHealthy :: "unit env" where
  "exHealthy = \<lparr>ev_run = (\<lambda>_ _ k. (CmdOK [], k)), ev_probe = (\<lambda>_. ProbeStatus 200), ev_iptables = True, ev_docker = False,
      ev_temp = (\<lambda>pattern. ''/tmp/'' @ pattern), ev_fails = (\<lambda>_. False), ev_isDir = (\<lambda>_. False), ev_fires = (\<lambda>_. False)\<rparr>"

lemma exHealthy_healthy: "healthy exHealthy"
  by (simp add: healthy_def exHealthy_def quiet_def CachedBundlePath_def)

lemma exDB_lines: "\<exists>ls. CompileLines exDB ''now'' 2 = Inr ls \<and> length ls \<le> 10000 \<and> readableSets (unlines ls)"
proof -
  have "(case CompileLines exDB ''now'' 2 of Inl _ \<Rightarrow> False
      | Inr ls \<Rightarrow> length ls \<le> 10000 \<and> list_all (\<lambda>l. \<not> containsStr l ipsetMarker) ls)"
    by code_simp
  then obtain ls where ls: "CompileLines exDB ''now'' 2 = Inr ls" "length ls \<le> 10000" and m: "\<forall>l \<in> set ls. \<not> containsStr l ipsetMarker"
    by (cases "CompileLines exDB ''now'' 2") (auto simp: list_all_iff)
  have "NL \<notin> set ipsetMarker" "ipsetMarker \<noteq> []" by code_simp+
  from indexStr_unlines [OF this m, of "[]"] have "indexStr (unlines ls) ipsetMarker = None" by (simp add: ipsetMarker_def)
  then show ?thesis using ls by (auto simp: readableSets_def containsStr_def)
qed


end
