(* ===== verification/Pending.thy ===== *)
theory Pending
  imports Example_Network
begin

text \<open>
  The tables of pending changes and of pending previews and the statements on them
  (\<^verbatim>\<open>internal/db/pending.go\<close>). Both tables refer to peers by a foreign key, which the
  database enforces. Identifiers and timestamps of rows are not modelled: rows are kept in the
  order of their insertion.
\<close>

section \<open>Statements\<close>

definition execS :: "query \<Rightarrow> (database \<Rightarrow> database) \<Rightarrow> (unit, database) step" where
  "execS q f db = (if db_fails db q then (Inl (Leaf ''database error''), db) else (Inr (), f db))"

definition samePending :: "int \<Rightarrow> string \<Rightarrow> int \<Rightarrow> string \<Rightarrow> change_row \<Rightarrow> bool" where
  "samePending peerID changeType changeID changeAction c =
     (c_peer_id c = peerID \<and> c_change_type c = changeType \<and> c_change_id c = changeID \<and> c_change_action c = changeAction)"

definition hasPending :: "database \<Rightarrow> int \<Rightarrow> string \<Rightarrow> int \<Rightarrow> string \<Rightarrow> bool" where
  "hasPending db peerID changeType changeID changeAction =
     list_ex (samePending peerID changeType changeID changeAction) (db_pending db)"

definition peerRow :: "database \<Rightarrow> int \<Rightarrow> bool" where
  "peerRow db peerID = list_ex (\<lambda>p. p_id p = peerID) (db_peers db)"

definition fkError :: goerr where
  "fkError = Leaf ''FOREIGN KEY constraint failed''"

text \<open>\<^verbatim>\<open>INSERT ... SELECT ... WHERE NOT EXISTS\<close>: one statement.\<close>

definition AddPendingChange :: "int \<Rightarrow> string \<Rightarrow> string \<Rightarrow> int \<Rightarrow> string \<Rightarrow> (unit, database) step" where
  "AddPendingChange peerID changeType changeAction changeID summary db =
     (if db_fails db (QAddPending peerID) then (Inl (Leaf ''database error''), db)
      else if hasPending db peerID changeType changeID changeAction then (Inr (), db)
      else if \<not> peerRow db peerID then (Inl fkError, db)
      else (Inr (), db\<lparr>db_pending := db_pending db @
             [\<lparr>c_peer_id = peerID, c_change_type = changeType, c_change_id = changeID, c_change_action = changeAction,
               c_summary = summary\<rparr>]\<rparr>))"

definition GetPendingChangesForPeer :: "database \<Rightarrow> int \<Rightarrow> change_row list res" where
  "GetPendingChangesForPeer db peerID =
     queryRows db (QPendingForPeer peerID) (filter (\<lambda>c. c_peer_id c = peerID) (db_pending db))"

definition ClearPendingChangesForPeer :: "int \<Rightarrow> (unit, database) step" where
  "ClearPendingChangesForPeer peerID =
     execS (QClearPending peerID) (\<lambda>db. db\<lparr>db_pending := filter (\<lambda>c. c_peer_id c \<noteq> peerID) (db_pending db)\<rparr>)"

definition GetPeersWithPendingChanges :: "database \<Rightarrow> int list res" where
  "GetPeersWithPendingChanges db =
     queryRows db QPeersWithPending
       (sort (remdups (filter (peerRow db) (map c_peer_id (db_pending db)))))"

definition SavePendingBundlePreview :: "int \<Rightarrow> string \<Rightarrow> string \<Rightarrow> string \<Rightarrow> (unit, database) step" where
  "SavePendingBundlePreview peerID rulesContent diffContent versionHash db =
     (let row = \<lparr>pv_peer_id = peerID, pv_rules_content = rulesContent, pv_diff_content = diffContent,
                 pv_version_hash = versionHash\<rparr> in
      if db_fails db (QSavePreview peerID) then (Inl (Leaf ''database error''), db)
      else if list_ex (\<lambda>v. pv_peer_id v = peerID) (db_previews db)
      then (Inr (), db\<lparr>db_previews := map (\<lambda>v. if pv_peer_id v = peerID then row else v) (db_previews db)\<rparr>)
      else if \<not> peerRow db peerID then (Inl fkError, db)
      else (Inr (), db\<lparr>db_previews := db_previews db @ [row]\<rparr>))"

definition DeletePendingBundlePreview :: "int \<Rightarrow> (unit, database) step" where
  "DeletePendingBundlePreview peerID =
     execS (QDeletePreview peerID) (\<lambda>db. db\<lparr>db_previews := filter (\<lambda>v. pv_peer_id v \<noteq> peerID) (db_previews db)\<rparr>)"

definition DeletePendingChangeForEntity :: "int \<Rightarrow> string \<Rightarrow> int \<Rightarrow> (unit, database) step" where
  "DeletePendingChangeForEntity peerID changeType changeID =
     execS (QDeletePendingEntity peerID) (\<lambda>db. db\<lparr>db_pending :=
       filter (\<lambda>c. \<not> (c_peer_id c = peerID \<and> c_change_type c = changeType \<and> c_change_id c = changeID)) (db_pending db)\<rparr>)"

definition CountPendingChangesForPeer :: "database \<Rightarrow> int \<Rightarrow> int res" where
  "CountPendingChangesForPeer db peerID =
     queryRow db (QCountPending peerID) [int (length (filter (\<lambda>c. c_peer_id c = peerID) (db_pending db)))]"

definition DeleteAllPendingBundlePreviews :: "(unit, database) step" where
  "DeleteAllPendingBundlePreviews =
     wrapS ''delete all pending bundle previews'' (execS QDeleteAllPreviews (\<lambda>db. db\<lparr>db_previews := []\<rparr>))"

section \<open>Invariant\<close>

definition pendingKey :: "change_row \<Rightarrow> int \<times> string \<times> int \<times> string" where
  "pendingKey c = (c_peer_id c, c_change_type c, c_change_id c, c_change_action c)"

text \<open>No change is pending twice for a peer, a peer has one preview, and both refer to peers that exist.\<close>

definition wf_pending :: "database \<Rightarrow> bool" where
  "wf_pending db \<longleftrightarrow>
     distinct (map pendingKey (db_pending db)) \<and> list_all (\<lambda>c. peerRow db (c_peer_id c)) (db_pending db) \<and>
     distinct (map pv_peer_id (db_previews db)) \<and> list_all (\<lambda>v. peerRow db (pv_peer_id v)) (db_previews db)"

lemma peerRow_upd [simp]:
  "peerRow (db\<lparr>db_pending := c\<rparr>) p = peerRow db p" "peerRow (db\<lparr>db_previews := v\<rparr>) p = peerRow db p"
  by (simp_all add: peerRow_def)

lemma hasPending_key:
  "hasPending db peerID changeType changeID changeAction \<longleftrightarrow>
     (peerID, changeType, changeID, changeAction) \<in> set (map pendingKey (db_pending db))"
  by (auto simp: hasPending_def samePending_def pendingKey_def list_ex_iff)

lemma AddPendingChange_wf [keepsS_intros]: "keepsS wf_pending (AddPendingChange p t a i s)"
proof -
  have "wf_pending (snd (AddPendingChange p t a i s db))" if "wf_pending db" for db
    using that hasPending_key [of db p t i a] by (auto simp: AddPendingChange_def wf_pending_def pendingKey_def)
  then show ?thesis by (simp add: keepsS_def)
qed

lemma distinct_map_upd:
  assumes "distinct (map f xs)" and "\<And>x. x \<in> set xs \<Longrightarrow> f (g x) = f x"
  shows "distinct (map f (map g xs))"
proof -
  have "map f (map g xs) = map f xs" using assms(2) by (simp add: list_eq_iff_nth_eq)
  then show ?thesis using assms(1) by (simp only:)
qed

lemma SavePendingBundlePreview_wf [keepsS_intros]: "keepsS wf_pending (SavePendingBundlePreview p r d h)"
proof -
  let ?row = "\<lparr>pv_peer_id = p, pv_rules_content = r, pv_diff_content = d, pv_version_hash = h\<rparr>"
  have "wf_pending (snd (SavePendingBundlePreview p r d h db))" if wf: "wf_pending db" for db
  proof (cases "list_ex (\<lambda>v. pv_peer_id v = p) (db_previews db)")
    case True
    then have "peerRow db p" using wf by (auto simp: wf_pending_def list_ex_iff list_all_iff)
    with wf True show ?thesis
      using distinct_map_upd [of pv_peer_id "db_previews db" "\<lambda>v. if pv_peer_id v = p then ?row else v"]
      by (auto simp: SavePendingBundlePreview_def wf_pending_def Let_def list_all_iff)
  next
    case False
    then show ?thesis using wf
      by (auto simp: SavePendingBundlePreview_def wf_pending_def Let_def list_all_iff list_ex_iff)
  qed
  then show ?thesis by (simp add: keepsS_def)
qed

lemma delete_wf [keepsS_intros]:
  "keepsS wf_pending (ClearPendingChangesForPeer p)" "keepsS wf_pending (DeletePendingBundlePreview p)"
  "keepsS wf_pending (DeletePendingChangeForEntity p t i)" "keepsS wf_pending DeleteAllPendingBundlePreviews"
  unfolding ClearPendingChangesForPeer_def DeletePendingBundlePreview_def DeletePendingChangeForEntity_def
    DeleteAllPendingBundlePreviews_def
  by (auto simp: keepsS_def execS_def wrapS_def wf_pending_def list_all_iff distinct_map inj_on_def)

section \<open>Behaviour\<close>

text \<open>An insert that succeeds leaves the row there, keeps every other, and a second one changes nothing.\<close>

lemma AddPendingChange_Inr:
  assumes "AddPendingChange p t a i s db = (Inr (), db')"
  shows "hasPending db' p t i a" and "hasPending db q u j b \<Longrightarrow> hasPending db' q u j b"
  using assms by (auto simp: AddPendingChange_def hasPending_def samePending_def split: if_splits)

lemma AddPendingChange_frame:
  "\<exists>rows. snd (AddPendingChange p t a i s db) = db\<lparr>db_pending := db_pending db @ rows\<rparr>"
  by (auto simp: AddPendingChange_def intro: exI [of _ "[]"])

lemma AddPendingChange_idempotent:
  assumes "AddPendingChange p t a i s db = (Inr (), db')"
  shows "AddPendingChange p t a i s' db' = (Inr (), db')"
proof -
  have "db_fails db' = db_fails db" "\<not> db_fails db (QAddPending p)"
    using assms by (auto simp: AddPendingChange_def split: if_splits)
  then show ?thesis using AddPendingChange_Inr(1) [OF assms] by (simp add: AddPendingChange_def)
qed

end
