(* ===== verification/Regexp.thy ===== *)
theory Regexp
  imports Go_Strings
begin

text \<open>
  Regular expressions as \<^verbatim>\<open>regexp.MatchString\<close> decides them for an expression anchored at both
  ends: a matcher by derivatives, shown to decide the language of the expression. The classes of
  the expressions in the sources hold ASCII characters only, so matching bytes is matching runes.
\<close>

datatype re =
    Never
  | Empty
  | Class "char \<Rightarrow> bool"
  | Alt re re
  | Seq re re
  | Rep re

fun nullable :: "re \<Rightarrow> bool" where
  "nullable Never = False"
| "nullable Empty = True"
| "nullable (Class _) = False"
| "nullable (Alt r s) = (nullable r \<or> nullable s)"
| "nullable (Seq r s) = (nullable r \<and> nullable s)"
| "nullable (Rep _) = True"

fun deriv :: "char \<Rightarrow> re \<Rightarrow> re" where
  "deriv c Never = Never"
| "deriv c Empty = Never"
| "deriv c (Class P) = (if P c then Empty else Never)"
| "deriv c (Alt r s) = Alt (deriv c r) (deriv c s)"
| "deriv c (Seq r s) = (if nullable r then Alt (Seq (deriv c r) s) (deriv c s) else Seq (deriv c r) s)"
| "deriv c (Rep r) = Seq (deriv c r) (Rep r)"

definition matchString :: "re \<Rightarrow> string \<Rightarrow> bool" where
  "matchString r s = nullable (foldl (\<lambda>r c. deriv c r) r s)"

text \<open>\<^verbatim>\<open>{1,n}\<close>.\<close>

fun upTo :: "nat \<Rightarrow> re \<Rightarrow> re" where
  "upTo 0 r = Never"
| "upTo (Suc n) r = Seq r (Alt Empty (upTo n r))"

section \<open>The language\<close>

inductive accepts :: "re \<Rightarrow> string \<Rightarrow> bool" where
  accepts_Empty: "accepts Empty []"
| accepts_Class: "P c \<Longrightarrow> accepts (Class P) [c]"
| accepts_left: "accepts r u \<Longrightarrow> accepts (Alt r s) u"
| accepts_right: "accepts s u \<Longrightarrow> accepts (Alt r s) u"
| accepts_Seq: "accepts r u \<Longrightarrow> accepts s v \<Longrightarrow> accepts (Seq r s) (u @ v)"
| accepts_done: "accepts (Rep r) []"
| accepts_more: "accepts r u \<Longrightarrow> accepts (Rep r) v \<Longrightarrow> accepts (Rep r) (u @ v)"

inductive_cases acceptsE [elim!]: "accepts Never u" "accepts Empty u" "accepts (Class P) u" "accepts (Alt r s) u" "accepts (Seq r s) u"

lemma accepts_simps [simp]:
  "\<not> accepts Never u" "accepts Empty u \<longleftrightarrow> u = []" "accepts (Class P) u \<longleftrightarrow> (\<exists>c. u = [c] \<and> P c)"
  "accepts (Alt r s) u \<longleftrightarrow> accepts r u \<or> accepts s u"
  by (auto intro: accepts.intros)

lemma accepts_Seq_iff: "accepts (Seq r s) w \<longleftrightarrow> (\<exists>u v. w = u @ v \<and> accepts r u \<and> accepts s v)"
  by (auto intro: accepts.intros)

lemma accepts_Rep_iff: "accepts (Rep r) w \<longleftrightarrow> (\<exists>ws. w = concat ws \<and> list_all (accepts r) ws)"
proof
  assume "accepts (Rep r) w"
  then show "\<exists>ws. w = concat ws \<and> list_all (accepts r) ws"
  proof (induction "Rep r" w rule: accepts.induct)
    case accepts_done
    then show ?case by (intro exI [of _ "[]"]) simp
  next
    case (accepts_more u v)
    then obtain ws where "v = concat ws" "list_all (accepts r) ws" by blast
    with accepts_more show ?case by (intro exI [of _ "u # ws"]) simp
  qed
next
  assume "\<exists>ws. w = concat ws \<and> list_all (accepts r) ws"
  then obtain ws where "w = concat ws" "list_all (accepts r) ws" by blast
  then show "accepts (Rep r) w" by (induction ws arbitrary: w) (auto intro: accepts.intros)
qed

lemma nullable_iff: "nullable r \<longleftrightarrow> accepts r []"
  by (induction r) (auto simp: accepts_Seq_iff intro: accepts.intros)

lemma accepts_Rep_Cons: "accepts (Rep r) (c # w) \<longleftrightarrow> (\<exists>u v. w = u @ v \<and> accepts r (c # u) \<and> accepts (Rep r) v)"
proof
  assume "accepts (Rep r) (c # w)"
  then obtain ws where "c # w = concat ws" "list_all (accepts r) ws" by (auto simp: accepts_Rep_iff)
  then show "\<exists>u v. w = u @ v \<and> accepts r (c # u) \<and> accepts (Rep r) v"
  proof (induction ws)
    case (Cons x ws)
    show ?case
    proof (cases x)
      case Nil
      with Cons show ?thesis by simp
    next
      case (Cons d x')
      with Cons.prems have "w = x' @ concat ws" "accepts r (c # x')" "accepts (Rep r) (concat ws)"
        by (auto simp: accepts_Rep_iff)
      then show ?thesis by blast
    qed
  qed simp
next
  assume "\<exists>u v. w = u @ v \<and> accepts r (c # u) \<and> accepts (Rep r) v"
  then show "accepts (Rep r) (c # w)" by (metis accepts_more append_Cons)
qed

lemma deriv_iff: "accepts (deriv c r) w \<longleftrightarrow> accepts r (c # w)"
proof (induction r arbitrary: w)
  case (Seq r s)
  have "accepts (Seq r s) (c # w) \<longleftrightarrow>
      (accepts r [] \<and> accepts s (c # w)) \<or> (\<exists>u v. w = u @ v \<and> accepts r (c # u) \<and> accepts s v)"
    by (auto simp: accepts_Seq_iff Cons_eq_append_conv)
  then show ?case using Seq by (auto simp: nullable_iff accepts_Seq_iff)
next
  case (Rep r)
  then show ?case by (simp add: accepts_Rep_Cons accepts_Seq_iff)
qed auto

lemma matchString_iff: "matchString r s \<longleftrightarrow> accepts r s"
proof (induction s arbitrary: r)
  case Nil
  then show ?case by (simp add: matchString_def nullable_iff)
next
  case (Cons c s)
  have "matchString r (c # s) = matchString (deriv c r) s" by (simp add: matchString_def)
  then show ?case by (simp add: Cons deriv_iff)
qed

lemma accepts_Class_Seq: "accepts (Seq (Class P) r) s \<longleftrightarrow> (\<exists>c t. s = c # t \<and> P c \<and> accepts r t)"
  by (simp add: accepts_Seq_iff) (metis append_Cons append_Nil)

lemma accepts_upTo_Class: "accepts (upTo n (Class P)) s \<longleftrightarrow> s \<noteq> [] \<and> length s \<le> n \<and> list_all P s"
proof (induction n arbitrary: s)
  case 0
  then show ?case by simp
next
  case (Suc n)
  show ?case
  proof (cases s)
    case Nil
    then show ?thesis by (simp add: accepts_Class_Seq)
  next
    case (Cons c t)
    have "accepts (upTo (Suc n) (Class P)) s \<longleftrightarrow> P c \<and> (t = [] \<or> accepts (upTo n (Class P)) t)"
      by (simp add: accepts_Class_Seq Cons)
    then show ?thesis using Suc [of t] Cons by auto
  qed
qed

lemma accepts_Rep_Class: "accepts (Rep (Class P)) s \<longleftrightarrow> list_all P s"
proof (induction s)
  case Nil
  then show ?case by (auto intro: accepts.intros)
next
  case (Cons c s)
  then show ?case by (auto simp: accepts_Rep_Cons)
qed

end
