(* ===== verification/Validation.thy ===== *)
theory Validation
  imports Regexp Ports Resolve Database
begin

text \<open>
  Validation of requests (\<^verbatim>\<open>internal/api/common/validate.go\<close>, \<^verbatim>\<open>validation.go\<close>, the
  validators of the policy and service handlers, and the port check of
  \<^verbatim>\<open>internal/store/service_store.go\<close>).
\<close>

section \<open>Formats\<close>

definition alnum :: "char \<Rightarrow> bool" where
  "alnum c = (isUpper c \<or> isLower c \<or> isDigit c)"

definition labelRe :: re where
  "labelRe = Seq (Class alnum) (Alt Empty (Seq (Rep (Class (\<lambda>c. alnum c \<or> c = CHR ''-''))) (Class alnum)))"

definition hostnameRegex :: re where
  "hostnameRegex = Seq labelRe (Rep (Seq (Class (\<lambda>c. c = CHR ''.'')) labelRe))"

definition nameChar :: "char \<Rightarrow> bool" where
  "nameChar c = (alnum c \<or> c = CHR ''_'' \<or> c = CHR ''-'' \<or> c = CHR '' '')"

definition nameRegex :: re where
  "nameRegex = upTo 100 (Class nameChar)"

definition ValidateHostname :: "string \<Rightarrow> unit res" where
  "ValidateHostname h =
     (if h = [] then Inl (Leaf ''hostname is required'')
      else if length h > 253 then Inl (Leaf ''hostname must be 1-253 characters'')
      else if \<not> matchString hostnameRegex h
      then Inl (Leaf ''hostname must be alphanumeric with hyphens and dots only, and must start and end with alphanumeric'')
      else Inr ())"

definition ValidatePlainIP :: "string \<Rightarrow> unit res" where
  "ValidatePlainIP ip =
     (if ip = [] then Inl (Leaf ''IP address is required'')
      else if ParseIP ip = None then Inl (Leaf ''invalid IP address'')
      else Inr ())"

definition ValidateName :: "string \<Rightarrow> unit res" where
  "ValidateName name =
     (let name = trimSpace name in
      if name = [] then Inl (Leaf ''name is required'')
      else if length name > 100 then Inl (Leaf ''name must be 1-100 characters'')
      else if \<not> matchString nameRegex name
      then Inl (Leaf ''name must be alphanumeric with underscores, hyphens, and spaces only'')
      else Inr ())"

definition ValidatePeerOverrideIPs :: "string \<Rightarrow> string \<Rightarrow> string \<Rightarrow> string \<Rightarrow> unit res" where
  "ValidatePeerOverrideIPs sourceIP targetIP sourceType targetType =
     (if sourceIP \<noteq> [] \<and> sourceType \<noteq> ''peer'' then Inl (Leaf ''source_ip is only valid when source_type is peer'')
      else if targetIP \<noteq> [] \<and> targetType \<noteq> ''peer'' then Inl (Leaf ''target_ip is only valid when target_type is peer'')
      else bindE (if sourceIP \<noteq> [] then wrapE ''invalid source_ip'' (ValidatePeerCIDR sourceIP) else Inr ()) (\<lambda>_.
        if targetIP \<noteq> [] then wrapE ''invalid target_ip'' (ValidatePeerCIDR targetIP) else Inr ()))"

section \<open>Policies\<close>

text \<open>The fields of a request; an absent pointer is \<^const>\<open>None\<close>, an absent number or text its zero.\<close>

record policyInput =
  in_Name :: string
  in_SourceID :: int
  in_SourceType :: string
  in_ServiceID :: int
  in_TargetID :: int
  in_TargetType :: string
  in_SourceIP :: "string option"
  in_TargetIP :: "string option"
  in_Action :: string
  in_Priority :: int
  in_Enabled :: "bool option"
  in_TargetScope :: string
  in_Direction :: string

definition ptrText :: "string option \<Rightarrow> string" where
  "ptrText p = (case p of None \<Rightarrow> [] | Some s \<Rightarrow> s)"

definition orDefault :: "string \<Rightarrow> string \<Rightarrow> string" where
  "orDefault s d = (if s = [] then d else s)"

text \<open>The result is the input with the defaults the function writes into it.\<close>

definition validatePolicyInput :: "policyInput \<Rightarrow> bool \<Rightarrow> policyInput res" where
  "validatePolicyInput input isUpdate =
     bindE (if in_Name input \<noteq> [] then ValidateName (in_Name input) else Inr ()) (\<lambda>_.
      if \<not> isUpdate \<and> (in_Name input = [] \<or> in_SourceID input = 0 \<or> in_SourceType input = [] \<or> in_ServiceID input = 0 \<or>
           in_TargetID input = 0 \<or> in_TargetType input = [])
      then Inl (Leaf ''name, source_id, source_type, service_id, target_id, and target_type are required'')
      else if isUpdate \<and> in_Name input = [] then Inl (Leaf ''name is required'')
      else if in_SourceType input \<noteq> [] \<and> \<not> IsValidEntityType (in_SourceType input)
      then Inl (Leaf ''source_type must be one of: peer, group, special'')
      else if in_TargetType input \<noteq> [] \<and> \<not> IsValidEntityType (in_TargetType input)
      then Inl (Leaf ''target_type must be one of: peer, group, special'')
      else bindE (ValidatePeerOverrideIPs (ptrText (in_SourceIP input)) (ptrText (in_TargetIP input)) (in_SourceType input) (in_TargetType input)) (\<lambda>_.
        let direction = orDefault (in_Direction input) ''both''; scope = orDefault (in_TargetScope input) ''both'';
            action = orDefault (in_Action input) ''ACCEPT'' in
        if \<not> IsValidDirection direction then Inl (Leaf ''direction must be one of: both, forward, backward'')
        else if \<not> IsValidTargetScope scope then Inl (Leaf ''target_scope must be one of: both, host, docker'')
        else if \<not> IsValidAction action then Inl (Leaf ''action must be one of: ACCEPT, DROP, LOG_DROP'')
        else Inr (input\<lparr>in_Direction := direction, in_TargetScope := scope, in_Action := action\<rparr>)))"

text \<open>An override is kept only on a peer and when it is not empty.\<close>

definition keepOverride :: "string \<Rightarrow> string option \<Rightarrow> string option" where
  "keepOverride entityType ip = (if entityType \<noteq> ''peer'' \<or> ip = Some [] then None else ip)"

definition policyRowOf :: "int \<Rightarrow> bool \<Rightarrow> policyInput \<Rightarrow> policy_row" where
  "policyRowOf i enabled input =
     \<lparr>pl_id = i, pl_name = in_Name input, pl_source_id = in_SourceID input, pl_source_type = in_SourceType input,
      pl_service_id = in_ServiceID input, pl_target_id = in_TargetID input, pl_target_type = in_TargetType input,
      pl_source_ip = keepOverride (in_SourceType input) (in_SourceIP input),
      pl_target_ip = keepOverride (in_TargetType input) (in_TargetIP input),
      pl_action = in_Action input, pl_priority = in_Priority input, pl_enabled = enabled,
      pl_target_scope = in_TargetScope input, pl_direction = Some (in_Direction input), pl_pending_delete = False\<rparr>"

text \<open>The row a creation request asks for; the identifier is the database's.\<close>

definition createPolicyRow :: "policyInput \<Rightarrow> policy_row res" where
  "createPolicyRow input =
     bindE (validatePolicyInput input False) (\<lambda>input.
       Inr (policyRowOf 0 (case in_Enabled input of None \<Rightarrow> True | Some e \<Rightarrow> e)
         (input\<lparr>in_Action := orDefault (in_Action input) ''ACCEPT'',
                in_Priority := if in_Priority input = 0 then 100 else in_Priority input\<rparr>)))"

text \<open>Omitted fields of an update are those of the stored row.\<close>

definition mergePolicyInput :: "policy_row \<Rightarrow> policyInput \<Rightarrow> policyInput" where
  "mergePolicyInput existing input = input\<lparr>
     in_SourceID := if in_SourceID input = 0 then pl_source_id existing else in_SourceID input,
     in_SourceType := orDefault (in_SourceType input) (pl_source_type existing),
     in_ServiceID := if in_ServiceID input = 0 then pl_service_id existing else in_ServiceID input,
     in_TargetID := if in_TargetID input = 0 then pl_target_id existing else in_TargetID input,
     in_TargetType := orDefault (in_TargetType input) (pl_target_type existing),
     in_Action := orDefault (in_Action input) (pl_action existing),
     in_Priority := if in_Priority input = 0 then pl_priority existing else in_Priority input,
     in_TargetScope := orDefault (in_TargetScope input) (pl_target_scope existing),
     in_Direction := orDefault (in_Direction input) (ptrText (pl_direction existing)),
     in_SourceIP := if in_SourceIP input = None then pl_source_ip existing else in_SourceIP input,
     in_TargetIP := if in_TargetIP input = None then pl_target_ip existing else in_TargetIP input\<rparr>"

definition updatePolicyRow :: "int \<Rightarrow> policy_row \<Rightarrow> policyInput \<Rightarrow> policy_row res" where
  "updatePolicyRow i existing input =
     bindE (validatePolicyInput (mergePolicyInput existing input) True) (\<lambda>input.
       Inr (policyRowOf i (case in_Enabled input of None \<Rightarrow> pl_enabled existing | Some e \<Rightarrow> e) input))"

section \<open>Services\<close>

definition validProtocols :: "string list" where
  "validProtocols = [''tcp'', ''udp'', ''both'', ''icmp'', ''igmp'']"

definition validateService :: "string \<Rightarrow> string \<Rightarrow> string \<Rightarrow> bool \<Rightarrow> unit res" where
  "validateService ports sourcePorts protocol isSystem =
     (if protocol = ''icmp'' \<and> \<not> isSystem
      then Inl (Leaf ''ICMP protocol is reserved for system services and cannot be used for user-defined services'')
      else if protocol = ''igmp'' \<and> \<not> isSystem
      then Inl (Leaf ''IGMP protocol is reserved for system services and cannot be used for user-defined services'')
      else if protocol \<noteq> ''icmp'' \<and> protocol \<noteq> ''igmp'' \<and> protocol \<notin> set validProtocols
      then Inl (Leaf ''invalid protocol: must be tcp, udp, or both'')
      else if protocol = ''icmp'' \<or> protocol = ''igmp'' then Inr ()
      else if ports = [] \<and> sourcePorts = []
      then Inl (Leaf ''at least one port type (destination ports or source ports) is required'')
      else if ports \<noteq> [] \<and> \<not> ValidPortsRe ports then Inl (Leaf ''invalid destination ports: must be digits separated by commas or colons'')
      else if sourcePorts \<noteq> [] \<and> \<not> ValidPortsRe sourcePorts then Inl (Leaf ''invalid source ports: must be digits separated by commas or colons'')
      else Inr ())"

text \<open>The store's own check of a port list.\<close>

definition validPortPart :: "string \<Rightarrow> unit res" where
  "validPortPart part =
     (let part = trimSpace part in
      if part = [] then Inl (Leaf ''empty port entry in list'')
      else if containsByte part CHR '':'' then
        (let p0 = takeWhile (\<lambda>c. c \<noteq> CHR '':'') part; p1 = drop (Suc (length p0)) part in
         case atoi (trimSpace p0) of
           None \<Rightarrow> Inl (Leaf ''invalid port in range'')
         | Some lo \<Rightarrow>
             (case atoi (trimSpace p1) of
                None \<Rightarrow> Inl (Leaf ''invalid port in range'')
              | Some hi \<Rightarrow>
                  if lo < 1 \<or> lo > 65535 \<or> hi < 1 \<or> hi > 65535 \<or> lo > hi
                  then Inl (Leaf ''port range out of bounds'') else Inr ()))
      else
        (case atoi part of
           None \<Rightarrow> Inl (Leaf ''invalid port'')
         | Some p \<Rightarrow> if p < 1 \<or> p > 65535 then Inl (Leaf ''port out of range (1-65535)'') else Inr ()))"

definition validatePortList :: "string \<Rightarrow> unit res" where
  "validatePortList portList = bindE (mapE validPortPart (splitByte CHR '','' portList)) (\<lambda>_. Inr ())"

section \<open>Properties\<close>

definition isLabel :: "string \<Rightarrow> bool" where
  "isLabel s = (s \<noteq> [] \<and> list_all (\<lambda>c. alnum c \<or> c = CHR ''-'') s \<and> alnum (hd s) \<and> alnum (last s))"

lemma accepts_labelRe: "accepts labelRe s \<longleftrightarrow> isLabel s"
proof
  assume "accepts labelRe s"
  then show "isLabel s"
    by (auto simp: labelRe_def accepts_Class_Seq accepts_Seq_iff accepts_Rep_Class isLabel_def list_all_iff)
next
  assume l: "isLabel s"
  then obtain c t where s: "s = c # t" by (auto simp: isLabel_def neq_Nil_conv)
  show "accepts labelRe s"
  proof (cases t rule: rev_cases)
    case Nil
    with l s show ?thesis by (simp add: labelRe_def accepts_Class_Seq isLabel_def)
  next
    case (snoc u d)
    with l s have "alnum c" "alnum d" "list_all (\<lambda>c. alnum c \<or> c = CHR ''-'') u" by (auto simp: isLabel_def)
    then show ?thesis
      unfolding s snoc labelRe_def accepts_Class_Seq
      by (auto simp: accepts_Seq_iff accepts_Rep_Class)
  qed
qed

lemma alnum_dot: "alnum c \<Longrightarrow> c \<noteq> CHR ''.''"
  by (auto simp: alnum_def isUpper_def isLower_def isDigit_def)

lemma isLabel_dot: "isLabel s \<Longrightarrow> CHR ''.'' \<notin> set s"
  using alnum_dot by (force simp: isLabel_def list_all_iff)

lemma join_labels: "join ''.'' (l # ls) = l @ concat (map (\<lambda>x. CHR ''.'' # x) ls)"
  by (induction ls arbitrary: l) auto

lemma accepts_tail: "accepts (Rep (Seq (Class (\<lambda>c. c = CHR ''.'')) labelRe)) s \<longleftrightarrow>
    (\<exists>ls. list_all isLabel ls \<and> s = concat (map (\<lambda>x. CHR ''.'' # x) ls))"
proof -
  have e: "accepts (Seq (Class (\<lambda>c. c = CHR ''.'')) labelRe) w \<longleftrightarrow> (\<exists>x. w = CHR ''.'' # x \<and> isLabel x)" for w
    by (simp add: accepts_Class_Seq accepts_labelRe)
  have "list_all (accepts (Seq (Class (\<lambda>c. c = CHR ''.'')) labelRe)) ws \<longleftrightarrow> (\<exists>ls. list_all isLabel ls \<and> ws = map (\<lambda>x. CHR ''.'' # x) ls)" for ws
  proof (induction ws)
    case (Cons w ws)
    then show ?case by (auto simp: e Cons_eq_map_conv)
  qed simp
  then show ?thesis by (auto simp: accepts_Rep_iff)
qed

lemma accepts_hostname: "accepts hostnameRegex s \<longleftrightarrow> list_all isLabel (splitByte CHR ''.'' s)"
proof
  assume "accepts hostnameRegex s"
  then obtain l ls where l: "isLabel l" "list_all isLabel ls" "s = l @ concat (map (\<lambda>x. CHR ''.'' # x) ls)"
    by (auto simp: hostnameRegex_def accepts_Seq_iff [of labelRe] accepts_labelRe accepts_tail)
  then have "splitByte CHR ''.'' s = l # ls"
    using splitByte_join [of "l # ls" "CHR ''.''"] isLabel_dot by (auto simp: join_labels list_all_iff)
  with l show "list_all isLabel (splitByte CHR ''.'' s)" by simp
next
  assume a: "list_all isLabel (splitByte CHR ''.'' s)"
  obtain l ls where ls: "splitByte CHR ''.'' s = l # ls" by (metis list.exhaust splitByte_not_Nil)
  then have "s = l @ concat (map (\<lambda>x. CHR ''.'' # x) ls)" using join_splitByte [of "CHR ''.''" s] by (simp add: join_labels)
  with a ls show "accepts hostnameRegex s"
    unfolding hostnameRegex_def accepts_Seq_iff [of labelRe] accepts_labelRe accepts_tail by auto
qed

text \<open>
  A host name is accepted exactly when it has at most 253 bytes and each of its labels
  between dots is not empty, consists of letters, digits and hyphens, and starts and ends with a
  letter or digit.
\<close>

theorem ValidateHostname_iff:
  "ValidateHostname h = Inr () \<longleftrightarrow> length h \<le> 253 \<and> list_all isLabel (splitByte CHR ''.'' h)"
proof (cases "h = []")
  case True
  then show ?thesis by (simp add: ValidateHostname_def isLabel_def)
qed (simp add: ValidateHostname_def matchString_iff accepts_hostname)

lemma ValidateName_iff:
  "ValidateName n = Inr () \<longleftrightarrow> trimSpace n \<noteq> [] \<and> length (trimSpace n) \<le> 100 \<and> list_all nameChar (trimSpace n)"
  by (auto simp: ValidateName_def Let_def matchString_iff nameRegex_def accepts_upTo_Class)

lemma units_tokens: "list_all tokenChar t \<Longrightarrow> units t = map (\<lambda>c. (False, [c])) t"
  by (induction t) (simp_all add: spaceLen_tokenChar)

lemma trimSpace_token: "list_all tokenChar t \<Longrightarrow> trimSpace t = t"
proof -
  assume a: "list_all tokenChar t"
  have "dropWhile fst (map (\<lambda>c. (False, [c])) s) = map (\<lambda>c. (False, [c])) s" for s :: string by (cases s) auto
  then have "trimSpace t = concat (map snd (map (\<lambda>c. (False, [c])) t))"
    unfolding trimSpace_def units_tokens [OF a] by (simp add: rev_map)
  then show ?thesis by (simp add: comp_def)
qed

lemma portChar_token: "isDigit c \<or> c = CHR '':'' \<Longrightarrow> tokenChar c"
  by (auto simp: isDigit_def tokenChar_def Let_def)

lemma validPortPart_iff:
  assumes "\<forall>c \<in> set seg. isDigit c \<or> c = CHR '':''"
  shows "validPortPart seg = Inr () \<longleftrightarrow> validSegment seg"
proof -
  have tr: "trimSpace s = s" if "set s \<subseteq> set seg" for s
    using that assms portChar_token by (intro trimSpace_token) (auto simp: list_all_iff)
  have p: "set (takeWhile P seg) \<subseteq> set seg" "set (drop n seg) \<subseteq> set seg" for P n
    by (auto dest: set_takeWhileD in_set_dropD)
  have "validPortPart seg = Inr () \<longleftrightarrow> seg \<noteq> [] \<and> validatePortSegment [] seg = Inr ()"
    by (auto simp: validPortPart_def validatePortSegment_def Let_def tr p split: option.splits)
  moreover have "validatePortSegment [] seg = Inr () \<longleftrightarrow> validSegment seg"
  proof (cases "CHR '':'' \<in> set seg")
    case True
    then obtain a b where "seg = a @ CHR '':'' # b" "CHR '':'' \<notin> set a" by (metis split_list_first)
    with assms show ?thesis by (simp add: validatePortSegment_range validSegment_range)
  next
    case False
    with assms have "\<forall>c \<in> set seg. isDigit c" by auto
    with False show ?thesis by (auto simp: validatePortSegment_single validSegment_def)
  qed
  ultimately show ?thesis by (auto simp: validSegment_def portVal_def digits_def)
qed

lemma mapE_unit: "bindE (mapE f xs) (\<lambda>_. Inr ()) = Inr () \<longleftrightarrow> list_all (\<lambda>x. f x = Inr ()) xs"
  by (induction xs) (auto simp: bindE_def split: sum.splits)

text \<open>
  On port texts of the form the request validator lets through, the check of the store
  and the check of the compiler accept the same texts. So a service that was created can be compiled.
\<close>

theorem validatePortList_agrees:
  assumes "ValidPortsRe ports"
  shows "validatePortList ports = Inr () \<longleftrightarrow> ValidatePorts ports = Inr ()"
proof -
  have "ports \<noteq> []" using assms by (auto simp: ValidPortsRe_def)
  moreover have c: "\<forall>seg \<in> set (splitByte CHR '','' ports). \<forall>c \<in> set seg. isDigit c \<or> c = CHR '':''"
    using assms portsReFrom_chars splitByte_parts splitByte_part_chars unfolding ValidPortsRe_def by blast
  ultimately have "ValidatePorts ports = Inr () \<longleftrightarrow> list_all validSegment (splitByte CHR '','' ports)"
    using assms by (simp add: ValidatePorts_def validateSegments_iff)
  moreover have "validatePortList ports = Inr () \<longleftrightarrow> list_all validSegment (splitByte CHR '','' ports)"
    using c by (simp add: validatePortList_def mapE_unit validPortPart_iff list_all_iff)
  ultimately show ?thesis by simp
qed

theorem validatePortList_agrees_witness:
  "validatePortList ''80,8000:9000'' = Inr () \<and> ValidatePorts ''80,8000:9000'' = Inr ()"
proof -
  have "ValidPortsRe ''80,8000:9000''" by code_simp
  moreover have "validatePortList ''80,8000:9000'' = Inr ()" by code_simp
  ultimately show ?thesis using validatePortList_agrees [of "''80,8000:9000''"] by simp
qed

end
