(* ===== verification/Snapshots.thy ===== *)
theory Snapshots
  imports Pending Validation
begin

text \<open>
  Edits of policies, services and groups with the snapshots that undo them
  (\<^verbatim>\<open>internal/store\<close>, \<^verbatim>\<open>internal/db/snapshots.go\<close>), the rollback of snapshots and the
  cleanup after everything is applied (\<^verbatim>\<open>internal/db/rollback.go\<close>,
  \<^verbatim>\<open>internal/store/pending_store.go\<close>). Descriptions of policies and services, timestamps, the direction
  hint of a service and the identifiers of memberships are not modelled, nor are the tables of additional
  addresses of a peer.
\<close>

section \<open>Transactions\<close>

text \<open>\<^verbatim>\<open>db.RunInTx\<close>: an error of the function or of the commit undoes every statement.\<close>

definition RunInTx :: "('a, database) step \<Rightarrow> ('a, database) step" where
  "RunInTx m db =
     (if db_fails db QTransaction then (Inl (Leaf ''begin tx''), db)
      else case m db of
        (Inl e, _) \<Rightarrow> (Inl e, db)
      | (Inr v, db') \<Rightarrow>
          if db_fails db' (QEntity ''commit'' [] 0) then (Inl (Leaf ''commit tx''), db) else (Inr v, db'))"

text \<open>\<^verbatim>\<open>execUpdate\<close>: an update that touches no row is the given error.\<close>

definition execUpdate :: "query \<Rightarrow> string \<Rightarrow> (database \<Rightarrow> bool) \<Rightarrow> (database \<Rightarrow> bool) \<Rightarrow> (database \<Rightarrow> database) \<Rightarrow> (unit, database) step" where
  "execUpdate q notFoundErr found violates f db =
     (if db_fails db q \<or> violates db then (Inl (Leaf ''exec update''), db)
      else if \<not> found db then (Inl (Leaf notFoundErr), db)
      else (Inr (), f db))"

section \<open>Snapshots\<close>

definition hasSnapshot :: "database \<Rightarrow> string \<Rightarrow> int \<Rightarrow> bool" where
  "hasSnapshot db entityType entityID =
     list_ex (\<lambda>s. sn_entity_type s = entityType \<and> sn_entity_id s = entityID) (db_snapshots db)"

text \<open>\<^verbatim>\<open>INSERT OR IGNORE\<close>: the first snapshot of an entity stays.\<close>

definition CreateSnapshot :: "string \<Rightarrow> int \<Rightarrow> string \<Rightarrow> snapshotData option \<Rightarrow> (unit, database) step" where
  "CreateSnapshot entityType entityID action snapshotData =
     wrapS ''insert snapshot'' (execS (QEntity ''insert'' ''change_snapshots'' entityID) (\<lambda>db.
       if hasSnapshot db entityType entityID then db
       else db\<lparr>db_snapshots := db_snapshots db @
         [\<lparr>sn_entity_type = entityType, sn_entity_id = entityID, sn_action = action, sn_data = snapshotData\<rparr>]\<rparr>))"

definition DeleteSnapshot :: "string \<Rightarrow> int \<Rightarrow> (unit, database) step" where
  "DeleteSnapshot entityType entityID =
     wrapS ''delete snapshot'' (execS (QEntity ''delete'' ''change_snapshots'' entityID) (\<lambda>db.
       db\<lparr>db_snapshots := filter (\<lambda>s. \<not> (sn_entity_type s = entityType \<and> sn_entity_id s = entityID)) (db_snapshots db)\<rparr>))"

text \<open>The error of a row that is gone is replaced by the store's own.\<close>

definition notFoundAs :: "string \<Rightarrow> 'a res \<Rightarrow> 'a res" where
  "notFoundAs msg r = (case r of Inl e \<Rightarrow> if errIs e ErrNoRows then Inl (Leaf msg) else r | Inr _ \<Rightarrow> r)"

definition liftQ :: "(database \<Rightarrow> 'a res) \<Rightarrow> ('a, database) step" where
  "liftQ f db = (f db, db)"

section \<open>Policies\<close>

definition nullableIP :: "string \<Rightarrow> string option" where
  "nullableIP s = (if s = [] then None else Some s)"

definition coalesce :: "'a option \<Rightarrow> 'a \<Rightarrow> 'a" where
  "coalesce v d = (case v of None \<Rightarrow> d | Some x \<Rightarrow> x)"

text \<open>A policy as it is scanned: null and empty addresses are one, a null direction is both.\<close>

definition readPolicy :: "policy_row \<Rightarrow> policy_row" where
  "readPolicy p = p\<lparr>pl_source_ip := nullableIP (coalesce (pl_source_ip p) []), pl_target_ip := nullableIP (coalesce (pl_target_ip p) []),
     pl_direction := Some (coalesce (pl_direction p) ''both'')\<rparr>"

definition livePolicy :: "int \<Rightarrow> policy_row \<Rightarrow> bool" where
  "livePolicy i p = (pl_id p = i \<and> \<not> pl_pending_delete p)"

definition GetPolicyTx :: "int \<Rightarrow> database \<Rightarrow> policy_row res" where
  "GetPolicyTx i db = wrapE ''query policy'' (queryRow db (QEntity ''get'' ''policies'' i) (map readPolicy (filter (livePolicy i) (db_policies db))))"

definition policyViolates :: "policy_row \<Rightarrow> database \<Rightarrow> bool" where
  "policyViolates p db \<longleftrightarrow>
     pl_action p \<notin> {''ACCEPT'', ''DROP'', ''LOG_DROP''} \<or> pl_target_scope p \<notin> {''both'', ''host'', ''docker''} \<or>
     coalesce (pl_direction p) ''both'' \<notin> {''both'', ''forward'', ''backward''} \<or>
     \<not> list_ex (\<lambda>s. s_id s = pl_service_id p) (db_services db)"

definition onPolicies :: "(policy_row \<Rightarrow> bool) \<Rightarrow> (policy_row \<Rightarrow> policy_row) \<Rightarrow> database \<Rightarrow> database" where
  "onPolicies P f db = db\<lparr>db_policies := map (\<lambda>p. if P p then f p else p) (db_policies db)\<rparr>"

text \<open>The columns an update writes.\<close>

definition setPolicy :: "policy_row \<Rightarrow> policy_row \<Rightarrow> policy_row" where
  "setPolicy new p = new\<lparr>pl_id := pl_id p, pl_pending_delete := pl_pending_delete p\<rparr>"

definition UpdatePolicyTx :: "policy_row \<Rightarrow> (unit, database) step" where
  "UpdatePolicyTx p =
     execUpdate (QEntity ''update'' ''policies'' (pl_id p)) ''policy not found'' (\<lambda>db. list_ex (livePolicy (pl_id p)) (db_policies db))
       (policyViolates p) (onPolicies (livePolicy (pl_id p)) (setPolicy p))"

definition PatchPolicyEnabledTx :: "int \<Rightarrow> bool \<Rightarrow> (unit, database) step" where
  "PatchPolicyEnabledTx i enabled =
     execUpdate (QEntity ''patch'' ''policies'' i) ''policy not found'' (\<lambda>db. list_ex (livePolicy i) (db_policies db))
       (\<lambda>_. False) (onPolicies (livePolicy i) (\<lambda>p. p\<lparr>pl_enabled := enabled\<rparr>))"

definition SoftDeletePolicyTx :: "int \<Rightarrow> (unit, database) step" where
  "SoftDeletePolicyTx i =
     execUpdate (QEntity ''softDelete'' ''policies'' i) ''policy not found'' (\<lambda>db. list_ex (livePolicy i) (db_policies db))
       (\<lambda>_. False) (onPolicies (livePolicy i) (\<lambda>p. p\<lparr>pl_pending_delete := True\<rparr>))"

text \<open>\<open>i\<close> is the identifier the database assigns.\<close>

definition CreatePolicy :: "int \<Rightarrow> policy_row \<Rightarrow> (unit, database) step" where
  "CreatePolicy i p db =
     (if db_fails db (QEntity ''insert'' ''policies'' i) \<or> policyViolates p db then (Inl (Leaf ''insert policy''), db)
      else (Inr (), db\<lparr>db_policies := db_policies db @ [p\<lparr>pl_id := i, pl_pending_delete := False\<rparr>]\<rparr>))"

definition policySnapshotTx :: "string \<Rightarrow> int \<Rightarrow> (unit, database) step" where
  "policySnapshotTx action policyID =
     (if action = ''create'' then CreateSnapshot ''policy'' policyID action None
      else bindS (wrapS ''get policy'' (liftQ (GetPolicyTx policyID))) (\<lambda>p.
        CreateSnapshot ''policy'' policyID action (Some (PolicySnapshot p))))"

section \<open>Services\<close>

definition readService :: "service_row \<Rightarrow> service_row" where
  "readService s = s\<lparr>s_source_ports := Some (coalesce (s_source_ports s) [])\<rparr>"

definition liveService :: "int \<Rightarrow> service_row \<Rightarrow> bool" where
  "liveService i s = (s_id s = i \<and> \<not> s_pending_delete s)"

definition GetService :: "int \<Rightarrow> database \<Rightarrow> service_row res" where
  "GetService i db = queryRow db (QEntity ''get'' ''services'' i) (map readService (filter (liveService i) (db_services db)))"

text \<open>The unique name of services and groups.\<close>

definition serviceNameTaken :: "int \<Rightarrow> string \<Rightarrow> database \<Rightarrow> bool" where
  "serviceNameTaken i name db = list_ex (\<lambda>s. s_id s \<noteq> i \<and> s_name s = name) (db_services db)"

definition onServices :: "(service_row \<Rightarrow> bool) \<Rightarrow> (service_row \<Rightarrow> service_row) \<Rightarrow> database \<Rightarrow> database" where
  "onServices P f db = db\<lparr>db_services := map (\<lambda>s. if P s then f s else s) (db_services db)\<rparr>"

definition UpdateServiceTx :: "int \<Rightarrow> string \<Rightarrow> string \<Rightarrow> string \<Rightarrow> string \<Rightarrow> (unit, database) step" where
  "UpdateServiceTx i name ports sourcePorts protocol =
     execUpdate (QEntity ''update'' ''services'' i) ''service not found'' (\<lambda>db. list_ex (liveService i) (db_services db))
       (serviceNameTaken i name) (onServices (liveService i) (\<lambda>s. s\<lparr>s_name := name, s_ports := ports,
          s_source_ports := Some sourcePorts, s_protocol := protocol\<rparr>))"

definition SoftDeleteServiceTx :: "int \<Rightarrow> (unit, database) step" where
  "SoftDeleteServiceTx i =
     execUpdate (QEntity ''softDelete'' ''services'' i) ''service not found'' (\<lambda>db. list_ex (liveService i) (db_services db))
       (\<lambda>_. False) (onServices (liveService i) (\<lambda>s. s\<lparr>s_pending_delete := True\<rparr>))"

definition CreateService :: "int \<Rightarrow> string \<Rightarrow> string \<Rightarrow> string \<Rightarrow> string \<Rightarrow> (unit, database) step" where
  "CreateService i name ports sourcePorts protocol db =
     (if name = [] then (Inl (Leaf ''service name is required''), db)
      else case bindE (if ports \<noteq> [] then wrapE ''invalid ports'' (validatePortList ports) else Inr ()) (\<lambda>_.
                  if sourcePorts \<noteq> [] then wrapE ''invalid source_ports'' (validatePortList sourcePorts) else Inr ()) of
        Inl e \<Rightarrow> (Inl e, db)
      | Inr _ \<Rightarrow>
          if db_fails db (QEntity ''insert'' ''services'' i) \<or> serviceNameTaken i name db then (Inl (Leaf ''insert service''), db)
          else (Inr (), db\<lparr>db_services := db_services db @
             [\<lparr>s_id = i, s_name = name, s_ports = ports, s_source_ports = Some sourcePorts, s_protocol = protocol,
               s_no_conntrack = SInt 0, s_is_system = False, s_pending_delete = False\<rparr>]\<rparr>))"

definition SnapshotServiceTx :: "string \<Rightarrow> int \<Rightarrow> (unit, database) step" where
  "SnapshotServiceTx action serviceID =
     (if action = ''create'' then CreateSnapshot ''service'' serviceID action None
      else bindS (liftQ (\<lambda>db. notFoundAs ''service not found'' (wrapE ''get service'' (GetService serviceID db)))) (\<lambda>s.
        CreateSnapshot ''service'' serviceID action (Some (ServiceSnapshot s))))"

definition serviceConstraintsTx :: "int \<Rightarrow> (unit, database) step" where
  "serviceConstraintsTx i db =
     (if db_fails db (QEntity ''constraints'' ''services'' i) then (Inl (Leaf ''query policy usage''), db)
      else if list_ex (\<lambda>p. pl_service_id p = i \<and> \<not> pl_pending_delete p) (db_policies db)
      then (Inl (Leaf ''Cannot delete service: it is in use by policies''), db) else (Inr (), db))"

section \<open>Groups\<close>

definition liveGroupRow :: "int \<Rightarrow> group_row \<Rightarrow> bool" where
  "liveGroupRow i g = (g_id g = i \<and> \<not> g_pending_delete g)"

definition GetGroupTx :: "int \<Rightarrow> database \<Rightarrow> group_row res" where
  "GetGroupTx i db = wrapE ''query group tx'' (queryRow db (QEntity ''get'' ''groups'' i) (filter (liveGroupRow i) (db_groups db)))"

definition ListGroupMembers :: "int \<Rightarrow> database \<Rightarrow> member_row list res" where
  "ListGroupMembers i db = queryRows db (QEntity ''members'' ''groups'' i) (filter (\<lambda>m. m_group_id m = i) (db_members db))"

text \<open>The store's method of that name: the peers of a live group; the order by host name plays no role.\<close>

definition listGroupPeers :: "int \<Rightarrow> database \<Rightarrow> int list res" where
  "listGroupPeers i db = queryRows db (QEntity ''peers'' ''groups'' i)
     (map m_peer_id (filter (\<lambda>m. m_group_id m = i \<and> peerRow db (m_peer_id m) \<and> list_ex (liveGroupRow i) (db_groups db)) (db_members db)))"

definition groupNameTaken :: "int \<Rightarrow> string \<Rightarrow> database \<Rightarrow> bool" where
  "groupNameTaken i name db = list_ex (\<lambda>g. g_id g \<noteq> i \<and> g_name g = name) (db_groups db)"

definition onGroups :: "(group_row \<Rightarrow> bool) \<Rightarrow> (group_row \<Rightarrow> group_row) \<Rightarrow> database \<Rightarrow> database" where
  "onGroups P f db = db\<lparr>db_groups := map (\<lambda>g. if P g then f g else g) (db_groups db)\<rparr>"

text \<open>An empty name keeps the current one.\<close>

definition UpdateGroupTx :: "int \<Rightarrow> string \<Rightarrow> string \<Rightarrow> (unit, database) step" where
  "UpdateGroupTx i name description =
     execUpdate (QEntity ''update'' ''groups'' i) ''group not found'' (\<lambda>db. list_ex (liveGroupRow i) (db_groups db))
       (\<lambda>db. name \<noteq> [] \<and> groupNameTaken i name db) 
       (onGroups (liveGroupRow i) (\<lambda>g. g\<lparr>g_name := if name = [] then g_name g else name, g_description := description\<rparr>))"

definition SoftDeleteGroupTx :: "int \<Rightarrow> (unit, database) step" where
  "SoftDeleteGroupTx i =
     execUpdate (QEntity ''softDelete'' ''groups'' i) ''group not found'' (\<lambda>db. list_ex (liveGroupRow i) (db_groups db))
       (\<lambda>_. False) (onGroups (liveGroupRow i) (\<lambda>g. g\<lparr>g_pending_delete := True\<rparr>))"

definition CreateGroup :: "int \<Rightarrow> string \<Rightarrow> string \<Rightarrow> (unit, database) step" where
  "CreateGroup i name description db =
     (if name = [] then (Inl (Leaf ''group name is required''), db)
      else if db_fails db (QEntity ''insert'' ''groups'' i) \<or> groupNameTaken i name db then (Inl (Leaf ''insert group''), db)
      else (Inr (), db\<lparr>db_groups := db_groups db @ [\<lparr>g_id = i, g_name = name, g_description = description, g_is_system = False, g_pending_delete = False\<rparr>]\<rparr>))"

text \<open>The membership exists already: nothing is inserted and the caller reports a conflict.\<close>

definition addGroupMember :: "int \<Rightarrow> int \<Rightarrow> (unit, database) step" where
  "addGroupMember groupID peerID db =
     (let m = \<lparr>m_group_id = groupID, m_peer_id = peerID\<rparr> in
      if db_fails db (QEntity ''insert'' ''group_members'' groupID) then (Inl (Leaf ''insert member''), db)
      else if m \<in> set (db_members db) then (Inl (Leaf ''peer already in group''), db)
      else if \<not> peerRow db peerID \<or> groupID \<notin> set (map g_id (db_groups db)) then (Inl (Wrap ''insert member'' [fkError]), db)
      else (Inr (), db\<lparr>db_members := db_members db @ [m]\<rparr>))"

definition deleteGroupMember :: "int \<Rightarrow> int \<Rightarrow> (unit, database) step" where
  "deleteGroupMember groupID peerID =
     wrapS ''delete member'' (execS (QEntity ''delete'' ''group_members'' groupID) (\<lambda>db.
       db\<lparr>db_members := filter (\<lambda>m. \<not> (m_group_id m = groupID \<and> m_peer_id m = peerID)) (db_members db)\<rparr>))"

definition groupSnapshotTx :: "string \<Rightarrow> int \<Rightarrow> (unit, database) step" where
  "groupSnapshotTx action groupID =
     (if action = ''create'' then CreateSnapshot ''group'' groupID action None
      else bindS (liftQ (\<lambda>db. notFoundAs ''group not found'' (wrapE ''get group'' (GetGroupTx groupID db)))) (\<lambda>grp.
        bindS (wrapS ''query members'' (liftQ (ListGroupMembers groupID))) (\<lambda>members.
          CreateSnapshot ''group'' groupID action (Some (GroupSnapshot grp members)))))"

definition groupConstraintsTx :: "int \<Rightarrow> (unit, database) step" where
  "groupConstraintsTx i db =
     (if db_fails db (QEntity ''constraints'' ''groups'' i) then (Inl (Leaf ''query policy usage''), db)
      else if list_ex (\<lambda>p. (pl_source_type p = ''group'' \<and> pl_source_id p = i \<or> pl_target_type p = ''group'' \<and> pl_target_id p = i) \<and>
                \<not> pl_pending_delete p) (db_policies db)
      then (Inl (Leaf ''Cannot delete group: it is in use by policies''), db) else (Inr (), db))"

section \<open>Edits\<close>

text \<open>
  The writes of the handlers: an update or deletion takes the snapshot and changes the row in one
  transaction; a creation inserts the row and then records it. An edit of a group that changes
  nothing and the removal of a peer that is no member write nothing. The checks of the request
  before the writes are those of the handlers.
\<close>

definition policiesCreate :: "int \<Rightarrow> policy_row \<Rightarrow> (unit, database) step" where
  [simp]: "policiesCreate i p =
     bindS (CreatePolicy i p) (\<lambda>_. policySnapshotTx ''create'' i)"

definition policiesUpdate :: "policy_row \<Rightarrow> (unit, database) step" where
  [simp]: "policiesUpdate p =
     RunInTx (bindS (policySnapshotTx ''update'' (pl_id p)) (\<lambda>_. UpdatePolicyTx p))"

definition policiesPatch :: "int \<Rightarrow> bool \<Rightarrow> (unit, database) step" where
  [simp]: "policiesPatch i e =
     RunInTx (bindS (policySnapshotTx ''update'' i) (\<lambda>_. PatchPolicyEnabledTx i e))"

definition policiesDelete :: "int \<Rightarrow> (unit, database) step" where
  [simp]: "policiesDelete i =
     RunInTx (bindS (policySnapshotTx ''delete'' i) (\<lambda>_. SoftDeletePolicyTx i))"

definition servicesCreate :: "int \<Rightarrow> string \<Rightarrow> string \<Rightarrow> string \<Rightarrow> string \<Rightarrow> (unit, database) step" where
  [simp]: "servicesCreate i n ps sps pr =
     bindS (CreateService i n ps sps pr) (\<lambda>_. SnapshotServiceTx ''create'' i)"

definition persistServiceUpdateTx :: "int \<Rightarrow> string \<Rightarrow> string \<Rightarrow> string \<Rightarrow> string \<Rightarrow> (unit, database) step" where
  [simp]: "persistServiceUpdateTx i n ps sps pr =
     RunInTx (bindS (SnapshotServiceTx ''update'' i) (\<lambda>_. UpdateServiceTx i n ps sps pr))"

definition servicesDelete :: "int \<Rightarrow> (unit, database) step" where
  [simp]: "servicesDelete i =
     RunInTx (bindS (SnapshotServiceTx ''delete'' i) (\<lambda>_. bindS (serviceConstraintsTx i) (\<lambda>_. SoftDeleteServiceTx i)))"

definition groupsCreate :: "int \<Rightarrow> string \<Rightarrow> string \<Rightarrow> (unit, database) step" where
  [simp]: "groupsCreate i n d =
     bindS (CreateGroup i n d) (\<lambda>_. groupSnapshotTx ''create'' i)"

text \<open>The result says whether something changed.\<close>

definition groupsUpdate :: "int \<Rightarrow> string option \<Rightarrow> string option \<Rightarrow> (bool, database) step" where
  "groupsUpdate i name description =
     RunInTx (bindS (liftQ (GetGroupTx i)) (\<lambda>currentGroup.
     if coalesce name [] \<in> {[], g_name currentGroup} \<and> coalesce description (g_description currentGroup) = g_description currentGroup
     then returnS False
     else bindS (bindS (groupSnapshotTx ''update'' i) (\<lambda>_.
       UpdateGroupTx i (coalesce name []) (coalesce description (g_description currentGroup)))) (\<lambda>_. returnS True)))"

definition groupsDelete :: "int \<Rightarrow> (unit, database) step" where
  [simp]: "groupsDelete i =
     RunInTx (bindS (groupSnapshotTx ''delete'' i) (\<lambda>_. bindS (groupConstraintsTx i) (\<lambda>_. SoftDeleteGroupTx i)))"

definition groupsAddMember :: "int \<Rightarrow> int \<Rightarrow> (unit, database) step" where
  [simp]: "groupsAddMember g p =
     RunInTx (bindS (groupSnapshotTx ''update'' g) (\<lambda>_. addGroupMember g p))"

text \<open>The result says whether the peer was a member.\<close>

definition groupsDeleteMember :: "int \<Rightarrow> int \<Rightarrow> (bool, database) step" where
  "groupsDeleteMember g p =
     bindS (liftQ (GetGroupTx g)) (\<lambda>_. bindS (liftQ (listGroupPeers g)) (\<lambda>members.
     if p \<notin> set members then returnS False
     else RunInTx (bindS (bindS (groupSnapshotTx ''update'' g) (\<lambda>_. deleteGroupMember g p)) (\<lambda>_. returnS True))))"

datatype edit =
    NewPolicy int policy_row
  | EditPolicy policy_row
  | PatchPolicy int bool
  | RemovePolicy int
  | NewService int string string string string
  | EditService int string string string string
  | RemoveService int
  | NewGroup int string string
  | EditGroup int "string option" "string option"
  | RemoveGroup int
  | AddMember int int
  | RemoveMember int int

fun applyEdit :: "edit \<Rightarrow> (unit, database) step" where
  "applyEdit (NewPolicy i p) = policiesCreate i p"
| "applyEdit (EditPolicy p) = policiesUpdate p"
| "applyEdit (PatchPolicy i e) = policiesPatch i e"
| "applyEdit (RemovePolicy i) = policiesDelete i"
| "applyEdit (NewService i n ps sps pr) = servicesCreate i n ps sps pr"
| "applyEdit (EditService i n ps sps pr) = persistServiceUpdateTx i n ps sps pr"
| "applyEdit (RemoveService i) = servicesDelete i"
| "applyEdit (NewGroup i n d) = groupsCreate i n d"
| "applyEdit (EditGroup i name description) = bindS (groupsUpdate i name description) (\<lambda>_. returnS ())"
| "applyEdit (RemoveGroup i) = groupsDelete i"
| "applyEdit (AddMember g p) = groupsAddMember g p"
| "applyEdit (RemoveMember g p) = bindS (groupsDeleteMember g p) (\<lambda>_. returnS ())"

section \<open>Rollback\<close>

definition policyUses :: "string \<Rightarrow> int \<Rightarrow> policy_row \<Rightarrow> bool" where
  "policyUses t i p = (pl_source_id p = i \<and> pl_source_type p = t \<or> pl_target_id p = i \<and> pl_target_type p = t)"

definition constraintError :: goerr where
  "constraintError = Wrap ''rollback blocked by constraint violation'' []"

definition checkCreateRollbackConstraints :: "string \<Rightarrow> int \<Rightarrow> (unit, database) step" where
  "checkCreateRollbackConstraints entityType entityID db =
     (if db_fails db (QEntity ''check'' entityType entityID) then (Inl (Leaf ''check policy constraints''), db)
      else if entityType = ''group'' \<and> list_ex (policyUses ''group'' entityID) (db_policies db) then (Inl constraintError, db)
      else if entityType = ''service'' \<and> list_ex (\<lambda>p. pl_service_id p = entityID) (db_policies db) then (Inl constraintError, db)
      else if entityType = ''peer'' \<and> (list_ex (\<lambda>m. m_peer_id m = entityID) (db_members db) \<or>
                list_ex (policyUses ''peer'' entityID) (db_policies db)) then (Inl constraintError, db)
      else (Inr (), db))"

text \<open>Deleting a peer cascades to its bundles, pending changes and previews; a push job blocks it.\<close>

definition rollbackCreateEntity :: "string \<Rightarrow> int \<Rightarrow> (unit, database) step" where
  "rollbackCreateEntity entityType entityID db =
     (if db_fails db (QEntity ''rollbackCreate'' entityType entityID) then (Inl (Leaf ''database error''), db)
      else if entityType = ''group'' then
        (Inr (), db\<lparr>db_members := filter (\<lambda>m. m_group_id m \<noteq> entityID) (db_members db),
                    db_groups := filter (\<lambda>g. g_id g \<noteq> entityID) (db_groups db)\<rparr>)
      else if entityType = ''service'' then
        (if list_ex (\<lambda>p. pl_service_id p = entityID) (db_policies db) then (Inl fkError, db)
         else (Inr (), db\<lparr>db_services := filter (\<lambda>s. s_id s \<noteq> entityID) (db_services db)\<rparr>))
      else if entityType = ''policy'' then
        (Inr (), db\<lparr>db_policies := filter (\<lambda>p. pl_id p \<noteq> entityID) (db_policies db)\<rparr>)
      else if entityType = ''peer'' then
        (if list_ex (\<lambda>r. jp_PeerID r = entityID) (db_pushJobPeers db) then (Inl fkError, db)
         else (Inr (), db\<lparr>db_peers := filter (\<lambda>p. p_id p \<noteq> entityID) (db_peers db),
                 db_members := filter (\<lambda>m. m_peer_id m \<noteq> entityID) (db_members db),
                 db_bundles := filter (\<lambda>b. b_peer_id b \<noteq> entityID) (db_bundles db),
                 db_pending := filter (\<lambda>c. c_peer_id c \<noteq> entityID) (db_pending db),
                 db_previews := filter (\<lambda>v. pv_peer_id v \<noteq> entityID) (db_previews db)\<rparr>))
      else (Inl (Leaf ''unknown entity type''), db))"

definition restoreGroup :: "int \<Rightarrow> group_row \<Rightarrow> member_row list \<Rightarrow> database \<Rightarrow> database" where
  "restoreGroup i g ms db =
     (onGroups (\<lambda>r. g_id r = i) (\<lambda>r. r\<lparr>g_name := g_name g, g_description := g_description g, g_pending_delete := False\<rparr>) db)\<lparr>db_members :=
        filter (\<lambda>m. m_group_id m \<noteq> i) (db_members db) @ ms\<rparr>"

definition restoreService :: "int \<Rightarrow> service_row \<Rightarrow> database \<Rightarrow> database" where
  "restoreService i s =
     onServices (\<lambda>r. s_id r = i) (\<lambda>r. r\<lparr>s_name := s_name s, s_ports := s_ports s, s_source_ports := s_source_ports s,
       s_protocol := s_protocol s, s_is_system := s_is_system s, s_pending_delete := False\<rparr>)"

definition restorePolicy :: "int \<Rightarrow> policy_row \<Rightarrow> database \<Rightarrow> database" where
  "restorePolicy i p = onPolicies (\<lambda>r. pl_id r = i) (\<lambda>r. p\<lparr>pl_id := pl_id r, pl_pending_delete := False\<rparr>)"

text \<open>The inserts of the members fail on a peer or group that is gone and on a duplicate.\<close>

definition membersViolate :: "int \<Rightarrow> member_row list \<Rightarrow> database \<Rightarrow> bool" where
  "membersViolate i ms db =
     (list_ex (\<lambda>m. \<not> peerRow db (m_peer_id m) \<or> m_group_id m \<notin> set (map g_id (db_groups db))) ms \<or>
      \<not> distinct (filter (\<lambda>m. m_group_id m \<noteq> i) (db_members db) @ ms))"

definition rollbackUpdateDeleteEntity :: "string \<Rightarrow> int \<Rightarrow> snapshotData \<Rightarrow> (unit, database) step" where
  "rollbackUpdateDeleteEntity entityType entityID snapshotData db =
     (if db_fails db (QEntity ''rollbackUpdate'' entityType entityID) then (Inl (Leaf ''database error''), db)
      else if entityType = ''group'' then
        (case snapshotData of
           GroupSnapshot g ms \<Rightarrow>
             if groupNameTaken entityID (g_name g) db \<and> entityID \<in> set (map g_id (db_groups db)) \<or> membersViolate entityID ms db
             then (Inl (Leaf ''constraint failed''), db) else (Inr (), restoreGroup entityID g ms db)
         | _ \<Rightarrow> (Inl (Leaf ''unmarshal group snapshot''), db))
      else if entityType = ''service'' then
        (case snapshotData of
           ServiceSnapshot s \<Rightarrow>
             if serviceNameTaken entityID (s_name s) db \<and> entityID \<in> set (map s_id (db_services db))
             then (Inl (Leaf ''constraint failed''), db) else (Inr (), restoreService entityID s db)
         | _ \<Rightarrow> (Inl (Leaf ''unmarshal service snapshot''), db))
      else if entityType = ''policy'' then
        (case snapshotData of
           PolicySnapshot p \<Rightarrow>
             if policyViolates p db \<and> entityID \<in> set (map pl_id (db_policies db))
             then (Inl (Leaf ''constraint failed''), db) else (Inr (), restorePolicy entityID p db)
         | _ \<Rightarrow> (Inl (Leaf ''unmarshal policy snapshot''), db))
      else if entityType = ''peer'' then (Inl (Leaf ''peer update/delete rollback not yet supported''), db)
      else (Inl (Leaf ''unknown entity type''), db))"

text \<open>The body of the loop of \<^verbatim>\<open>RollbackSnapshots\<close>.\<close>

definition rollbackOne :: "snapshot_row \<Rightarrow> (unit, database) step" where
  "rollbackOne s =
     (if sn_action s = ''create'' then
        wrapS ''rollback'' (bindS (checkCreateRollbackConstraints (sn_entity_type s) (sn_entity_id s)) (\<lambda>_.
          rollbackCreateEntity (sn_entity_type s) (sn_entity_id s)))
      else case sn_data s of
        None \<Rightarrow> failS (Leaf ''missing snapshot data'')
      | Some d \<Rightarrow> wrapS ''rollback'' (rollbackUpdateDeleteEntity (sn_entity_type s) (sn_entity_id s) d))"

fun rollbackEach :: "snapshot_row list \<Rightarrow> (unit, database) step" where
  "rollbackEach [] = returnS ()"
| "rollbackEach (s # ss) = bindS (rollbackOne s) (\<lambda>_. rollbackEach ss)"

definition RollbackSnapshots :: "(unit, database) step" where
  "RollbackSnapshots =
     RunInTx (bindS (liftQ (\<lambda>db. queryRows db (QEntity ''list'' ''change_snapshots'' 0) (rev (db_snapshots db)))) (\<lambda>snapshots.
       bindS (rollbackEach snapshots) (\<lambda>_.
         execS (QEntity ''clear'' ''change_snapshots'' 0) (\<lambda>db. db\<lparr>db_snapshots := [], db_pending := []\<rparr>))))"

definition RollbackEntitySnapshot :: "string \<Rightarrow> int \<Rightarrow> (unit, database) step" where
  "RollbackEntitySnapshot entityType entityID =
     RunInTx (bindS (liftQ (\<lambda>db. queryRow db (QEntity ''get'' ''change_snapshots'' entityID)
                (filter (\<lambda>s. sn_entity_type s = entityType \<and> sn_entity_id s = entityID) (db_snapshots db)))) (\<lambda>s.
       bindS (if sn_action s = ''create''
              then bindS (checkCreateRollbackConstraints entityType entityID) (\<lambda>_. rollbackCreateEntity entityType entityID)
              else if sn_action s = ''update'' \<or> sn_action s = ''delete''
              then (case sn_data s of
                      None \<Rightarrow> failS (Leaf ''missing snapshot data'')
                    | Some d \<Rightarrow> rollbackUpdateDeleteEntity entityType entityID d)
              else failS (Leaf ''unknown snapshot action'')) (\<lambda>_.
         execS (QEntity ''clear'' entityType entityID) (\<lambda>db. db\<lparr>
           db_pending := filter (\<lambda>c. \<not> (c_change_type c = entityType \<and> c_change_id c = entityID)) (db_pending db),
           db_snapshots := filter (\<lambda>s. \<not> (sn_entity_type s = entityType \<and> sn_entity_id s = entityID)) (db_snapshots db)\<rparr>))))"

section \<open>Cleanup\<close>

text \<open>
  Hard deletion of what was softly deleted: the policies go before the services, whose foreign key
  they hold.
\<close>

definition purge :: "database \<Rightarrow> database" where
  "purge db = db\<lparr>
     db_members := filter (\<lambda>m. \<not> list_ex (\<lambda>g. g_id g = m_group_id m \<and> g_pending_delete g) (db_groups db)) (db_members db),
     db_groups := filter (\<lambda>g. \<not> g_pending_delete g) (db_groups db),
     db_policies := filter (\<lambda>p. \<not> pl_pending_delete p) (db_policies db),
     db_services := filter (\<lambda>s. \<not> s_pending_delete s) (db_services db),
     db_snapshots := []\<rparr>"

definition CleanupAfterApplyAll :: "(unit, database) step" where
  "CleanupAfterApplyAll =
     RunInTx (\<lambda>db.
       if db_fails db (QEntity ''cleanup'' [] 0) \<or>
          list_ex (\<lambda>p. \<not> pl_pending_delete p \<and> list_ex (\<lambda>s. s_id s = pl_service_id p \<and> s_pending_delete s) (db_services db)) (db_policies db)
       then (Inl (Leaf ''database error''), db)
       else (Inr (), purge db))"

definition CleanupIfComplete :: "(unit, database) step" where
  "CleanupIfComplete db =
     (if db_fails db QTransaction then (Inl (Leaf ''begin tx''), db)
      else bindS (wrapS ''count pending changes'' (liftQ (\<lambda>db. queryRow db (QEntity ''count'' ''pending_changes'' 0) [length (db_pending db)])))
        (\<lambda>count. if count > 0 then returnS () else CleanupAfterApplyAll) db)"

end
