(* ===== verification/Rollback.thy ===== *)
theory Rollback
  imports Snapshots
begin

text \<open>
  The rollback of snapshots undoes the edits (\<^verbatim>\<open>internal/db/rollback.go\<close>). The part of
  the database that the edits touch is read as a view: for every entity its rows, normalised the
  way the stores scan them. A snapshot restores the view at the key of its entity; the locale
  \<open>undo_log\<close> says what a log of such snapshots has to satisfy for its replay to bring
  the first view back.
\<close>

section \<open>Logs of undo records\<close>

locale undo_log =
  fixes view :: "'d \<Rightarrow> 'k \<Rightarrow> 'c"
    and key :: "'s \<Rightarrow> 'k"
    and restored :: "'s \<Rightarrow> 'c \<Rightarrow> 'c"
    and wf_record :: "'s \<Rightarrow> bool"
    and undo :: "'s \<Rightarrow> (unit, 'd) step"
    and replay :: "'s list \<Rightarrow> (unit, 'd) step"
  assumes undo_view: "wf_record s \<Longrightarrow> undo s d = (Inr (), d') \<Longrightarrow> view d' = (view d)(key s := restored s (view d (key s)))"
    and replay_Nil: "replay [] = returnS ()"
    and replay_Cons: "replay (s # ss) = bindS (undo s) (\<lambda>_. replay ss)"
begin

text \<open>The log \<open>ss\<close> takes \<open>d\<close> back to the view \<open>v\<close>.\<close>

definition leads_back :: "'s list \<Rightarrow> 'd \<Rightarrow> ('k \<Rightarrow> 'c) \<Rightarrow> bool" where
  "leads_back ss d v \<longleftrightarrow>
     distinct (map key ss) \<and> (\<forall>s \<in> set ss. wf_record s \<and> restored s (view d (key s)) = v (key s)) \<and>
     (\<forall>k. k \<notin> key ` set ss \<longrightarrow> view d k = v k)"

lemma leads_back_empty: "leads_back [] d (view d)"
  by (simp add: leads_back_def)

lemma leads_back_other: "leads_back ss d v \<Longrightarrow> view d' = view d \<Longrightarrow> leads_back ss d' v"
  by (simp add: leads_back_def)

lemma leads_back_rev: "leads_back (rev ss) d v = leads_back ss d v"
  by (simp add: leads_back_def rev_map [symmetric])

text \<open>A change of an entity that the log has already.\<close>

lemma leads_back_again:
  assumes "leads_back ss d v" and "\<And>k'. k' \<noteq> k \<Longrightarrow> view d' k' = view d k'" and "k \<in> key ` set ss"
    and "\<And>s. wf_record s \<Longrightarrow> key s = k \<Longrightarrow> restored s (view d' k) = restored s (view d k)"
  shows "leads_back ss d' v"
proof -
  have "restored s (view d' (key s)) = restored s (view d (key s))" if "wf_record s" for s
    using that assms(2,4) by (cases "key s = k") auto
  moreover have "view d' k' = view d k'" if "k' \<notin> key ` set ss" for k'
    using that assms(2,3) by metis
  ultimately show ?thesis using assms(1) by (simp add: leads_back_def)
qed

text \<open>The first change of an entity.\<close>

lemma leads_back_first:
  assumes "leads_back ss d v" and "\<And>k'. k' \<noteq> key s \<Longrightarrow> view d' k' = view d k'" and "key s \<notin> key ` set ss"
    and "wf_record s" and "restored s (view d' (key s)) = view d (key s)"
  shows "leads_back (ss @ [s]) d' v"
proof -
  have "restored r (view d' (key r)) = v (key r)" if "r \<in> set ss" for r
    using that assms(1-3) by (metis image_eqI leads_back_def)
  moreover have "restored s (view d' (key s)) = v (key s)"
    using assms(1,3,5) by (simp add: leads_back_def)
  moreover have "view d' k = v k" if "k \<notin> key ` set (ss @ [s])" for k
    using that assms(1,2) by (simp add: leads_back_def)
  ultimately show ?thesis using assms by (auto simp: leads_back_def)
qed

lemma leads_back_undo:
  assumes "leads_back ss d v" and "s \<in> set ss" and "undo s d = (Inr (), d')"
  shows "leads_back (filter (\<lambda>r. key r \<noteq> key s) ss) d' v"
proof -
  have w: "view d' = (view d)(key s := v (key s))"
    using assms undo_view [of s d d'] by (simp add: leads_back_def)
  show ?thesis unfolding leads_back_def
  proof (intro conjI ballI allI impI)
    show "distinct (map key (filter (\<lambda>r. key r \<noteq> key s) ss))"
      using assms(1) by (simp add: leads_back_def distinct_map_filter)
  next
    fix r assume "r \<in> set (filter (\<lambda>r. key r \<noteq> key s) ss)"
    with assms(1) w show "wf_record r" and "restored r (view d' (key r)) = v (key r)"
      by (simp_all add: leads_back_def)
  next
    fix k assume "k \<notin> key ` set (filter (\<lambda>r. key r \<noteq> key s) ss)"
    with assms(1) w show "view d' k = v k" by (cases "k = key s") (auto simp: leads_back_def)
  qed
qed

lemma replay_view: "leads_back ss d v \<Longrightarrow> replay ss d = (Inr (), d') \<Longrightarrow> view d' = v"
proof (induction ss arbitrary: d)
  case Nil
  then show ?case by (auto simp: replay_Nil leads_back_def)
next
  case (Cons s ss)
  from Cons.prems(2) obtain e where e: "undo s d = (Inr (), e)" and rest: "replay ss e = (Inr (), d')"
    by (auto simp: replay_Cons bindS_Inr)
  have "distinct (map key (s # ss))" using Cons.prems(1) by (simp add: leads_back_def)
  then have "\<forall>r \<in> set ss. key r \<noteq> key s" by (metis distinct.simps(2) image_eqI list.simps(9) set_map)
  then have "filter (\<lambda>r. key r \<noteq> key s) (s # ss) = ss" by (simp add: filter_id_conv)
  with leads_back_undo [OF Cons.prems(1) _ e] have "leads_back ss e v" by simp
  then show ?case using rest by (rule Cons.IH)
qed

end

section \<open>The view\<close>

datatype content =
    PolicyContent "policy_row list"
  | ServiceContent "service_row list"
  | GroupContent "group_row list" "member_row set"
  | NoContent

fun dbView :: "database \<Rightarrow> string \<times> int \<Rightarrow> content" where
  "dbView db (t, i) =
     (if t = ''policy'' then PolicyContent (map readPolicy (filter (\<lambda>p. pl_id p = i) (db_policies db)))
      else if t = ''service'' then ServiceContent (map readService (filter (\<lambda>s. s_id s = i) (db_services db)))
      else if t = ''group'' then GroupContent (filter (\<lambda>g. g_id g = i) (db_groups db)) (set (filter (\<lambda>m. m_group_id m = i) (db_members db)))
      else NoContent)"

definition snapshotKey :: "snapshot_row \<Rightarrow> string \<times> int" where
  "snapshotKey s = (sn_entity_type s, sn_entity_id s)"

fun withoutRows :: "content \<Rightarrow> content" where
  "withoutRows (PolicyContent _) = PolicyContent []"
| "withoutRows (ServiceContent _) = ServiceContent []"
| "withoutRows (GroupContent _ _) = GroupContent [] {}"
| "withoutRows NoContent = NoContent"

fun withData :: "snapshotData \<Rightarrow> content \<Rightarrow> content" where
  "withData (PolicySnapshot p) (PolicyContent rs) =
     PolicyContent (map (\<lambda>r. readPolicy (p\<lparr>pl_id := pl_id r, pl_pending_delete := False\<rparr>)) rs)"
| "withData (ServiceSnapshot s) (ServiceContent rs) =
     ServiceContent (map (\<lambda>r. readService (r\<lparr>s_name := s_name s, s_ports := s_ports s, s_source_ports := s_source_ports s,
       s_protocol := s_protocol s, s_is_system := s_is_system s, s_pending_delete := False\<rparr>)) rs)"
| "withData (GroupSnapshot g ms) (GroupContent rs _) =
     GroupContent (map (\<lambda>r. r\<lparr>g_name := g_name g, g_description := g_description g, g_pending_delete := False\<rparr>) rs) (set ms)"
| "withData _ c = c"

definition restoredView :: "snapshot_row \<Rightarrow> content \<Rightarrow> content" where
  "restoredView s c = (if sn_action s = ''create'' then withoutRows c else case sn_data s of None \<Rightarrow> c | Some d \<Rightarrow> withData d c)"

text \<open>The data of a snapshot is that of its entity, the members those of its group.\<close>

fun dataFits :: "string \<Rightarrow> int \<Rightarrow> snapshotData \<Rightarrow> bool" where
  "dataFits t i (PolicySnapshot _) = (t = ''policy'')"
| "dataFits t i (ServiceSnapshot _) = (t = ''service'')"
| "dataFits t i (GroupSnapshot _ ms) = (t = ''group'' \<and> list_all (\<lambda>m. m_group_id m = i) ms)"

definition wf_snapshot :: "snapshot_row \<Rightarrow> bool" where
  "wf_snapshot s = (sn_action s = ''create'' \<or> (case sn_data s of None \<Rightarrow> False | Some d \<Rightarrow> dataFits (sn_entity_type s) (sn_entity_id s) d))"

lemma filter_upd:
  assumes "\<And>x. k (f x) = k x"
  shows "filter (\<lambda>x. k x = i) (map (\<lambda>x. if P x then f x else x) xs) = map (\<lambda>x. if P x then f x else x) (filter (\<lambda>x. k x = i) xs)"
  by (induction xs) (auto simp: assms)

lemma map_upd_at:
  "map (\<lambda>x. h (if k x = i then f x else x)) (filter (\<lambda>x. k x = j) xs) =
    (if i = j then map (\<lambda>x. h (f x)) (filter (\<lambda>x. k x = j) xs) else map h (filter (\<lambda>x. k x = j) xs))"
  by (induction xs) auto

text \<open>An update of one table shows in the views of its entities only.\<close>

lemma dbView_onPolicies:
  assumes "\<And>p. pl_id (f p) = pl_id p"
  shows "dbView (onPolicies P f db) (t, j) =
    (if t = ''policy'' then PolicyContent (map (\<lambda>p. readPolicy (if P p then f p else p)) (filter (\<lambda>p. pl_id p = j) (db_policies db)))
     else dbView db (t, j))"
  by (simp add: onPolicies_def filter_upd [where k = pl_id, OF assms] comp_def)

lemma dbView_onServices:
  assumes "\<And>s. s_id (f s) = s_id s"
  shows "dbView (onServices P f db) (t, j) =
    (if t = ''service'' then ServiceContent (map (\<lambda>s. readService (if P s then f s else s)) (filter (\<lambda>s. s_id s = j) (db_services db)))
     else dbView db (t, j))"
  by (simp add: onServices_def filter_upd [where k = s_id, OF assms] comp_def)

lemma dbView_onGroups:
  assumes "\<And>g. g_id (f g) = g_id g"
  shows "dbView (onGroups P f db) (t, j) =
    (if t = ''group'' then GroupContent (map (\<lambda>g. if P g then f g else g) (filter (\<lambda>g. g_id g = j) (db_groups db)))
       (set (filter (\<lambda>m. m_group_id m = j) (db_members db)))
     else dbView db (t, j))"
  by (simp add: onGroups_def filter_upd [where k = g_id, OF assms])

lemma restorePolicy_view:
  "dbView (restorePolicy i p db) = (dbView db)((''policy'', i) := withData (PolicySnapshot p) (dbView db (''policy'', i)))"
proof (rule ext, goal_cases)
  case (1 k)
  obtain t j where k: "k = (t, j)" by (cases k)
  have "dbView (restorePolicy i p db) (t, j) =
    (if t = ''policy'' then PolicyContent (map (\<lambda>r. readPolicy (if pl_id r = i then p\<lparr>pl_id := pl_id r, pl_pending_delete := False\<rparr> else r))
       (filter (\<lambda>p. pl_id p = j) (db_policies db))) else dbView db (t, j))"
    unfolding restorePolicy_def by (rule dbView_onPolicies) simp
  moreover have "readPolicy (p\<lparr>pl_id := pl_id (readPolicy r), pl_pending_delete := False\<rparr>) =
    readPolicy (p\<lparr>pl_id := pl_id r, pl_pending_delete := False\<rparr>)" for r
    by (simp add: readPolicy_def)
  ultimately show ?case
    by (cases "t = ''policy''"; cases "i = j") (simp_all add: k map_upd_at [where h = readPolicy and k = pl_id] comp_def)
qed

lemma restoreService_view:
  "dbView (restoreService i s db) = (dbView db)((''service'', i) := withData (ServiceSnapshot s) (dbView db (''service'', i)))"
proof (rule ext, goal_cases)
  case (1 k)
  obtain t j where k: "k = (t, j)" by (cases k)
  let ?f = "\<lambda>r. r\<lparr>s_name := s_name s, s_ports := s_ports s, s_source_ports := s_source_ports s, s_protocol := s_protocol s,
       s_is_system := s_is_system s, s_pending_delete := False\<rparr>"
  have "dbView (restoreService i s db) (t, j) =
    (if t = ''service'' then ServiceContent (map (\<lambda>r. readService (if s_id r = i then ?f r else r))
       (filter (\<lambda>p. s_id p = j) (db_services db))) else dbView db (t, j))"
    unfolding restoreService_def by (rule dbView_onServices) simp
  moreover have "readService (?f (readService r)) = readService (?f r)" for r
    by (simp add: readService_def)
  ultimately show ?case
    by (cases "t = ''service''"; cases "i = j") (simp_all add: k map_upd_at [where h = readService and k = s_id] comp_def)
qed

lemma restoreGroup_view:
  assumes "list_all (\<lambda>m. m_group_id m = i) ms"
  shows "dbView (restoreGroup i g ms db) = (dbView db)((''group'', i) := withData (GroupSnapshot g ms) (dbView db (''group'', i)))"
proof (rule ext, goal_cases)
  case (1 k)
  obtain t j where k: "k = (t, j)" by (cases k)
  let ?f = "\<lambda>r. r\<lparr>g_name := g_name g, g_description := g_description g, g_pending_delete := False\<rparr>"
  have "dbView (restoreGroup i g ms db) (t, j) =
    (if t = ''group'' then GroupContent (map (\<lambda>r. if g_id r = i then ?f r else r) (filter (\<lambda>g. g_id g = j) (db_groups db)))
       (set (filter (\<lambda>m. m_group_id m = j) (filter (\<lambda>m. m_group_id m \<noteq> i) (db_members db) @ ms))) else dbView db (t, j))"
    by (simp add: restoreGroup_def onGroups_def filter_upd [where k = g_id])
  moreover have "set (filter (\<lambda>m. m_group_id m = j) (filter (\<lambda>m. m_group_id m \<noteq> i) (db_members db) @ ms)) =
    (if j = i then set ms else set (filter (\<lambda>m. m_group_id m = j) (db_members db)))"
    using assms by (auto simp: list_all_iff)
  ultimately show ?case
    by (cases "t = ''group''"; cases "i = j") (simp_all add: k map_upd_at [where h = id and k = g_id, simplified])
qed

lemma rollbackUpdateDelete_view:
  assumes "rollbackUpdateDeleteEntity t i d db = (Inr (), db')" and "dataFits t i d"
  shows "dbView db' = (dbView db)((t, i) := withData d (dbView db (t, i)))"
  using assms
  by (cases d) (auto simp: rollbackUpdateDeleteEntity_def restorePolicy_view restoreService_view restoreGroup_view
      simp del: dbView.simps withData.simps split: if_splits)

lemma filter_other: "filter (\<lambda>x. h x \<noteq> i \<and> h x = j) xs = (if i = j then [] else filter (\<lambda>x. h x = j) xs)"
  by (induction xs) auto

lemma rollbackCreate_view:
  assumes "checkCreateRollbackConstraints t i db = (Inr (), e)" and "rollbackCreateEntity t i e = (Inr (), db')"
  shows "dbView db' = (dbView db)((t, i) := withoutRows (dbView db (t, i)))"
proof (rule ext, goal_cases)
  case (1 k)
  have e: "e = db" using assms(1) by (auto simp: checkCreateRollbackConstraints_def split: if_splits)
  have m: "t = ''peer'' \<Longrightarrow> filter (\<lambda>m. m_peer_id m \<noteq> i) (db_members db) = db_members db"
    using assms(1) by (auto simp: checkCreateRollbackConstraints_def list_ex_iff filter_id_conv split: if_splits)
  obtain u j where k: "k = (u, j)" by (cases k)
  consider "t = ''group''" | "t = ''service''" | "t = ''policy''" | "t = ''peer''"
    using assms(2) by (auto simp: rollbackCreateEntity_def split: if_splits)
  then show ?case
  proof cases
    case 1
    then have d: "db' = db\<lparr>db_members := filter (\<lambda>m. m_group_id m \<noteq> i) (db_members db), db_groups := filter (\<lambda>g. g_id g \<noteq> i) (db_groups db)\<rparr>"
      using assms(2) by (simp add: e rollbackCreateEntity_def split: if_splits)
    show ?thesis unfolding d k 1 by (auto simp: filter_other)
  next
    case 2
    then have d: "db' = db\<lparr>db_services := filter (\<lambda>g. s_id g \<noteq> i) (db_services db)\<rparr>"
      using assms(2) by (simp add: e rollbackCreateEntity_def split: if_splits)
    show ?thesis unfolding d k 2 by (simp add: filter_other)
  next
    case 3
    then have d: "db' = db\<lparr>db_policies := filter (\<lambda>g. pl_id g \<noteq> i) (db_policies db)\<rparr>"
      using assms(2) by (simp add: e rollbackCreateEntity_def split: if_splits)
    show ?thesis unfolding d k 3 by (simp add: filter_other)
  next
    case 4
    then have "db_policies db' = db_policies db \<and> db_services db' = db_services db \<and> db_groups db' = db_groups db \<and> db_members db' = db_members db"
      using assms(2) m by (auto simp: e rollbackCreateEntity_def split: if_splits)
    then have "dbView db' = dbView db" by (simp add: fun_eq_iff)
    moreover have "dbView db (t, i) = NoContent" using 4 by simp
    ultimately show ?thesis by (simp add: fun_upd_idem del: dbView.simps)
  qed
qed

lemma wrapS_ok: "wrapS msg m s = (Inr v, t) \<longleftrightarrow> m s = (Inr v, t)"
  by (auto simp: wrapS_def wrapE_def split: prod.splits sum.splits)

lemma rollbackOne_view:
  assumes "wf_snapshot s" and "rollbackOne s db = (Inr (), db')"
  shows "dbView db' = (dbView db)(snapshotKey s := restoredView s (dbView db (snapshotKey s)))"
proof (cases "sn_action s = ''create''")
  case True
  then obtain e where "checkCreateRollbackConstraints (sn_entity_type s) (sn_entity_id s) db = (Inr (), e)"
    and "rollbackCreateEntity (sn_entity_type s) (sn_entity_id s) e = (Inr (), db')"
    using assms(2) by (auto simp: rollbackOne_def wrapS_ok bindS_Inr)
  from rollbackCreate_view [OF this] True show ?thesis by (simp only: restoredView_def snapshotKey_def simp_thms if_True)
next
  case False
  then obtain d where d: "sn_data s = Some d"
    and r: "rollbackUpdateDeleteEntity (sn_entity_type s) (sn_entity_id s) d db = (Inr (), db')"
    using assms(2) by (auto simp: rollbackOne_def wrapS_ok split: option.splits)
  have "dataFits (sn_entity_type s) (sn_entity_id s) d" using assms(1) d False by (simp add: wf_snapshot_def)
  from rollbackUpdateDelete_view [OF r this] False show ?thesis
    by (simp only: restoredView_def snapshotKey_def d if_False option.case)
qed

interpretation sl: undo_log dbView snapshotKey restoredView wf_snapshot rollbackOne rollbackEach
  by unfold_locales (simp_all add: rollbackOne_view del: dbView.simps)

section \<open>Changes of one entity\<close>

text \<open>Two contents with the same rows, up to the columns a restoration writes.\<close>

fun sameRows :: "content \<Rightarrow> content \<Rightarrow> bool" where
  "sameRows (PolicyContent rs) (PolicyContent rs') = (map pl_id rs = map pl_id rs')"
| "sameRows (ServiceContent rs) (ServiceContent rs') = (map (\<lambda>s. (s_id s, s_no_conntrack s)) rs = map (\<lambda>s. (s_id s, s_no_conntrack s)) rs')"
| "sameRows (GroupContent rs _) (GroupContent rs' _) = (map (\<lambda>g. (g_id g, g_is_system g)) rs = map (\<lambda>g. (g_id g, g_is_system g)) rs')"
| "sameRows NoContent NoContent = True"
| "sameRows _ _ = False"

lemma map_via: "map k xs = map k ys \<Longrightarrow> (\<And>x y. k x = k y \<Longrightarrow> f x = f y) \<Longrightarrow> map f xs = map f ys"
  by (metis (no_types, lifting) list_eq_iff_nth_eq length_map nth_map)

fun ofKind :: "string \<Rightarrow> content \<Rightarrow> bool" where
  "ofKind t (PolicyContent _) = (t = ''policy'')"
| "ofKind t (ServiceContent _) = (t = ''service'')"
| "ofKind t (GroupContent _ _) = (t = ''group'')"
| "ofKind t NoContent = (t \<notin> {''policy'', ''service'', ''group''})"

lemma dbView_kind [simp]: "ofKind t (dbView db (t, i))"
  by simp

lemma withData_sameRows:
  assumes "sameRows c c'" and "dataFits t i d" and "ofKind t c"
  shows "withData d c = withData d c'"
proof (cases d)
  case (PolicySnapshot p)
  then show ?thesis using assms by (cases c; cases c') (auto elim!: map_via)
next
  case (ServiceSnapshot s)
  then show ?thesis using assms by (cases c; cases c') (auto elim!: map_via simp: readService_def)
next
  case (GroupSnapshot g ms)
  then show ?thesis using assms by (cases c; cases c') (auto elim!: map_via)
qed

lemma restored_sameRows:
  assumes "wf_snapshot s" and "sameRows (dbView db (snapshotKey s)) (dbView db' (snapshotKey s))"
  shows "restoredView s (dbView db (snapshotKey s)) = restoredView s (dbView db' (snapshotKey s))"
proof (cases "sn_action s = ''create''")
  case True
  then show ?thesis by (simp add: restoredView_def snapshotKey_def)
next
  case False
  then obtain d where d: "sn_data s = Some d" "dataFits (sn_entity_type s) (sn_entity_id s) d"
    using assms(1) by (auto simp: wf_snapshot_def split: option.splits)
  have "ofKind (sn_entity_type s) (dbView db (snapshotKey s))" by (simp add: snapshotKey_def del: dbView.simps)
  from withData_sameRows [OF assms(2) d(2) this] False d(1) show ?thesis
    by (simp add: restoredView_def del: dbView.simps)
qed

definition ids :: "database \<Rightarrow> int list \<times> int list \<times> int list" where
  "ids db = (map pl_id (db_policies db), map s_id (db_services db), map g_id (db_groups db))"

definition distinctIds :: "database \<Rightarrow> bool" where
  "distinctIds db = (case ids db of (ps, ss, gs) \<Rightarrow> distinct ps \<and> distinct ss \<and> distinct gs)"

text \<open>An update of the rows of one entity.\<close>

definition touches :: "string \<times> int \<Rightarrow> database \<Rightarrow> database \<Rightarrow> bool" where
  "touches k db db' \<longleftrightarrow>
     db_snapshots db' = db_snapshots db \<and> ids db' = ids db \<and> sameRows (dbView db k) (dbView db' k) \<and>
     (\<forall>k'. k' \<noteq> k \<longrightarrow> dbView db' k' = dbView db k')"

lemma map_id_upd: "(\<And>x. k (f x) = k x) \<Longrightarrow> map k (map (\<lambda>x. if P x then f x else x) xs) = map k xs"
  by (induction xs) auto

lemma map_upd_none: "(\<And>x. P x \<Longrightarrow> k x = i) \<Longrightarrow> j \<noteq> i \<Longrightarrow>
    map (\<lambda>x. h (if P x then f x else x)) (filter (\<lambda>x. k x = j) xs) = map h (filter (\<lambda>x. k x = j) xs)"
  by (induction xs) auto

lemma touches_onPolicies:
  assumes f: "\<And>p. pl_id (f p) = pl_id p" and P: "\<And>p. P p \<Longrightarrow> pl_id p = i"
  shows "touches (''policy'', i) db (onPolicies P f db)"
proof -
  note v = dbView_onPolicies [of f P db, OF f]
  have "dbView (onPolicies P f db) k' = dbView db k'" if "k' \<noteq> (''policy'', i)" for k'
  proof -
    obtain t j where k: "k' = (t, j)" by (cases k')
    note m = map_upd_none [where h = readPolicy and f = f and P = P and k = pl_id and i = i]
    show ?thesis using that unfolding k v by (cases "t = ''policy''") (simp_all add: m P)
  qed
  moreover have "sameRows (dbView db (''policy'', i)) (dbView (onPolicies P f db) (''policy'', i))"
    unfolding v by (simp add: comp_def readPolicy_def f if_distrib [of pl_id])
  moreover have "ids (onPolicies P f db) = ids db"
    using map_id_upd [of pl_id f P "db_policies db", OF f] by (simp add: ids_def onPolicies_def del: map_map)
  ultimately show ?thesis by (simp add: touches_def onPolicies_def del: dbView.simps)
qed

lemma touches_onServices:
  assumes f: "\<And>p. s_id (f p) = s_id p" "\<And>p. s_no_conntrack (f p) = s_no_conntrack p" and P: "\<And>p. P p \<Longrightarrow> s_id p = i"
  shows "touches (''service'', i) db (onServices P f db)"
proof -
  note v = dbView_onServices [of f P db, OF f(1)]
  have "dbView (onServices P f db) k' = dbView db k'" if "k' \<noteq> (''service'', i)" for k'
  proof -
    obtain t j where k: "k' = (t, j)" by (cases k')
    note m = map_upd_none [where h = readService and f = f and P = P and k = s_id and i = i]
    show ?thesis using that unfolding k v by (cases "t = ''service''") (simp_all add: m P)
  qed
  moreover have "sameRows (dbView db (''service'', i)) (dbView (onServices P f db) (''service'', i))"
    unfolding v by (simp add: comp_def readService_def f if_distrib [of s_id] if_distrib [of s_no_conntrack])
  moreover have "ids (onServices P f db) = ids db"
    using map_id_upd [of s_id f P "db_services db", OF f(1)] by (simp add: ids_def onServices_def del: map_map)
  ultimately show ?thesis by (simp add: touches_def onServices_def del: dbView.simps)
qed

lemma touches_onGroups:
  assumes f: "\<And>p. g_id (f p) = g_id p" "\<And>p. g_is_system (f p) = g_is_system p" and P: "\<And>p. P p \<Longrightarrow> g_id p = i"
  shows "touches (''group'', i) db (onGroups P f db)"
proof -
  note v = dbView_onGroups [of f P db, OF f(1)]
  have "dbView (onGroups P f db) k' = dbView db k'" if "k' \<noteq> (''group'', i)" for k'
  proof -
    obtain t j where k: "k' = (t, j)" by (cases k')
    note m = map_upd_none [where h = id and f = f and P = P and k = g_id and i = i, simplified]
    show ?thesis using that unfolding k v by (cases "t = ''group''") (simp_all add: m P)
  qed
  moreover have "sameRows (dbView db (''group'', i)) (dbView (onGroups P f db) (''group'', i))"
    unfolding v by (simp add: comp_def f if_distrib [of g_id] if_distrib [of g_is_system])
  moreover have "ids (onGroups P f db) = ids db"
    using map_id_upd [of g_id f P "db_groups db", OF f(1)] by (simp add: ids_def onGroups_def del: map_map)
  ultimately show ?thesis by (simp add: touches_def onGroups_def del: dbView.simps)
qed

lemma touches_members:
  assumes "filter (\<lambda>m. m_group_id m \<noteq> i) ms = filter (\<lambda>m. m_group_id m \<noteq> i) (db_members db)"
  shows "touches (''group'', i) db (db\<lparr>db_members := ms\<rparr>)"
proof -
  have "set (filter (\<lambda>m. m_group_id m = j) ms) = set (filter (\<lambda>m. m_group_id m = j) (db_members db))" if "j \<noteq> i" for j
  proof -
    have "m \<in> set ms \<longleftrightarrow> m \<in> set (db_members db)" if "m_group_id m \<noteq> i" for m
      using that arg_cong [OF assms, of set] by auto
    with \<open>j \<noteq> i\<close> show ?thesis by auto
  qed
  then have "dbView (db\<lparr>db_members := ms\<rparr>) k' = dbView db k'" if "k' \<noteq> (''group'', i)" for k'
    using that by (cases k') auto
  then show ?thesis by (simp add: touches_def ids_def)
qed

text \<open>A snapshot that holds what the view shows.\<close>

definition captures :: "snapshot_row \<Rightarrow> database \<Rightarrow> bool" where
  "captures s db \<longleftrightarrow> wf_snapshot s \<and> restoredView s (dbView db (snapshotKey s)) = dbView db (snapshotKey s)"

definition logged :: "snapshot_row \<Rightarrow> database \<Rightarrow> database" where
  "logged s db =
     (if snapshotKey s \<in> snapshotKey ` set (db_snapshots db) then db else db\<lparr>db_snapshots := db_snapshots db @ [s]\<rparr>)"

definition session_inv :: "(string \<times> int \<Rightarrow> content) \<Rightarrow> database \<Rightarrow> bool" where
  "session_inv v db \<longleftrightarrow> sl.leads_back (db_snapshots db) db v \<and> distinctIds db"

lemma touched_inv:
  assumes inv: "session_inv v db" and cap: "captures s db" and t: "touches (snapshotKey s) (logged s db) db'"
  shows "session_inv v db'"
proof -
  let ?k = "snapshotKey s"
  have l: "dbView (logged s db) = dbView db" "ids (logged s db) = ids db" by (auto simp: logged_def fun_eq_iff ids_def)
  have oth: "\<And>k'. k' \<noteq> ?k \<Longrightarrow> dbView db' k' = dbView db k'" using t unfolding touches_def l by blast
  have rows: "sameRows (dbView db ?k) (dbView db' ?k)"
    and d: "distinctIds db'" and sn: "db_snapshots db' = db_snapshots (logged s db)"
    using t inv by (simp_all add: touches_def l session_inv_def distinctIds_def del: dbView.simps)
  have same: "restoredView r (dbView db' ?k) = restoredView r (dbView db ?k)" if "wf_snapshot r" "snapshotKey r = ?k" for r
    using restored_sameRows [of r db db'] that rows by (simp del: dbView.simps)
  show ?thesis
  proof (cases "?k \<in> snapshotKey ` set (db_snapshots db)")
    case True
    with sl.leads_back_again [of "db_snapshots db" db v ?k db'] inv oth same d sn show ?thesis
      by (simp add: session_inv_def logged_def del: dbView.simps)
  next
    case False
    have "restoredView s (dbView db' ?k) = dbView db ?k" using same [of s] cap by (simp add: captures_def del: dbView.simps)
    with sl.leads_back_first [of "db_snapshots db" db v s db'] False inv oth cap d sn show ?thesis
      by (simp add: session_inv_def logged_def captures_def del: dbView.simps)
  qed
qed

section \<open>Taking a snapshot\<close>

lemma filter_key: "distinct (map k xs) \<Longrightarrow> x \<in> set xs \<Longrightarrow> filter (\<lambda>y. k y = k x) xs = [x]"
  by (induction xs) (auto simp: filter_empty_conv image_iff)

lemma filter_hd: "filter P xs = y # ys \<Longrightarrow> y \<in> set xs \<and> P y"
  by (auto dest: filter_eq_ConsD)

lemma CreateSnapshot_ok:
  "CreateSnapshot t i a d db = (Inr (), db') \<Longrightarrow>
     db' = logged \<lparr>sn_entity_type = t, sn_entity_id = i, sn_action = a, sn_data = d\<rparr> db"
  by (auto simp: CreateSnapshot_def wrapS_ok execS_def logged_def hasSnapshot_def snapshotKey_def list_ex_iff split: if_splits)

lemma readPolicy_idem: "readPolicy ((readPolicy p)\<lparr>pl_id := pl_id p, pl_pending_delete := pl_pending_delete p\<rparr>) = readPolicy p"
  by (cases p) (auto simp: readPolicy_def nullableIP_def coalesce_def split: option.splits)

lemma readService_idem: "readService (readService s) = readService s"
  by (simp add: readService_def coalesce_def)

lemma policySnapshot_ok:
  assumes "policySnapshotTx a i db = (Inr (), db')" and "a \<noteq> ''create''" and "distinctIds db"
  obtains s where "snapshotKey s = (''policy'', i)" and "captures s db" and "db' = logged s db"
proof -
  obtain p where p: "GetPolicyTx i db = Inr p" and c: "CreateSnapshot ''policy'' i a (Some (PolicySnapshot p)) db = (Inr (), db')"
    using assms(1,2) by (auto simp: policySnapshotTx_def bindS_Inr wrapS_ok liftQ_def)
  from p obtain r where r: "r \<in> set (db_policies db)" "livePolicy i r" "p = readPolicy r"
    by (auto simp: GetPolicyTx_def wrapE_def queryRow_Inr map_eq_Cons_conv dest!: filter_hd split: sum.splits)
  let ?s = "\<lparr>sn_entity_type = ''policy'', sn_entity_id = i, sn_action = a, sn_data = Some (PolicySnapshot p)\<rparr>"
  have "filter (\<lambda>q. pl_id q = i) (db_policies db) = [r]"
    using filter_key [of pl_id "db_policies db" r] r assms(3) by (simp add: distinctIds_def ids_def livePolicy_def)
  then have "dbView db (''policy'', i) = PolicyContent [readPolicy r]" by simp
  then have "captures ?s db"
    using r assms(2) readPolicy_idem [of r] by (simp add: captures_def wf_snapshot_def restoredView_def snapshotKey_def livePolicy_def readPolicy_def)
  then show thesis using that [of ?s] CreateSnapshot_ok [OF c] by (simp add: snapshotKey_def)
qed

lemma serviceSnapshot_ok:
  assumes "SnapshotServiceTx a i db = (Inr (), db')" and "a \<noteq> ''create''" and "distinctIds db"
  obtains s where "snapshotKey s = (''service'', i)" and "captures s db" and "db' = logged s db"
proof -
  obtain p where p: "GetService i db = Inr p" and c: "CreateSnapshot ''service'' i a (Some (ServiceSnapshot p)) db = (Inr (), db')"
    using assms(1,2)
    by (auto simp: SnapshotServiceTx_def bindS_Inr liftQ_def notFoundAs_def wrapE_def split: sum.splits if_splits)
  from p obtain r where r: "r \<in> set (db_services db)" "liveService i r" "p = readService r"
    by (auto simp: GetService_def queryRow_Inr map_eq_Cons_conv dest!: filter_hd)
  let ?s = "\<lparr>sn_entity_type = ''service'', sn_entity_id = i, sn_action = a, sn_data = Some (ServiceSnapshot p)\<rparr>"
  have "filter (\<lambda>q. s_id q = i) (db_services db) = [r]"
    using filter_key [of s_id "db_services db" r] r assms(3) by (simp add: distinctIds_def ids_def liveService_def)
  then have "dbView db (''service'', i) = ServiceContent [readService r]" by simp
  then have "captures ?s db"
    using r assms(2) by (simp add: captures_def wf_snapshot_def restoredView_def snapshotKey_def liveService_def readService_def coalesce_def)
  then show thesis using that [of ?s] CreateSnapshot_ok [OF c] by (simp add: snapshotKey_def)
qed

lemma groupSnapshot_ok:
  assumes "groupSnapshotTx a i db = (Inr (), db')" and "a \<noteq> ''create''" and "distinctIds db"
  obtains s where "snapshotKey s = (''group'', i)" and "captures s db" and "db' = logged s db"
proof -
  obtain g ms where g: "GetGroupTx i db = Inr g" and ms: "ListGroupMembers i db = Inr ms"
    and c: "CreateSnapshot ''group'' i a (Some (GroupSnapshot g ms)) db = (Inr (), db')"
    using assms(1,2)
    by (auto simp: groupSnapshotTx_def bindS_Inr liftQ_def notFoundAs_def wrapS_ok wrapE_def split: sum.splits if_splits)
  from g have r: "g \<in> set (db_groups db)" "liveGroupRow i g"
    by (auto simp: GetGroupTx_def wrapE_def queryRow_Inr dest!: filter_hd split: sum.splits)
  from ms have m: "ms = filter (\<lambda>m. m_group_id m = i) (db_members db)" by (simp add: ListGroupMembers_def queryRows_Inr)
  let ?s = "\<lparr>sn_entity_type = ''group'', sn_entity_id = i, sn_action = a, sn_data = Some (GroupSnapshot g ms)\<rparr>"
  have "filter (\<lambda>q. g_id q = i) (db_groups db) = [g]"
    using filter_key [of g_id "db_groups db" g] r assms(3) by (simp add: distinctIds_def ids_def liveGroupRow_def)
  then have "dbView db (''group'', i) = GroupContent [g] (set ms)" by (simp add: m)
  then have "captures ?s db"
    using r assms(2) by (auto simp: captures_def wf_snapshot_def restoredView_def snapshotKey_def liveGroupRow_def list_all_iff m)
  then show thesis using that [of ?s] CreateSnapshot_ok [OF c] by (simp add: snapshotKey_def)
qed

section \<open>Edits keep the log\<close>

declare dbView.simps [simp del]

lemma RunInTx_ok: "RunInTx m db = (Inr v, db') \<Longrightarrow> m db = (Inr v, db')"
  by (auto simp: RunInTx_def split: prod.splits sum.splits if_splits)

lemma RunInTx_err: "RunInTx m db = (Inl x, db') \<Longrightarrow> db' = db"
  by (auto simp: RunInTx_def split: prod.splits sum.splits if_splits)

lemma execUpdate_ok: "execUpdate q msg found violates f db = (Inr (), db') \<Longrightarrow> db' = f db"
  by (auto simp: execUpdate_def split: if_splits)

definition freshKey :: "string \<times> int \<Rightarrow> database \<Rightarrow> bool" where
  "freshKey k db \<longleftrightarrow> k \<notin> snapshotKey ` set (db_snapshots db) \<and> withoutRows (dbView db k) = dbView db k"

text \<open>The identifier the database gives to a new row is new.\<close>

fun freshEdit :: "edit \<Rightarrow> database \<Rightarrow> bool" where
  "freshEdit (NewPolicy i _) db = freshKey (''policy'', i) db"
| "freshEdit (NewService i _ _ _ _) db = freshKey (''service'', i) db"
| "freshEdit (NewGroup i _ _) db = freshKey (''group'', i) db"
| "freshEdit _ _ = True"

fun creates :: "edit \<Rightarrow> bool" where
  "creates (NewPolicy _ _) = True"
| "creates (NewService _ _ _ _ _) = True"
| "creates (NewGroup _ _ _) = True"
| "creates _ = False"

lemma withoutRows_kind: "ofKind t c \<Longrightarrow> ofKind t c' \<Longrightarrow> withoutRows c = withoutRows c'"
  by (cases c; cases c') auto

lemma created_inv:
  assumes inv: "session_inv v db" and fresh: "freshKey (t, i) db" and sn: "db_snapshots e = db_snapshots db"
    and oth: "\<And>k'. k' \<noteq> (t, i) \<Longrightarrow> dbView e k' = dbView db k'" and d: "distinctIds e"
  shows "session_inv v (logged \<lparr>sn_entity_type = t, sn_entity_id = i, sn_action = ''create'', sn_data = None\<rparr> e)"
proof -
  let ?s = "\<lparr>sn_entity_type = t, sn_entity_id = i, sn_action = ''create'', sn_data = None\<rparr>"
  have k: "snapshotKey ?s = (t, i)" by (simp add: snapshotKey_def)
  have "restoredView ?s (dbView e (t, i)) = dbView db (t, i)"
    using fresh withoutRows_kind [of t "dbView e (t, i)" "dbView db (t, i)"] by (simp add: restoredView_def freshKey_def)
  moreover have l: "logged ?s e = e\<lparr>db_snapshots := db_snapshots db @ [?s]\<rparr>" "dbView (logged ?s e) = dbView e" "ids (logged ?s e) = ids e"
    using fresh by (auto simp: logged_def k sn freshKey_def fun_eq_iff dbView.simps ids_def)
  ultimately show ?thesis
    using sl.leads_back_first [of "db_snapshots db" db v ?s "logged ?s e"] inv fresh d oth
    by (simp add: session_inv_def k wf_snapshot_def freshKey_def distinctIds_def)
qed

lemma fresh_ids:
  "freshKey (''policy'', i) db \<Longrightarrow> i \<notin> pl_id ` set (db_policies db)"
  "freshKey (''service'', i) db \<Longrightarrow> i \<notin> s_id ` set (db_services db)"
  "freshKey (''group'', i) db \<Longrightarrow> i \<notin> g_id ` set (db_groups db)"
  by (auto simp: freshKey_def dbView.simps filter_empty_conv eq_commute [of "[]"])

lemma newPolicy_inv:
  assumes "session_inv v db" and "freshKey (''policy'', i) db" and "applyEdit (NewPolicy i p) db = (Inr (), db')"
  shows "session_inv v db'"
proof -
  let ?e = "db\<lparr>db_policies := db_policies db @ [p\<lparr>pl_id := i, pl_pending_delete := False\<rparr>]\<rparr>"
  have "CreateSnapshot ''policy'' i ''create'' None ?e = (Inr (), db')"
    using assms(3) by (auto simp: bindS_Inr CreatePolicy_def policySnapshotTx_def split: if_splits)
  moreover have "dbView ?e k' = dbView db k'" if "k' \<noteq> (''policy'', i)" for k'
    using that by (cases k') (auto simp: dbView.simps)
  moreover have "distinctIds ?e"
    using assms(1) fresh_ids(1) [OF assms(2)] by (simp add: session_inv_def distinctIds_def ids_def)
  ultimately show ?thesis using created_inv [OF assms(1,2), of ?e] CreateSnapshot_ok by fastforce
qed

lemma newService_inv:
  assumes "session_inv v db" and "freshKey (''service'', i) db" and "applyEdit (NewService i n ps sps pr) db = (Inr (), db')"
  shows "session_inv v db'"
proof -
  let ?e = "db\<lparr>db_services := db_services db @ [\<lparr>s_id = i, s_name = n, s_ports = ps, s_source_ports = Some sps, s_protocol = pr,
           s_no_conntrack = SInt 0, s_is_system = False, s_pending_delete = False\<rparr>]\<rparr>"
  have "CreateSnapshot ''service'' i ''create'' None ?e = (Inr (), db')"
    using assms(3) by (auto simp: bindS_Inr CreateService_def SnapshotServiceTx_def split: if_splits sum.splits)
  moreover have "dbView ?e k' = dbView db k'" if "k' \<noteq> (''service'', i)" for k'
    using that by (cases k') (auto simp: dbView.simps)
  moreover have "distinctIds ?e"
    using assms(1) fresh_ids(2) [OF assms(2)] by (simp add: session_inv_def distinctIds_def ids_def)
  ultimately show ?thesis using created_inv [OF assms(1,2), of ?e] CreateSnapshot_ok by fastforce
qed

lemma newGroup_inv:
  assumes "session_inv v db" and "freshKey (''group'', i) db" and "applyEdit (NewGroup i n d) db = (Inr (), db')"
  shows "session_inv v db'"
proof -
  let ?e = "db\<lparr>db_groups := db_groups db @ [\<lparr>g_id = i, g_name = n, g_description = d, g_is_system = False, g_pending_delete = False\<rparr>]\<rparr>"
  have "CreateSnapshot ''group'' i ''create'' None ?e = (Inr (), db')"
    using assms(3) by (auto simp: bindS_Inr CreateGroup_def groupSnapshotTx_def split: if_splits)
  moreover have "dbView ?e k' = dbView db k'" if "k' \<noteq> (''group'', i)" for k'
    using that by (cases k') (auto simp: dbView.simps)
  moreover have "distinctIds ?e"
    using assms(1) fresh_ids(3) [OF assms(2)] by (simp add: session_inv_def distinctIds_def ids_def)
  ultimately show ?thesis using created_inv [OF assms(1,2), of ?e] CreateSnapshot_ok by fastforce
qed

lemma policyEdit_inv:
  assumes "session_inv v db" and "a \<noteq> ''create''" and "RunInTx (bindS (policySnapshotTx a i) (\<lambda>_. m)) db = (Inr (), db')"
    and m: "\<And>d. m d = (Inr (), db') \<Longrightarrow> touches (''policy'', i) d db'"
  shows "session_inv v db'"
proof -
  obtain e where e: "policySnapshotTx a i db = (Inr (), e)" and "m e = (Inr (), db')"
    using RunInTx_ok [OF assms(3)] by (auto simp: bindS_Inr)
  with m have t: "touches (''policy'', i) e db'" by blast
  have d: "distinctIds db" using assms(1) by (simp add: session_inv_def)
  from policySnapshot_ok [OF e assms(2) d] show ?thesis by (metis t touched_inv [OF assms(1)])
qed

lemma serviceEdit_inv:
  assumes "session_inv v db" and "a \<noteq> ''create''" and "RunInTx (bindS (SnapshotServiceTx a i) (\<lambda>_. m)) db = (Inr (), db')"
    and m: "\<And>d. m d = (Inr (), db') \<Longrightarrow> touches (''service'', i) d db'"
  shows "session_inv v db'"
proof -
  obtain e where e: "SnapshotServiceTx a i db = (Inr (), e)" and "m e = (Inr (), db')"
    using RunInTx_ok [OF assms(3)] by (auto simp: bindS_Inr)
  with m have t: "touches (''service'', i) e db'" by blast
  have d: "distinctIds db" using assms(1) by (simp add: session_inv_def)
  from serviceSnapshot_ok [OF e assms(2) d] show ?thesis by (metis t touched_inv [OF assms(1)])
qed

lemma groupEdit_inv:
  assumes "session_inv v db" and "a \<noteq> ''create''" and "bindS (groupSnapshotTx a i) (\<lambda>_. m) db = (Inr (), db')"
    and m: "\<And>d. m d = (Inr (), db') \<Longrightarrow> touches (''group'', i) d db'"
  shows "session_inv v db'"
proof -
  obtain e where e: "groupSnapshotTx a i db = (Inr (), e)" and "m e = (Inr (), db')"
    using assms(3) by (auto simp: bindS_Inr)
  with m have t: "touches (''group'', i) e db'" by blast
  have d: "distinctIds db" using assms(1) by (simp add: session_inv_def)
  from groupSnapshot_ok [OF e assms(2) d] show ?thesis by (metis t touched_inv [OF assms(1)])
qed

lemma policy_touches:
  "UpdatePolicyTx p d = (Inr (), d') \<Longrightarrow> touches (''policy'', pl_id p) d d'"
  "PatchPolicyEnabledTx i b d = (Inr (), d') \<Longrightarrow> touches (''policy'', i) d d'"
  "SoftDeletePolicyTx i d = (Inr (), d') \<Longrightarrow> touches (''policy'', i) d d'"
  unfolding UpdatePolicyTx_def PatchPolicyEnabledTx_def SoftDeletePolicyTx_def
  by (auto dest!: execUpdate_ok intro!: touches_onPolicies simp: livePolicy_def setPolicy_def)

lemma service_touches:
  "UpdateServiceTx i n ps sps pr d = (Inr (), d') \<Longrightarrow> touches (''service'', i) d d'"
  "bindS (serviceConstraintsTx i) (\<lambda>_. SoftDeleteServiceTx i) d = (Inr (), d') \<Longrightarrow> touches (''service'', i) d d'"
  unfolding UpdateServiceTx_def SoftDeleteServiceTx_def
  by (auto dest!: execUpdate_ok intro!: touches_onServices simp: liveService_def bindS_Inr serviceConstraintsTx_def split: if_splits)

lemma group_touches:
  "UpdateGroupTx i n ds d = (Inr (), d') \<Longrightarrow> touches (''group'', i) d d'"
  "bindS (groupConstraintsTx i) (\<lambda>_. SoftDeleteGroupTx i) d = (Inr (), d') \<Longrightarrow> touches (''group'', i) d d'"
  "addGroupMember i p d = (Inr (), d') \<Longrightarrow> touches (''group'', i) d d'"
  "deleteGroupMember i p d = (Inr (), d') \<Longrightarrow> touches (''group'', i) d d'"
proof -
  show "UpdateGroupTx i n ds d = (Inr (), d') \<Longrightarrow> touches (''group'', i) d d'"
    unfolding UpdateGroupTx_def by (auto dest!: execUpdate_ok intro!: touches_onGroups simp: liveGroupRow_def)
  show "bindS (groupConstraintsTx i) (\<lambda>_. SoftDeleteGroupTx i) d = (Inr (), d') \<Longrightarrow> touches (''group'', i) d d'"
    unfolding SoftDeleteGroupTx_def
    by (auto dest!: execUpdate_ok intro!: touches_onGroups simp: liveGroupRow_def bindS_Inr groupConstraintsTx_def split: if_splits)
  show "addGroupMember i p d = (Inr (), d') \<Longrightarrow> touches (''group'', i) d d'"
    by (auto simp: addGroupMember_def Let_def intro!: touches_members split: if_splits)
  have "filter (\<lambda>m. m_group_id m \<noteq> i) (filter (\<lambda>m. \<not> (m_group_id m = i \<and> m_peer_id m = p)) xs) = filter (\<lambda>m. m_group_id m \<noteq> i) xs" for xs
    by (induction xs) auto
  from touches_members [OF this] show "deleteGroupMember i p d = (Inr (), d') \<Longrightarrow> touches (''group'', i) d d'"
    by (auto simp: deleteGroupMember_def wrapS_ok execS_def split: if_splits)
qed

lemma edit_inv:
  assumes inv: "session_inv v db" and "applyEdit e db = (Inr (), db')" and "freshEdit e db"
  shows "session_inv v db'"
proof (cases e)
  case (NewPolicy i p)
  with assms show ?thesis using newPolicy_inv by (simp del: applyEdit.simps)
next
  case (NewService i n ps sps pr)
  with assms show ?thesis using newService_inv by (simp del: applyEdit.simps)
next
  case (NewGroup i n d)
  with assms show ?thesis using newGroup_inv by (simp del: applyEdit.simps)
next
  case (EditPolicy p)
  with assms(2) show ?thesis by (auto elim!: policyEdit_inv [OF inv, rotated] intro: policy_touches)
next
  case (PatchPolicy i b)
  with assms(2) show ?thesis by (auto elim!: policyEdit_inv [OF inv, rotated] intro: policy_touches)
next
  case (RemovePolicy i)
  with assms(2) show ?thesis by (auto elim!: policyEdit_inv [OF inv, rotated] intro: policy_touches)
next
  case (EditService i n ps sps pr)
  with assms(2) show ?thesis by (auto elim!: serviceEdit_inv [OF inv, rotated] intro: service_touches)
next
  case (RemoveService i)
  with assms(2) show ?thesis by (auto elim!: serviceEdit_inv [OF inv, rotated] intro: service_touches)
next
  case (EditGroup i n ds)
  with assms(2) obtain b where "groupsUpdate i n ds db = (Inr b, db')" by (auto simp: bindS_Inr)
  from this [unfolded groupsUpdate_def, THEN RunInTx_ok] inv show ?thesis
    by (auto simp: bindS_Inr [where m = "liftQ (GetGroupTx i)"] bindS_Inr [where f = "\<lambda>_. returnS b" for b] liftQ_def
        elim!: groupEdit_inv [OF inv, rotated] intro: group_touches split: if_splits)
next
  case (RemoveGroup i)
  with assms(2) show ?thesis by (auto dest!: RunInTx_ok elim!: groupEdit_inv [OF inv, rotated] intro: group_touches)
next
  case (AddMember g p)
  with assms(2) show ?thesis by (auto dest!: RunInTx_ok elim!: groupEdit_inv [OF inv, rotated] intro: group_touches)
next
  case (RemoveMember g p)
  with assms(2) inv show ?thesis
    by (auto simp: groupsDeleteMember_def bindS_Inr [where m = "liftQ f" for f] bindS_Inr [where m = "bindS (liftQ f) h" for f h]
        bindS_Inr [where f = "\<lambda>_. returnS b" for b] liftQ_def
        dest!: RunInTx_ok elim!: groupEdit_inv [OF inv, rotated] intro: group_touches split: if_splits)
qed

lemma refused_edit: "\<not> creates e \<Longrightarrow> applyEdit e db = (Inl x, db') \<Longrightarrow> db' = db"
  by (cases e) (auto simp: groupsUpdate_def groupsDeleteMember_def bindS_eq [where m = "liftQ f" for f]
      bindS_eq [where f = "\<lambda>_. returnS u" for u] liftQ_def dest: RunInTx_err split: if_splits)

section \<open>Sessions\<close>

lemma rollbackOne_frame:
  assumes "rollbackOne s db = (Inr (), db')"
  shows "db_snapshots db' = db_snapshots db" and "distinctIds db \<Longrightarrow> distinctIds db'"
proof -
  let ?t = "sn_entity_type s" and ?i = "sn_entity_id s"
  have "db_snapshots db' = db_snapshots db \<and> (distinctIds db \<longrightarrow> distinctIds db')"
  proof (cases "sn_action s = ''create''")
    case True
    then obtain e where c: "checkCreateRollbackConstraints ?t ?i db = (Inr (), e)" and r: "rollbackCreateEntity ?t ?i e = (Inr (), db')"
      using assms by (auto simp: rollbackOne_def wrapS_ok bindS_Inr)
    have "e = db" using c by (auto simp: checkCreateRollbackConstraints_def split: if_splits)
    then show ?thesis using r
      by (auto simp: rollbackCreateEntity_def distinctIds_def ids_def distinct_map_filter split: if_splits)
  next
    case False
    then obtain d where r: "rollbackUpdateDeleteEntity ?t ?i d db = (Inr (), db')"
      using assms by (auto simp: rollbackOne_def wrapS_ok split: option.splits)
    have "ids db' = ids db \<and> db_snapshots db' = db_snapshots db"
      using r by (cases d) (auto simp: rollbackUpdateDeleteEntity_def restoreGroup_def restorePolicy_def restoreService_def onGroups_def
          onPolicies_def onServices_def ids_def map_id_upd comp_def if_distrib [of pl_id] if_distrib [of s_id] if_distrib [of g_id]
          split: if_splits)
    then show ?thesis by (simp add: distinctIds_def)
  qed
  then show "db_snapshots db' = db_snapshots db" and "distinctIds db \<Longrightarrow> distinctIds db'" by auto
qed

lemma entity_rollback_ok:
  assumes "RollbackEntitySnapshot t i db = (Inr (), db')"
  obtains s e where "s \<in> set (db_snapshots db)" and "snapshotKey s = (t, i)" and "rollbackOne s db = (Inr (), e)"
    and "db' = e\<lparr>db_pending := filter (\<lambda>c. \<not> (c_change_type c = t \<and> c_change_id c = i)) (db_pending e),
           db_snapshots := filter (\<lambda>s. snapshotKey s \<noteq> (t, i)) (db_snapshots e)\<rparr>"
proof -
  from RunInTx_ok [OF assms [unfolded RollbackEntitySnapshot_def]] obtain s ss e u
    where s: "filter (\<lambda>s. sn_entity_type s = t \<and> sn_entity_id s = i) (db_snapshots db) = s # ss"
    and r: "(if sn_action s = ''create'' then bindS (checkCreateRollbackConstraints t i) (\<lambda>_. rollbackCreateEntity t i)
              else if sn_action s = ''update'' \<or> sn_action s = ''delete''
              then (case sn_data s of None \<Rightarrow> failS (Leaf ''missing snapshot data'') | Some d \<Rightarrow> rollbackUpdateDeleteEntity t i d)
              else failS (Leaf ''unknown snapshot action'')) db = (Inr u, e)"
    and d: "execS (QEntity ''clear'' t i) (\<lambda>db. db\<lparr>
           db_pending := filter (\<lambda>c. \<not> (c_change_type c = t \<and> c_change_id c = i)) (db_pending db),
           db_snapshots := filter (\<lambda>s. \<not> (sn_entity_type s = t \<and> sn_entity_id s = i)) (db_snapshots db)\<rparr>) e = (Inr (), db')"
    unfolding bindS_Inr liftQ_def prod.inject queryRow_Inr by fast
  from filter_hd [OF s] have k: "s \<in> set (db_snapshots db)" "sn_entity_type s = t" "sn_entity_id s = i" by simp_all
  have "rollbackOne s db = (Inr (), e)"
    using r k by (auto simp: rollbackOne_def wrapS_ok split: if_splits option.splits)
  then show thesis using that k d by (auto simp: snapshotKey_def execS_def split: if_splits)
qed

lemma entity_rollback_inv:
  assumes inv: "session_inv v db" and ok: "RollbackEntitySnapshot t i db = (Inr (), db')"
  shows "session_inv v db'"
proof -
  from ok obtain s e where s: "s \<in> set (db_snapshots db)" "snapshotKey s = (t, i)" and r: "rollbackOne s db = (Inr (), e)"
    and d: "db' = e\<lparr>db_pending := filter (\<lambda>c. \<not> (c_change_type c = t \<and> c_change_id c = i)) (db_pending e),
           db_snapshots := filter (\<lambda>s. snapshotKey s \<noteq> (t, i)) (db_snapshots e)\<rparr>"
    by (rule entity_rollback_ok)
  have "dbView db' = dbView e" "ids db' = ids e" by (auto simp: d fun_eq_iff dbView.simps ids_def)
  with sl.leads_back_undo [OF _ s(1) r, of v] rollbackOne_frame [OF r] inv s(2) show ?thesis
    by (simp add: session_inv_def distinctIds_def sl.leads_back_def d)
qed

text \<open>
  A session: edits that succeed, edits of existing entities that are refused, rollbacks of single
  entities, and steps of other parts of the program that leave the edited tables alone.
\<close>

inductive session :: "database \<Rightarrow> database \<Rightarrow> bool" for db0 where
  start: "session db0 db0"
| edited: "session db0 db \<Longrightarrow> applyEdit e db = (Inr (), db') \<Longrightarrow> freshEdit e db \<Longrightarrow> session db0 db'"
| refused: "session db0 db \<Longrightarrow> applyEdit e db = (Inl x, db') \<Longrightarrow> \<not> creates e \<Longrightarrow> session db0 db'"
| undone: "session db0 db \<Longrightarrow> RollbackEntitySnapshot t i db = (r, db') \<Longrightarrow> session db0 db'"
| other: "session db0 db \<Longrightarrow> db_policies db' = db_policies db \<Longrightarrow> db_services db' = db_services db \<Longrightarrow>
    db_groups db' = db_groups db \<Longrightarrow> db_members db' = db_members db \<Longrightarrow> db_snapshots db' = db_snapshots db \<Longrightarrow> session db0 db'"

lemma session_keeps:
  assumes "session db0 db" and "distinctIds db0" and "db_snapshots db0 = []"
  shows "session_inv (dbView db0) db"
  using assms(1)
proof induction
  case start
  then show ?case using assms(2,3) sl.leads_back_empty [of db0] by (simp add: session_inv_def)
next
  case (edited db e db')
  then show ?case using edit_inv by blast
next
  case (refused db e x db')
  then show ?case using refused_edit by blast
next
  case (undone db t i r db')
  show ?case
  proof (cases r)
    case (Inl x)
    with undone have "db' = db" by (auto simp: RollbackEntitySnapshot_def dest: RunInTx_err)
    then show ?thesis using undone by simp
  next
    case (Inr u)
    then show ?thesis using undone entity_rollback_inv by auto
  qed
next
  case (other db db')
  then have "dbView db' = dbView db" "ids db' = ids db" by (auto simp: fun_eq_iff dbView.simps ids_def)
  with other show ?case using sl.leads_back_other [of _ db _ db'] by (simp add: session_inv_def distinctIds_def)
qed

text \<open>
  C14 (UNDO): In any session of edits, single rollbacks and other steps that starts without snapshots,
  a rollback of all snapshots that succeeds brings every policy, service and group back to what it
  was at the start, memberships included, removes what was created, and leaves no snapshot and no
  pending change.
\<close>

theorem rollback_undoes_session:
  assumes "distinctIds db0" and "db_snapshots db0 = []" and "session db0 db" and "RollbackSnapshots db = (Inr (), db')"
  shows "dbView db' = dbView db0 \<and> db_snapshots db' = [] \<and> db_pending db' = []"
proof -
  from RunInTx_ok [OF assms(4) [unfolded RollbackSnapshots_def]] obtain e where r: "rollbackEach (rev (db_snapshots db)) db = (Inr (), e)"
    and d: "db' = e\<lparr>db_snapshots := [], db_pending := []\<rparr>"
    by (auto simp: bindS_Inr liftQ_def queryRows_Inr execS_def split: if_splits)
  have "sl.leads_back (rev (db_snapshots db)) db (dbView db0)"
    using session_keeps [OF assms(3,1,2)] by (simp add: session_inv_def sl.leads_back_rev)
  from sl.replay_view [OF this r] have "dbView e = dbView db0" .
  moreover have "dbView db' = dbView e" by (simp add: d fun_eq_iff dbView.simps)
  ultimately show ?thesis by (simp add: d)
qed

text \<open>
  A session on the example network: the policy is disabled, a group is created and its only
  member removed from the other group.
\<close>

fun applyEdits :: "edit list \<Rightarrow> (unit, database) step" where
  "applyEdits [] = returnS ()"
| "applyEdits (e # es) = bindS (applyEdit e) (\<lambda>_. applyEdits es)"

fun freshEdits :: "edit list \<Rightarrow> database \<Rightarrow> bool" where
  "freshEdits [] db = True"
| "freshEdits (e # es) db = (freshEdit e db \<and> freshEdits es (snd (applyEdit e db)))"

lemma session_edits:
  "session db0 db \<Longrightarrow> freshEdits es db \<Longrightarrow> applyEdits es db = (Inr (), db') \<Longrightarrow> session db0 db'"
proof (induction es arbitrary: db)
  case (Cons e es)
  from Cons.prems(3) obtain d where e: "applyEdit e db = (Inr (), d)" and es: "applyEdits es d = (Inr (), db')"
    by (auto simp: bindS_Inr simp del: applyEdit.simps)
  with Cons.prems have "session db0 d" "freshEdits es d" by (auto intro: session.edited simp del: applyEdit.simps)
  then show ?case using es by (rule Cons.IH)
qed simp

definition exEdits :: "edit list" where
  "exEdits = [PatchPolicy 1 False, NewGroup 2 ''servers'' [], RemoveMember 1 1]"

lemma exEdits_ok: "fst (applyEdits exEdits exDB) = Inr () \<and> freshEdits exEdits exDB \<and>
    fst (RollbackSnapshots (snd (applyEdits exEdits exDB))) = Inr ()"
  by code_simp

theorem rollback_undoes_session_witness:
  "session exDB (snd (applyEdits exEdits exDB)) \<and>
   dbView (snd (RollbackSnapshots (snd (applyEdits exEdits exDB)))) = dbView exDB"
proof -
  let ?d = "snd (applyEdits exEdits exDB)"
  have s: "session exDB ?d" using session_edits [OF session.start, of exEdits exDB ?d] exEdits_ok by (simp add: prod_eq_iff)
  moreover have "distinctIds exDB" "db_snapshots exDB = []" by (simp_all add: distinctIds_def ids_def exDB_def)
  ultimately show ?thesis
    using rollback_undoes_session [of exDB ?d "snd (RollbackSnapshots ?d)"] exEdits_ok by (simp add: prod_eq_iff)
qed


end
