(* ===== verification/Cleanup.thy ===== *)
theory Cleanup
  imports Rollback Compiler
begin

text \<open>
  The cleanup after everything is applied (\<^verbatim>\<open>internal/store/pending_store.go\<close>) against
  the compiler: the rows it deletes for good are rows the compiler no longer reads.
\<close>

lemma live_members:
  assumes "wf_db db" and "liveGroup db gid"
  shows "filter (\<lambda>m. m_group_id m = gid) (db_members (purge db)) = filter (\<lambda>m. m_group_id m = gid) (db_members db)"
proof -
  obtain g where g: "g \<in> set (db_groups db)" "g_id g = gid" "\<not> g_pending_delete g"
    using assms(2) by (auto simp: liveGroup_def list_ex_iff)
  have "\<not> g_pending_delete h" if "h \<in> set (db_groups db)" "g_id h = gid" for h
    using that g assms(1) by (metis (no_types, lifting) distinct_map inj_on_def wf_db_def)
  then show ?thesis by (auto simp: purge_def list_ex_iff intro!: filter_cong)
qed

lemma purge_live: "liveGroup (purge db) gid = liveGroup db gid"
  by (auto simp: liveGroup_def purge_def list_ex_iff)

lemma purge_same_live:
  assumes "wf_db db"
  shows "same_live db (purge db)"
proof
  have m: "groupMemberRows (purge db) gid = groupMemberRows db gid" for gid
  proof (cases "liveGroup db gid")
    case True
    have "db_peers (purge db) = db_peers db" by (simp add: purge_def)
    then show ?thesis by (simp only: groupMemberRows_def purge_live live_members [OF assms True])
  qed (simp add: groupMemberRows_def purge_live)
  then show "groupMemberRows (purge db) = groupMemberRows db" by (rule ext)
  have "inGroup (purge db) gid p = inGroup db gid p" for gid p
  proof (cases "liveGroup db gid")
    case True
    have f: "list_ex (\<lambda>m. m_group_id m = gid \<and> m_peer_id m = p) ms = list_ex (\<lambda>m. m_peer_id m = p) (filter (\<lambda>m. m_group_id m = gid) ms)" for ms
      by (auto simp: list_ex_iff)
    show ?thesis unfolding inGroup_def purge_live f live_members [OF assms True] ..
  qed (simp add: inGroup_def purge_live)
  then show "inGroup (purge db) = inGroup db" by (intro ext)
qed (simp_all add: purge_def)

lemma purge_wf:
  assumes "wf_db db"
  shows "wf_db (purge db)"
  using assms by (auto simp: wf_db_def purge_def distinct_map_filter list_all_iff list_ex_iff)

lemma CleanupIfComplete_cases:
  assumes "CleanupIfComplete db = (r, db')"
  shows "if r = Inr () \<and> db_pending db = [] then db' = purge db else db' = db"
  using assms
  by (auto simp: CleanupIfComplete_def CleanupAfterApplyAll_def RunInTx_def bindS_def wrapS_def wrapE_def liftQ_def queryRow_def
      split: if_splits sum.splits)

text \<open>
  C24 (CLEANUP): The cleanup changes the bundle of no peer. When it succeeds with nothing pending, no
  softly deleted row and no snapshot is left; when a change is pending or a statement fails, the
  database is as it was. The keys of the schema are kept.
\<close>

theorem cleanup_keeps_bundles:
  assumes "wf_db db" and "CleanupIfComplete db = (r, db')"
  shows "Compile db' now i = Compile db now i \<and> wf_db db' \<and>
    (if r = Inr () \<and> db_pending db = []
     then db_snapshots db' = [] \<and> list_all (\<lambda>p. \<not> pl_pending_delete p) (db_policies db') \<and>
          list_all (\<lambda>s. \<not> s_pending_delete s) (db_services db') \<and> list_all (\<lambda>g. \<not> g_pending_delete g) (db_groups db')
     else db' = db)"
proof (cases "r = Inr () \<and> db_pending db = []")
  case True
  then have d: "db' = purge db" using CleanupIfComplete_cases [OF assms(2)] by simp
  have "db_snapshots db' = [] \<and> list_all (\<lambda>p. \<not> pl_pending_delete p) (db_policies db') \<and>
      list_all (\<lambda>s. \<not> s_pending_delete s) (db_services db') \<and> list_all (\<lambda>g. \<not> g_pending_delete g) (db_groups db')"
    by (simp add: d purge_def list_all_iff)
  with True show ?thesis
    using same_live.live_Compile [OF purge_same_live [OF assms(1)]] purge_wf [OF assms(1)] by (simp add: d)
next
  case False
  then have "db' = db" using CleanupIfComplete_cases [OF assms(2)] by auto
  with False show ?thesis using assms(1) by auto
qed

definition exRemoved :: database where
  "exRemoved = snd (applyEdit (RemovePolicy 1) exDB)"

theorem cleanup_keeps_bundles_witness:
  "fst (CleanupIfComplete exRemoved) = Inr () \<and>
   Compile (snd (CleanupIfComplete exRemoved)) ''t'' 1 = Compile exRemoved ''t'' 1 \<and> db_policies (snd (CleanupIfComplete exRemoved)) = []"
proof -
  have w: "wf_db exRemoved" by code_simp
  have r: "fst (CleanupIfComplete exRemoved) = Inr ()" "db_policies (snd (CleanupIfComplete exRemoved)) = []" by code_simp+
  from cleanup_keeps_bundles [OF w prod.collapse [symmetric], of "''t''" 1] r show ?thesis by blast
qed

end
