(* ===== verification/Worker.thy ===== *)
theory Worker
  imports Prelude
begin

text \<open>
  The background worker that \<^verbatim>\<open>internal/change/change_worker.go\<close> and
  \<^verbatim>\<open>internal/api/common/pushworker.go\<close> share in structure: a buffered channel, a goroutine
  started once that serves it, a \<^verbatim>\<open>Stop\<close> that closes it, and a drain when the context of the
  start is cancelled. The jobs, what processing one does and how a client enqueues one are
  parameters. The state is that of the two flags under their mutex, of the channel and of the
  program counter of the goroutine; every step is one critical section or one choice of a
  \<^verbatim>\<open>select\<close>, and steps of the goroutine, of clients and of the rest of the program interleave
  freely.
\<close>

section \<open>State\<close>

text \<open>
  \<open>Busy x drain\<close>: job \<open>x\<close> is being processed, in the drain loop or not. \<open>Exiting\<close>: the
  goroutine has left its loops and the deferred \<^verbatim>\<open>close(done)\<close> has not run.
\<close>

datatype 'w pc = NotRunning | Loop | Busy 'w bool | Draining | Exiting | Exited

text \<open>
  \<open>wk_acked\<close> and \<open>wk_processed\<close> record the jobs accepted and the jobs processed, in order; the
  program does not read them.
\<close>

record ('w, 'd) worker =
  wk_queue :: "'w list"
  wk_closed :: bool
  wk_started :: bool
  wk_stopped :: bool
  wk_startOnce :: bool
  wk_stopOnce :: bool
  wk_cancelled :: bool
  wk_pc :: "'w pc"
  wk_data :: 'd
  wk_acked :: "'w list"
  wk_processed :: "'w list"

definition workChCap :: nat where
  "workChCap = 100"

definition newWorker :: "'d \<Rightarrow> ('w, 'd) worker" where
  "newWorker d =
     \<lparr>wk_queue = [], wk_closed = False, wk_started = False, wk_stopped = False, wk_startOnce = False,
      wk_stopOnce = False, wk_cancelled = False, wk_pc = NotRunning, wk_data = d, wk_acked = [], wk_processed = []\<rparr>"

section \<open>Start, stop and send\<close>

definition startWorker :: "('w, 'd) worker \<Rightarrow> ('w, 'd) worker" where
  "startWorker w =
     (if wk_startOnce w then w
      else let w = w\<lparr>wk_startOnce := True\<rparr> in
        if wk_stopped w then w
        else if wk_started w then w
        else w\<lparr>wk_started := True, wk_pc := Loop\<rparr>)"

definition stopWorker :: "('w, 'd) worker \<Rightarrow> ('w, 'd) worker" where
  "stopWorker w =
     (if wk_stopOnce w then w
      else let w = w\<lparr>wk_stopOnce := True\<rparr> in
        if wk_stopped w then w
        else if \<not> wk_started w then w\<lparr>wk_stopped := True\<rparr>
        else w\<lparr>wk_stopped := True, wk_closed := True\<rparr>)"

definition isDoneClosed :: "('w, 'd) worker \<Rightarrow> bool" where
  "isDoneClosed w = (case wk_pc w of Exited \<Rightarrow> True | _ \<Rightarrow> False)"

text \<open>The send of a \<^verbatim>\<open>select\<close> with a default branch; the buffer is full in the other case.\<close>

definition hasRoom :: "('w, 'd) worker \<Rightarrow> bool" where
  "hasRoom w = (length (wk_queue w) < workChCap)"

definition send :: "'w \<Rightarrow> ('w, 'd) worker \<Rightarrow> ('w, 'd) worker" where
  "send x w = w\<lparr>wk_queue := wk_queue w @ [x], wk_acked := wk_acked w @ [x]\<rparr>"

section \<open>The goroutine\<close>

text \<open>
  The loop chooses between a job and the cancellation when both are ready. A receive from a closed
  and empty channel ends it. The drain takes what is buffered and ends on an empty channel, closed
  or not.
\<close>

inductive gstep :: "('w \<Rightarrow> 'd \<Rightarrow> 'd) \<Rightarrow> ('w, 'd) worker \<Rightarrow> ('w, 'd) worker \<Rightarrow> bool" for process where
  receive: "wk_pc w = Loop \<Longrightarrow> wk_queue w = x # q \<Longrightarrow> gstep process w (w\<lparr>wk_pc := Busy x False, wk_queue := q\<rparr>)"
| closed: "wk_pc w = Loop \<Longrightarrow> wk_queue w = [] \<Longrightarrow> wk_closed w \<Longrightarrow> gstep process w (w\<lparr>wk_pc := Exiting\<rparr>)"
| cancelled: "wk_pc w = Loop \<Longrightarrow> wk_cancelled w \<Longrightarrow> gstep process w (w\<lparr>wk_pc := Draining\<rparr>)"
| finished: "wk_pc w = Busy x drain \<Longrightarrow>
    gstep process w (w\<lparr>wk_pc := (if drain then Draining else Loop), wk_data := process x (wk_data w),
      wk_processed := wk_processed w @ [x]\<rparr>)"
| drain: "wk_pc w = Draining \<Longrightarrow> wk_queue w = x # q \<Longrightarrow> gstep process w (w\<lparr>wk_pc := Busy x True, wk_queue := q\<rparr>)"
| drained: "wk_pc w = Draining \<Longrightarrow> wk_queue w = [] \<Longrightarrow> gstep process w (w\<lparr>wk_pc := Exiting\<rparr>)"
| exit: "wk_pc w = Exiting \<Longrightarrow> gstep process w (w\<lparr>wk_pc := Exited\<rparr>)"

inductive_cases gstep_elim: "gstep process w w'"

text \<open>
  A step of the whole program: the goroutine, the three operations, the cancellation of the
  context, or any other code that changes the shared data and keeps its invariant.
\<close>

inductive wstep :: "('w \<Rightarrow> 'd \<Rightarrow> 'd) \<Rightarrow> ('w \<Rightarrow> ('w, 'd) worker \<Rightarrow> goerr option \<times> ('w, 'd) worker) \<Rightarrow> ('d \<Rightarrow> bool) \<Rightarrow>
    ('w, 'd) worker \<Rightarrow> ('w, 'd) worker \<Rightarrow> bool" for process enqueue invar where
  goroutine: "gstep process w w' \<Longrightarrow> wstep process enqueue invar w w'"
| start: "wstep process enqueue invar w (startWorker w)"
| stop: "wstep process enqueue invar w (stopWorker w)"
| cancel: "wstep process enqueue invar w (w\<lparr>wk_cancelled := True\<rparr>)"
| enqueue: "wstep process enqueue invar w (snd (enqueue x w))"
| other: "invar d \<Longrightarrow> wstep process enqueue invar w (w\<lparr>wk_data := d\<rparr>)"

definition reaches :: "('w \<Rightarrow> 'd \<Rightarrow> 'd) \<Rightarrow> ('w \<Rightarrow> ('w, 'd) worker \<Rightarrow> goerr option \<times> ('w, 'd) worker) \<Rightarrow> ('d \<Rightarrow> bool) \<Rightarrow>
    'd \<Rightarrow> ('w, 'd) worker \<Rightarrow> bool" where
  "reaches process enqueue invar d w = (invar d \<and> (wstep process enqueue invar)\<^sup>*\<^sup>* (newWorker d) w)"

section \<open>The invariant\<close>

fun busyWork :: "'w pc \<Rightarrow> 'w list" where
  "busyWork (Busy x drain) = [x]"
| "busyWork _ = []"

text \<open>The goroutine has left its loops.\<close>

fun leaving :: "'w pc \<Rightarrow> bool" where
  "leaving Exiting = True"
| "leaving Exited = True"
| "leaving _ = False"

definition isDraining :: "'w pc \<Rightarrow> bool" where
  "isDraining pc = (case pc of Draining \<Rightarrow> True | Busy _ drain \<Rightarrow> drain | _ \<Rightarrow> False)"

text \<open>
  The jobs accepted are the jobs processed, the one being processed and the jobs in the buffer, in
  this order. The channel is closed only by a stop, and only under a running goroutine. A goroutine
  that drains has been cancelled, and one that left without being cancelled left a closed and empty
  channel.
\<close>

definition worker_inv :: "('w, 'd) worker \<Rightarrow> bool" where
  "worker_inv w \<longleftrightarrow>
     wk_acked w = wk_processed w @ busyWork (wk_pc w) @ wk_queue w \<and>
     length (wk_queue w) \<le> workChCap \<and>
     (wk_closed w \<longrightarrow> wk_stopped w) \<and>
     (wk_started w \<longleftrightarrow> wk_pc w \<noteq> NotRunning) \<and>
     (wk_closed w \<longrightarrow> wk_started w) \<and>
     (isDraining (wk_pc w) \<longrightarrow> wk_cancelled w) \<and>
     (leaving (wk_pc w) \<and> \<not> wk_cancelled w \<longrightarrow> wk_closed w \<and> wk_queue w = [])"

lemma worker_inv_new [simp]: "worker_inv (newWorker d)"
  by (simp add: worker_inv_def newWorker_def isDraining_def)

lemma newWorker_data [simp]: "wk_data (newWorker d) = d"
  by (simp add: newWorker_def)

lemma worker_inv_gstep: "gstep process w w' \<Longrightarrow> worker_inv w \<Longrightarrow> worker_inv w'"
  by (erule gstep_elim) (auto simp: worker_inv_def isDraining_def)

lemma worker_inv_start: "worker_inv w \<Longrightarrow> worker_inv (startWorker w)"
  by (auto simp: worker_inv_def startWorker_def Let_def isDraining_def)

lemma worker_inv_stop: "worker_inv w \<Longrightarrow> worker_inv (stopWorker w)"
  by (auto simp: worker_inv_def stopWorker_def Let_def)

lemma worker_inv_send:
  assumes "worker_inv w" and "hasRoom w" and "\<not> wk_stopped w"
  shows "worker_inv (send x w)"
proof -
  have "\<not> wk_closed w" using assms(1,3) by (auto simp: worker_inv_def)
  then show ?thesis using assms by (auto simp: worker_inv_def send_def hasRoom_def)
qed

lemma worker_inv_data [simp]: "worker_inv (w\<lparr>wk_data := d\<rparr>) = worker_inv w"
  by (simp add: worker_inv_def)

lemma worker_inv_cancel: "worker_inv w \<Longrightarrow> worker_inv (w\<lparr>wk_cancelled := True\<rparr>)"
  by (auto simp: worker_inv_def)

section \<open>Progress of the goroutine\<close>

text \<open>A bound on the steps the goroutine takes without new jobs.\<close>

fun pcWork :: "'w pc \<Rightarrow> nat" where
  "pcWork (Busy _ drain) = (if drain then 3 else 4)"
| "pcWork Loop = 3"
| "pcWork Draining = 2"
| "pcWork Exiting = 1"
| "pcWork _ = 0"

definition stepsLeft :: "('w, 'd) worker \<Rightarrow> nat" where
  "stepsLeft w = 2 * length (wk_queue w) + pcWork (wk_pc w)"

lemma gstep_decreases: "gstep process w w' \<Longrightarrow> stepsLeft w' < stepsLeft w"
  by (erule gstep_elim) (auto simp: stepsLeft_def)

lemma gstep_enabled:
  assumes "wk_closed w" and "wk_pc w \<noteq> NotRunning" and "wk_pc w \<noteq> Exited"
  shows "\<exists>w'. gstep process w w'"
proof (cases "wk_pc w")
  case Loop
  then show ?thesis using assms(1) by (cases "wk_queue w") (blast intro: gstep.intros)+
next
  case Draining
  then show ?thesis by (cases "wk_queue w") (blast intro: gstep.intros)+
next
  case (Busy x drain)
  then show ?thesis by (blast intro: gstep.finished)
next
  case Exiting
  then show ?thesis by (blast intro: gstep.exit)
qed (use assms in blast)+

text \<open>Under a closed channel the goroutine only moves towards its exit.\<close>

lemma gstep_keeps: "gstep process w w' \<Longrightarrow> wk_closed w' = wk_closed w \<and> wk_acked w' = wk_acked w"
  by (erule gstep_elim) auto

lemma gstep_pc: "gstep process w w' \<Longrightarrow> wk_pc w' \<noteq> NotRunning"
  by (erule gstep_elim) auto

lemma gstep_leaving:
  assumes "gstep process w w'" and "\<not> leaving (wk_pc w) \<or> wk_queue w = []"
  shows "\<not> leaving (wk_pc w') \<or> wk_queue w' = []"
  using assms by (cases rule: gstep.cases) (auto split: if_splits)

text \<open>A goroutine under a closed channel ends, having processed everything it was given.\<close>

lemma goroutine_exits:
  assumes "wk_closed w" and "wk_pc w \<noteq> NotRunning"
  shows "\<exists>w' n. (gstep process ^^ n) w w' \<and> n \<le> stepsLeft w \<and> wk_pc w' = Exited"
  using assms
proof (induction "stepsLeft w" arbitrary: w rule: less_induct)
  case less
  show ?case
  proof (cases "wk_pc w = Exited")
    case True
    then show ?thesis by (intro exI [of _ w] exI [of _ 0]) simp
  next
    case False
    from gstep_enabled [OF less.prems False, of process] obtain v where v: "gstep process w v" by blast
    have "wk_closed v" "wk_pc v \<noteq> NotRunning" using gstep_keeps [OF v] gstep_pc [OF v] less.prems by auto
    from less.hyps [OF gstep_decreases [OF v] this] obtain w' n
      where "(gstep process ^^ n) v w'" "n \<le> stepsLeft v" "wk_pc w' = Exited" by blast
    then show ?thesis using v gstep_decreases [OF v]
      by (intro exI [of _ w'] exI [of _ "Suc n"]) (auto simp del: relpowp.simps intro: relpowp_Suc_I2)
  qed
qed

lemma goroutine_run:
  assumes "(gstep process)\<^sup>*\<^sup>* w w'" and "worker_inv w" and "\<not> leaving (wk_pc w) \<or> wk_queue w = []"
  shows "worker_inv w' \<and> wk_acked w' = wk_acked w \<and> (\<not> leaving (wk_pc w') \<or> wk_queue w' = [])"
  using assms
proof (induction rule: rtranclp_induct)
  case (step v u)
  then have v: "worker_inv v" "wk_acked v = wk_acked w" "\<not> leaving (wk_pc v) \<or> wk_queue v = []" by auto
  show ?case
    using worker_inv_gstep [OF step.hyps(2) v(1)] gstep_keeps [OF step.hyps(2)] gstep_leaving [OF step.hyps(2) v(3)] v(2)
    by simp
qed simp

lemma stuck_exited: "wk_pc w = Exited \<Longrightarrow> \<not> gstep process w w'"
  by (auto elim: gstep_elim)

section \<open>The contract\<close>

text \<open>
  What a worker owes its clients rests on two laws of its own operations: processing keeps the
  invariant of the data, and an enqueue either sends, under the flags, to a buffer with room, and
  reports success, or leaves the worker alone but for the data.
\<close>

locale job_worker =
  fixes process :: "'w \<Rightarrow> 'd \<Rightarrow> 'd"
    and enqueue :: "'w \<Rightarrow> ('w, 'd) worker \<Rightarrow> goerr option \<times> ('w, 'd) worker"
    and invar :: "'d \<Rightarrow> bool"
  assumes process_inv: "invar d \<Longrightarrow> invar (process x d)"
    and enqueue_cases: "enqueue x w = (r, w') \<Longrightarrow>
      (r = None \<and> w' = send x w \<and> hasRoom w \<and> \<not> wk_stopped w \<and> \<not> isDoneClosed w) \<or>
      (\<exists>d'. w' = w\<lparr>wk_data := d'\<rparr> \<and> (invar (wk_data w) \<longrightarrow> invar d'))"
begin

lemma worker_inv_enqueue: "worker_inv w \<Longrightarrow> worker_inv (snd (enqueue x w))"
  using enqueue_cases [of x w "fst (enqueue x w)" "snd (enqueue x w)"] worker_inv_send by fastforce

lemma worker_inv_step: "wstep process enqueue invar w w' \<Longrightarrow> worker_inv w \<Longrightarrow> worker_inv w'"
  by (erule wstep.cases)
    (auto intro: worker_inv_gstep worker_inv_start worker_inv_stop worker_inv_cancel worker_inv_enqueue)

lemma data_gstep: "gstep process w w' \<Longrightarrow> invar (wk_data w) \<Longrightarrow> invar (wk_data w')"
  by (erule gstep_elim) (auto intro: process_inv)

lemma data_enqueue: "invar (wk_data w) \<Longrightarrow> invar (wk_data (snd (enqueue x w)))"
  using enqueue_cases [of x w "fst (enqueue x w)" "snd (enqueue x w)"] by (fastforce simp: send_def)

lemma data_step:
  assumes "wstep process enqueue invar w w'" and d: "invar (wk_data w)"
  shows "invar (wk_data w')"
proof -
  have "wk_data (startWorker w) = wk_data w" "wk_data (stopWorker w) = wk_data w"
    by (simp_all add: startWorker_def stopWorker_def Let_def)
  with assms(1) show ?thesis
    by (cases rule: wstep.cases) (auto intro: data_gstep data_enqueue d)
qed

lemma reachable_inv:
  assumes "reaches process enqueue invar d w"
  shows "worker_inv w" and "invar (wk_data w)"
proof -
  from assms have "(wstep process enqueue invar)\<^sup>*\<^sup>* (newWorker d) w" and d: "invar d" by (simp_all add: reaches_def)
  then have "worker_inv w \<and> invar (wk_data w)"
  proof (induction rule: rtranclp_induct)
    case base
    show ?case using d by simp
  next
    case (step v u)
    then show ?case using worker_inv_step data_step by blast
  qed
  then show "worker_inv w" and "invar (wk_data w)" by auto
qed

text \<open>Accepted jobs are processed in order, once each, and the buffer never overflows.\<close>

lemma fifo:
  assumes "reaches process enqueue invar d w"
  shows "wk_acked w = wk_processed w @ busyWork (wk_pc w) @ wk_queue w" and "length (wk_queue w) \<le> workChCap"
  using reachable_inv(1) [OF assms] by (simp_all add: worker_inv_def)

text \<open>No send meets a closed channel, so none panics.\<close>

lemma no_send_on_closed:
  assumes "reaches process enqueue invar d w" and "enqueue x w = (r, send x w)"
  shows "\<not> wk_closed w"
proof -
  have ne: "send x w \<noteq> w\<lparr>wk_data := d'\<rparr>" for d'
  proof
    assume "send x w = w\<lparr>wk_data := d'\<rparr>"
    then have "wk_queue (send x w) = wk_queue w" by simp
    then show False by (simp add: send_def)
  qed
  show ?thesis
    using enqueue_cases [OF assms(2)] reachable_inv(1) [OF assms(1)] ne by (auto simp: worker_inv_def)
qed

text \<open>After a stop, every run of the goroutine ends, and a run to the end processes every accepted job.\<close>

lemma stop_drains:
  assumes "reaches process enqueue invar d w" and "wk_closed w" and "\<not> leaving (wk_pc w)"
  shows "\<exists>w' n. (gstep process ^^ n) w w' \<and> n \<le> stepsLeft w \<and> wk_pc w' = Exited"
    and "(gstep process)\<^sup>*\<^sup>* w w' \<Longrightarrow> \<nexists>u. gstep process w' u \<Longrightarrow> wk_processed w' = wk_acked w \<and> wk_pc w' = Exited"
proof -
  note winv = reachable_inv(1) [OF assms(1)]
  from winv assms(2) have run: "wk_pc w \<noteq> NotRunning" by (auto simp: worker_inv_def)
  show "\<exists>w' n. (gstep process ^^ n) w w' \<and> n \<le> stepsLeft w \<and> wk_pc w' = Exited"
    by (rule goroutine_exits [OF assms(2) run])
  assume w': "(gstep process)\<^sup>*\<^sup>* w w'" and stuck: "\<nexists>u. gstep process w' u"
  from w' run assms(2) have "wk_pc w' \<noteq> NotRunning \<and> wk_closed w'"
    by (induction rule: rtranclp_induct) (auto dest: gstep_pc gstep_keeps)
  with stuck gstep_enabled [of w' process] have ex: "wk_pc w' = Exited" by blast
  with goroutine_run [OF w' winv] assms(3) show "wk_processed w' = wk_acked w \<and> wk_pc w' = Exited"
    by (auto simp: worker_inv_def)
qed

text \<open>A goroutine that has exited without being cancelled has processed every accepted job.\<close>

lemma exited_processed:
  assumes "reaches process enqueue invar d w" and "wk_pc w = Exited" and "\<not> wk_cancelled w"
  shows "wk_processed w = wk_acked w"
  using reachable_inv(1) [OF assms(1)] assms(2,3) by (simp add: worker_inv_def)

end

end
