(* ===== verification/Affected.thy ===== *)
theory Affected
  imports Compiler
begin

text \<open>
  Which peers a change affects (\<^verbatim>\<open>internal/engine/compiler.go\<close> and
  \<^verbatim>\<open>internal/common/peerids.go\<close>), and the recompilation of every peer affected by a change
  of a group. Lookups go on after an error and report the errors joined at the end.
\<close>

section \<open>Identifiers\<close>

definition MergePeerIDs :: "int list list \<Rightarrow> int list" where
  "MergePeerIDs idSlices = sort (dedup (concat idSlices))"

lemma set_MergePeerIDs [simp]: "set (MergePeerIDs xss) = \<Union> (set ` set xss)"
  by (simp add: MergePeerIDs_def)

lemma sorted_MergePeerIDs: "sorted (MergePeerIDs xss) \<and> distinct (MergePeerIDs xss)"
  by (simp add: MergePeerIDs_def)

text \<open>\<^verbatim>\<open>errors.Join\<close>: nil arguments are dropped, and no argument left means nil.\<close>

definition errorsJoin :: "goerr option list \<Rightarrow> goerr option" where
  "errorsJoin es = (let xs = map the (filter (\<lambda>e. e \<noteq> None) es) in if xs = [] then None else Some (Joined xs))"

lemma errorsJoin_None [simp]: "errorsJoin es = None \<longleftrightarrow> (\<forall>e \<in> set es. e = None)"
  by (simp add: errorsJoin_def Let_def filter_empty_conv)

section \<open>Groups\<close>

definition findPoliciesByGroup :: "database \<Rightarrow> int \<Rightarrow> int list res" where
  "findPoliciesByGroup db groupID =
     wrapE ''find affected policies for group''
       (queryRows db (QPoliciesByGroup groupID)
         (sort (remdups (map pl_id (filter (\<lambda>p. \<not> pl_pending_delete p \<and>
            (pl_source_type p = ''group'' \<and> pl_source_id p = groupID \<or>
             pl_target_type p = ''group'' \<and> pl_target_id p = groupID)) (db_policies db))))))"

definition FindPoliciesByGroup :: "database \<Rightarrow> int \<Rightarrow> int list res" where
  "FindPoliciesByGroup db groupID = findPoliciesByGroup db groupID"

text \<open>The self-join of \<^verbatim>\<open>group_members\<close>: live groups that share a peer with the given one.\<close>

definition relatedGroups :: "database \<Rightarrow> int \<Rightarrow> int list" where
  "relatedGroups db gid =
     sort (remdups (concat (map (\<lambda>gm1.
       map m_group_id (filter (\<lambda>gm2. m_peer_id gm1 = m_peer_id gm2 \<and> m_group_id gm2 \<noteq> m_group_id gm1 \<and>
         liveGroup db (m_group_id gm2)) (db_members db)))
       (filter (\<lambda>gm1. m_group_id gm1 = gid) (db_members db)))))"

lemma relatedGroups_live: "h \<in> set (relatedGroups db g) \<Longrightarrow> h \<in> set (map g_id (db_groups db))"
  by (force simp: relatedGroups_def liveGroup_def list_ex_iff)

text \<open>The groups the walk has still to visit, which bounds it.\<close>

definition walkLeft :: "database \<Rightarrow> int list \<Rightarrow> int list \<Rightarrow> nat" where
  "walkLeft db stack visited = card ((set (map g_id (db_groups db)) \<union> set stack) - set visited)"

lemma walkLeft_visit:
  "gid \<notin> set visited \<Longrightarrow> set new \<subseteq> set (map g_id (db_groups db)) \<Longrightarrow>
     walkLeft db (new @ rest) (visited @ [gid]) < walkLeft db (gid # rest) visited"
  unfolding walkLeft_def by (rule psubset_card_mono) auto

lemma walkLeft_skip: "walkLeft db rest visited \<le> walkLeft db (gid # rest) visited"
  unfolding walkLeft_def by (rule card_mono) auto

text \<open>
  The recursive \<^verbatim>\<open>walk\<close>: the pending calls are a stack, the slice \<^verbatim>\<open>result\<close> and the set
  \<^verbatim>\<open>visited\<close> have the same elements and are one list. A failing query stops at that group.
\<close>

function walk :: "database \<Rightarrow> int list \<Rightarrow> int list \<Rightarrow> goerr option \<Rightarrow> int list \<times> goerr option" where
  "walk db [] visited walkErr = (visited, walkErr)"
| "walk db (gid # rest) visited walkErr =
     (if gid \<in> set visited then walk db rest visited walkErr
      else case queryRows db (QRelatedGroups gid) (relatedGroups db gid) of
        Inl e \<Rightarrow> walk db rest (visited @ [gid]) (errorsJoin [walkErr, Some (Wrap ''transitive groups for group'' [e])])
      | Inr related \<Rightarrow> walk db (related @ rest) (visited @ [gid]) walkErr)"
  by pat_completeness auto

termination
proof (relation "(\<lambda>(db, stack, visited, e). walkLeft db stack visited) <*mlex*> measure (\<lambda>(db, stack, visited, e). length stack)",
    goal_cases)
  case 1
  show ?case by (simp add: wf_mlex)
next
  case (2 db gid rest visited walkErr)
  then show ?case using walkLeft_skip by (auto simp: mlex_prod_def le_less)
next
  case (3 db gid rest visited walkErr e)
  then show ?case using walkLeft_visit [of gid visited "[]" db rest] by (simp add: mlex_less)
next
  case (4 db gid rest visited walkErr related)
  then have "set related \<subseteq> set (map g_id (db_groups db))"
    using relatedGroups_live [of _ db gid] by (auto simp: queryRows_Inr)
  with 4 show ?case by (simp add: mlex_less walkLeft_visit)
qed

definition collectTransitiveGroupIDs :: "database \<Rightarrow> int \<Rightarrow> int list \<times> goerr option" where
  "collectTransitiveGroupIDs db groupID = walk db [groupID] [] None"

section \<open>Peers of a policy\<close>

definition peerExists :: "database \<Rightarrow> int \<Rightarrow> bool res" where
  "peerExists db peerID =
     (case queryRow db (QPeerExists peerID) (filter (\<lambda>i. i = peerID) (map p_id (db_peers db))) of
        Inl e \<Rightarrow> if errIs e ErrNoRows then Inr False else Inl (Wrap ''verify peer'' [e])
      | Inr _ \<Rightarrow> Inr True)"

definition groupExists :: "database \<Rightarrow> int \<Rightarrow> bool res" where
  "groupExists db groupID =
     (case queryRow db (QGroupExists groupID)
             (filter (\<lambda>g. g_id g = groupID \<and> \<not> g_pending_delete g) (db_groups db)) of
        Inl e \<Rightarrow> if errIs e ErrNoRows then Inr False else Inl (Wrap ''verify group'' [e])
      | Inr _ \<Rightarrow> Inr True)"

definition queryPeerIDs :: "database \<Rightarrow> query \<Rightarrow> string \<Rightarrow> int list \<Rightarrow> int list res" where
  "queryPeerIDs db q errLabel ids = wrapE errLabel (queryRows db q ids)"

definition groupMemberPeers :: "database \<Rightarrow> int \<Rightarrow> int list res" where
  "groupMemberPeers db groupID =
     queryPeerIDs db (QGroupMemberPeers groupID) ''query group members'' (remdups (map p_id (groupMemberRows db groupID)))"

text \<open>One end of the policy: the source and the target are treated alike.\<close>

definition endPeers :: "database \<Rightarrow> string \<Rightarrow> int \<Rightarrow> int list list res" where
  "endPeers db entityType i =
     (if entityType = ''peer'' then
        bindE (wrapE ''verify peer for policy'' (peerExists db i)) (\<lambda>exists.
          if \<not> exists then Inl (Wrap ''peer for policy'' [Sentinel ErrNoRows]) else Inr [[i]])
      else if entityType = ''group'' then
        bindE (wrapE ''verify group for policy'' (groupExists db i)) (\<lambda>exists.
          if \<not> exists then Inl (Wrap ''group for policy'' [Sentinel ErrNoRows])
          else bindE (wrapE ''group members for policy'' (groupMemberPeers db i)) (\<lambda>members. Inr [members]))
      else Inr [])"

definition GetAffectedPeersByPolicy :: "database \<Rightarrow> int \<Rightarrow> int list res" where
  "GetAffectedPeersByPolicy db policyID =
     bindE (wrapE ''get policy abstract''
             (queryRow db (QPolicyEnds policyID)
               (filter (\<lambda>p. pl_id p = policyID \<and> \<not> pl_pending_delete p) (db_policies db)))) (\<lambda>p.
     bindE (endPeers db (pl_source_type p) (pl_source_id p)) (\<lambda>src.
     bindE (endPeers db (pl_target_type p) (pl_target_id p)) (\<lambda>tgt.
     bindE (if pl_source_type p = ''special'' \<and> pl_source_id p = SpecialIDAllPeers \<or>
               pl_target_type p = ''special'' \<and> pl_target_id p = SpecialIDAllPeers
            then bindE (wrapE ''query all peers for policy''
                   (queryPeerIDs db QAllPeerIDs ''query all peers for policy'' (sort (map p_id (db_peers db)))))
                   (\<lambda>allPeers. Inr [allPeers])
            else Inr []) (\<lambda>allp.
       Inr (MergePeerIDs (src @ tgt @ allp))))))"

definition GetAffectedPeersByPolicies :: "database \<Rightarrow> int list \<Rightarrow> (int \<times> int list) list \<times> goerr option" where
  "GetAffectedPeersByPolicies db policyIDs =
     (let results = map (\<lambda>pid. (pid, GetAffectedPeersByPolicy db pid)) (dedup policyIDs) in
      (concat (map (\<lambda>(pid, r). case r of Inl _ \<Rightarrow> [] | Inr peers \<Rightarrow> [(pid, peers)]) results),
       errorsJoin (map (\<lambda>(pid, r). case r of Inl e \<Rightarrow> Some (Wrap ''policy'' [e]) | Inr _ \<Rightarrow> None) results)))"

section \<open>Recompilation\<close>

text \<open>
  The compile loop. Each compilation reads the clock; \<open>now\<close> gives the time at which each peer is
  compiled. The loop stops at the first failure.
\<close>

fun compileEach :: "crypto \<Rightarrow> (int \<Rightarrow> string) \<Rightarrow> int list \<Rightarrow> database \<Rightarrow> database \<times> goerr option" where
  "compileEach C now [] db = (db, None)"
| "compileEach C now (peerID # peers) db =
     (case CompileAndStore C db (now peerID) peerID of
        Inl e \<Rightarrow> (db, Some (Wrap ''recompile peer'' [e]))
      | Inr (db', _) \<Rightarrow> compileEach C now peers db')"

definition groupPolicies :: "database \<Rightarrow> goerr option \<Rightarrow> int list \<Rightarrow> int list \<times> goerr option" where
  "groupPolicies db groupErr gids =
     (let results = map (findPoliciesByGroup db) gids in
      (dedup (concat (map (\<lambda>r. case r of Inl _ \<Rightarrow> [] | Inr pids \<Rightarrow> pids) results)),
       foldl (\<lambda>err r. case r of Inl e \<Rightarrow> errorsJoin [err, Some (Wrap ''group'' [e])] | Inr _ \<Rightarrow> err) groupErr results))"

definition RecompileAffectedPeers :: "crypto \<Rightarrow> (int \<Rightarrow> string) \<Rightarrow> database \<Rightarrow> int \<Rightarrow> database \<times> goerr option" where
  "RecompileAffectedPeers C now db groupID =
     (let (allGroupIDs, transErr) = collectTransitiveGroupIDs db groupID;
          (allPolicyIDs, groupErr) =
            groupPolicies db (if transErr \<noteq> None then errorsJoin [None, transErr] else None) allGroupIDs
      in
      if allPolicyIDs \<noteq> [] then
        (let (affectedByPolicy, resolveErr) = GetAffectedPeersByPolicies db allPolicyIDs;
             sortedPeerIDs = MergePeerIDs (map snd affectedByPolicy)
         in
         if resolveErr \<noteq> None \<and> sortedPeerIDs = []
         then (db, Some (Wrap ''get affected peers for recompile'' [the (errorsJoin [groupErr, resolveErr])]))
         else
           (case compileEach C now sortedPeerIDs db of
              (db', Some compileErr) \<Rightarrow>
                (db', (case errorsJoin [groupErr, resolveErr] of
                         None \<Rightarrow> Some compileErr
                       | Some joined \<Rightarrow> errorsJoin [Some joined, Some compileErr]))
            | (db', None) \<Rightarrow>
                (db', (case errorsJoin [groupErr, resolveErr] of
                         None \<Rightarrow> None
                       | Some joined \<Rightarrow>
                           if resolveErr \<noteq> None then Some (Wrap ''get affected peers for recompile'' [joined])
                           else Some (Wrap ''find policies for recompile'' [joined])))))
      else
        (db, (case groupErr of None \<Rightarrow> None | Some e \<Rightarrow> Some (Wrap ''find policies for recompile'' [e]))))"

section \<open>The walk is reachability\<close>

definition relatedRel :: "database \<Rightarrow> (int \<times> int) set" where
  "relatedRel db = {(g, h). h \<in> set (relatedGroups db g)}"

text \<open>The groups related to a given one, directly or through others.\<close>

definition relatedClosure :: "database \<Rightarrow> int \<Rightarrow> int set" where
  "relatedClosure db g = (relatedRel db)\<^sup>* `` {g}"

text \<open>
  The invariant of the walk: what was visited has its neighbours visited or on the stack, unless
  an error was recorded.
\<close>

definition walkInv :: "database \<Rightarrow> int list \<Rightarrow> int list \<Rightarrow> bool" where
  "walkInv db stack visited = (\<forall>g \<in> set visited. \<forall>h \<in> set (relatedGroups db g). h \<in> set visited \<union> set stack)"

lemma walk_error: "walk db stack visited (Some e) = (ids, err) \<Longrightarrow> err \<noteq> None"
proof (induction db stack visited "Some e" arbitrary: e rule: walk.induct)
  case (2 db gid rest visited)
  then show ?case
    by (auto simp: errorsJoin_def queryRows_def split: if_splits)
qed auto

lemma walk_distinct: "walk db stack visited e = (ids, err) \<Longrightarrow> distinct visited \<Longrightarrow> distinct ids \<and> set visited \<subseteq> set ids"
  by (induction db stack visited e rule: walk.induct) (auto simp: queryRows_def split: if_splits)

lemma walk_sound:
  "walk db stack visited e = (ids, err) \<Longrightarrow> set stack \<union> set visited \<subseteq> S \<Longrightarrow> relatedRel db `` S \<subseteq> S \<Longrightarrow> set ids \<subseteq> S"
proof (induction db stack visited e rule: walk.induct)
  case (2 db gid rest visited walkErr)
  moreover have "set (relatedGroups db gid) \<subseteq> S"
    using 2 by (auto simp: relatedRel_def)
  ultimately show ?case by (auto simp: queryRows_def split: if_splits)
qed simp

lemma walk_complete:
  "walk db stack visited None = (ids, None) \<Longrightarrow> walkInv db stack visited \<Longrightarrow> walkInv db [] ids \<and> set stack \<union> set visited \<subseteq> set ids"
proof (induction db stack visited "None :: goerr option" rule: walk.induct)
  case (2 db gid rest visited)
  show ?case
  proof (cases "gid \<in> set visited")
    case True
    have inv: "walkInv db rest visited" using 2(5) True by (auto simp: walkInv_def)
    have w: "walk db rest visited None = (ids, None)" using 2(4) True by simp
    from 2(1) [OF True w inv] True show ?thesis by auto
  next
    case False
    have up: "\<not> db_fails db (QRelatedGroups gid)"
    proof
      assume "db_fails db (QRelatedGroups gid)"
      then obtain e where "walk db rest (visited @ [gid]) (Some e) = (ids, None)"
        using 2(4) False by (auto simp: queryRows_def errorsJoin_def)
      then show False using walk_error by blast
    qed
    then have up: "queryRows db (QRelatedGroups gid) (relatedGroups db gid) = Inr (relatedGroups db gid)"
      by (simp add: queryRows_def)
    with 2(4) False have w: "walk db (relatedGroups db gid @ rest) (visited @ [gid]) None = (ids, None)"
      by simp
    have "walkInv db (relatedGroups db gid @ rest) (visited @ [gid])"
      using 2(5) by (auto simp: walkInv_def)
    with 2(3) [OF False up w] show ?thesis by auto
  qed
qed simp

lemma relatedClosure_closed: "relatedRel db `` relatedClosure db g \<subseteq> relatedClosure db g"
  by (auto simp: relatedClosure_def intro: rtrancl_into_rtrancl)

lemma walkInv_closure: "walkInv db [] ids \<Longrightarrow> g \<in> set ids \<Longrightarrow> relatedClosure db g \<subseteq> set ids"
proof
  fix h
  assume inv: "walkInv db [] ids" and g: "g \<in> set ids" and "h \<in> relatedClosure db g"
  then have "(g, h) \<in> (relatedRel db)\<^sup>*" by (simp add: relatedClosure_def)
  then show "h \<in> set ids"
    by (induction rule: rtrancl_induct) (use inv g in \<open>auto simp: walkInv_def relatedRel_def\<close>)
qed

lemma collectTransitive_closure:
  assumes "collectTransitiveGroupIDs db g = (ids, err)"
  shows "distinct ids \<and> set ids \<subseteq> relatedClosure db g \<and> (err = None \<longrightarrow> set ids = relatedClosure db g)"
proof -
  have w: "walk db [g] [] None = (ids, err)" using assms by (simp add: collectTransitiveGroupIDs_def)
  have sound: "set ids \<subseteq> relatedClosure db g"
    by (rule walk_sound [OF w]) (auto simp: relatedClosure_closed, simp add: relatedClosure_def)
  have "relatedClosure db g \<subseteq> set ids" if "err = None"
  proof -
    have inv: "walkInv db [g] []" by (simp add: walkInv_def)
    have "walkInv db [] ids \<and> set [g] \<union> set [] \<subseteq> set ids"
      using walk_complete [OF _ inv] w that by blast
    then show ?thesis by (simp add: walkInv_closure)
  qed
  with sound walk_distinct [OF w] show ?thesis by auto
qed

text \<open>
  C26 (TRANSITIVE): the groups collected for a change are, without duplicates, groups reachable through
  shared members; and when no error is reported they are all of them, so a missing group is never
  silent.
\<close>

theorem collectTransitiveGroupIDs_reachable:
  assumes "collectTransitiveGroupIDs db g = (ids, err)"
  shows "distinct ids \<and> set ids \<subseteq> relatedClosure db g \<and> (err = None \<longrightarrow> set ids = relatedClosure db g)"
  using assms by (rule collectTransitive_closure)

theorem collectTransitiveGroupIDs_reachable_witness: "distinct [1 :: int] \<and> set [1] \<subseteq> relatedClosure exDB 1"
proof -
  have "collectTransitiveGroupIDs exDB 1 = ([1], None)" by code_simp
  from collectTransitiveGroupIDs_reachable [OF this] show ?thesis by blast
qed

section \<open>Affected peers\<close>

lemma endPeers_member:
  assumes "endPeers db t i = Inr xss" "peer \<in> set (map p_id (db_peers db))"
    and "t = ''peer'' \<and> i = peer \<or> t = ''group'' \<and> inGroup db i peer"
  shows "peer \<in> \<Union> (set ` set xss)"
  using assms
  by (auto simp: endPeers_def bindE_eq_Inr groupMemberPeers_def queryPeerIDs_def queryRows_Inr groupMemberRows_iff
      split: if_splits)

lemma GetAffectedPeersByPolicy_applicable:
  assumes "GetAffectedPeersByPolicy db (pl_id row) = Inr ids" "wf_db db" "row \<in> set (db_policies db)"
    and "applicableCol db peer row" "peer \<in> set (map p_id (db_peers db))"
  shows "peer \<in> set ids"
proof -
  from assms(1) obtain p src tgt allp where
    p: "p \<in> set (db_policies db)" "pl_id p = pl_id row" and
    s: "endPeers db (pl_source_type p) (pl_source_id p) = Inr src" and
    t: "endPeers db (pl_target_type p) (pl_target_id p) = Inr tgt" and ids: "ids = MergePeerIDs (src @ tgt @ allp)"
    by (auto simp: GetAffectedPeersByPolicy_def bindE_eq_Inr queryRow_Inr dest!: filter_head)
  have "p = row" using p assms(2,3) by (auto simp: wf_db_def dest: distinct_map_unique)
  with assms(4) have "(pl_source_type p = ''peer'' \<and> pl_source_id p = peer \<or> pl_source_type p = ''group'' \<and> inGroup db (pl_source_id p) peer) \<or>
      (pl_target_type p = ''peer'' \<and> pl_target_id p = peer \<or> pl_target_type p = ''group'' \<and> inGroup db (pl_target_id p) peer)"
    by (auto simp: applicableCol_def)
  then show ?thesis
    using endPeers_member [OF s assms(5)] endPeers_member [OF t assms(5)] by (auto simp: ids)
qed

text \<open>
  C23 (AFFECTED): the peers reported for a changed policy are sorted, without duplicates, and include
  every peer whose bundle the policy takes part in: no peer the compiler would load the policy
  for is left without a pending signal.
\<close>

theorem GetAffectedPeersByPolicy_superset:
  assumes "GetAffectedPeersByPolicy db (pol_ID pol) = Inr ids" and "wf_db db"
    and "pol \<in> set (applicablePolicies db peer)" and "peer \<in> set (map p_id (db_peers db))"
  shows "peer \<in> set ids \<and> sorted ids \<and> distinct ids"
proof -
  from assms(3) obtain row where row: "row \<in> set (db_policies db)" "applicableCol db peer row" "pol_ID pol = pl_id row"
    by (auto simp: applicablePolicies_def scanPolicy_def)
  from assms(1) have "sorted ids \<and> distinct ids"
    using sorted_MergePeerIDs by (auto simp: GetAffectedPeersByPolicy_def bindE_eq_Inr)
  with GetAffectedPeersByPolicy_applicable [OF assms(1) [unfolded row(3)] assms(2) row(1,2) assms(4)]
  show ?thesis by simp
qed

theorem GetAffectedPeersByPolicy_superset_witness:
  "(2 :: int) \<in> set [1, 2] \<and> sorted [1, 2 :: int] \<and> distinct [1, 2 :: int]"
proof (rule GetAffectedPeersByPolicy_superset [where db = exDB])
  show "GetAffectedPeersByPolicy exDB (pol_ID (scanPolicy exDB 2 exPolicy)) = Inr [1, 2]" by code_simp
  show "wf_db exDB" by code_simp
  show "scanPolicy exDB 2 exPolicy \<in> set (applicablePolicies exDB 2)" by code_simp
  show "2 \<in> set (map p_id (db_peers exDB))" by code_simp
qed

section \<open>Recompiling is complete\<close>

definition groupPolicyIDs :: "database \<Rightarrow> int \<Rightarrow> int set" where
  "groupPolicyIDs db h = {pl_id p | p. p \<in> set (db_policies db) \<and> \<not> pl_pending_delete p \<and>
     (pl_source_type p = ''group'' \<and> pl_source_id p = h \<or> pl_target_type p = ''group'' \<and> pl_target_id p = h)}"

text \<open>The peers to recompile after a change of group \<open>g\<close>, as a set.\<close>

definition recompileSet :: "database \<Rightarrow> int \<Rightarrow> int set" where
  "recompileSet db g =
     {peer. \<exists>h pid ids. h \<in> relatedClosure db g \<and> pid \<in> groupPolicyIDs db h \<and>
        GetAffectedPeersByPolicy db pid = Inr ids \<and> peer \<in> set ids}"

lemma findPoliciesByGroup_Inr: "findPoliciesByGroup db h = Inr pids \<Longrightarrow> set pids = groupPolicyIDs db h"
  by (auto simp: findPoliciesByGroup_def queryRows_Inr groupPolicyIDs_def)

lemma foldl_join_None:
  "foldl (\<lambda>err r. case r of Inl e \<Rightarrow> errorsJoin [err, Some (Wrap w [e])] | Inr _ \<Rightarrow> err) err rs = None \<longleftrightarrow>
     err = None \<and> (\<forall>r \<in> set rs. \<exists>x. r = Inr x)"
  by (induction rs arbitrary: err) (auto split: sum.splits)

lemma groupPolicies_None:
  assumes "groupPolicies db e gids = (pids, None)"
  shows "e = None \<and> set pids = (\<Union>h \<in> set gids. groupPolicyIDs db h)"
proof -
  from assms have e: "e = None" and ok: "\<forall>h \<in> set gids. \<exists>ps. findPoliciesByGroup db h = Inr ps"
    by (auto simp: groupPolicies_def Let_def foldl_join_None)
  have "set (case findPoliciesByGroup db h of Inl _ \<Rightarrow> [] | Inr ps \<Rightarrow> ps) = groupPolicyIDs db h" if "h \<in> set gids" for h
    using ok that findPoliciesByGroup_Inr by fastforce
  with assms e show ?thesis by (auto simp: groupPolicies_def Let_def)
qed

lemma GetAffectedPeersByPolicies_None:
  assumes "GetAffectedPeersByPolicies db pids = (m, None)"
  shows "\<Union> (set ` set (map snd m)) =
    {peer. \<exists>pid ids. pid \<in> set pids \<and> GetAffectedPeersByPolicy db pid = Inr ids \<and> peer \<in> set ids}"
  using assms by (force simp: GetAffectedPeersByPolicies_def Let_def split: sum.splits)

lemma compileEach_None:
  "compileEach C now peers db = (db', None) \<Longrightarrow>
    \<exists>rows. db' = db\<lparr>db_bundles := db_bundles db @ rows\<rparr> \<and> map b_peer_id rows = peers \<and>
      (\<forall>r \<in> set rows. Compile db (now (b_peer_id r)) (b_peer_id r) = Inr (b_rules_content r))"
proof (induction C now peers db arbitrary: db' rule: compileEach.induct)
  case (1 C now db)
  then show ?case by (intro exI [of _ "[]"]) simp
next
  case (2 C now peerID peers db)
  then obtain db1 row where c: "CompileAndStore C db (now peerID) peerID = Inr (db1, row)"
    and rest: "compileEach C now peers db1 = (db', None)"
    by (auto split: sum.splits prod.splits)
  note row = CompileAndStore_Inr [OF c]
  from 2(1) [OF c refl rest] obtain rows where
    "db' = db1\<lparr>db_bundles := db_bundles db1 @ rows\<rparr>" "map b_peer_id rows = peers"
    "\<forall>r \<in> set rows. Compile db1 (now (b_peer_id r)) (b_peer_id r) = Inr (b_rules_content r)"
    by blast
  with row show ?case by (intro exI [of _ "row # rows"]) auto
qed

text \<open>
  C25 (RECOMPILE): when recompiling after a change of a group reports no error, it has appended one
  bundle, compiled from the current policies, for exactly the peers affected by a policy of a
  group reachable from the changed one; in ascending order, each once, and nothing else changed.
\<close>

theorem RecompileAffectedPeers_complete:
  assumes "RecompileAffectedPeers C now db g = (db', None)"
  shows "\<exists>rows. db' = db\<lparr>db_bundles := db_bundles db @ rows\<rparr> \<and> set (map b_peer_id rows) = recompileSet db g \<and>
    sorted (map b_peer_id rows) \<and> distinct (map b_peer_id rows) \<and>
    (\<forall>r \<in> set rows. Compile db (now (b_peer_id r)) (b_peer_id r) = Inr (b_rules_content r))"
proof -
  obtain gids terr pids gerr where t: "collectTransitiveGroupIDs db g = (gids, terr)"
    and p: "groupPolicies db (if terr \<noteq> None then errorsJoin [None, terr] else None) gids = (pids, gerr)"
    by (metis surj_pair)
  from assms t p have "gerr = None"
    by (auto simp: RecompileAffectedPeers_def Let_def errorsJoin_def
        split: if_splits prod.splits option.splits)
  with p have terr: "terr = None" and pids: "set pids = (\<Union>h \<in> set gids. groupPolicyIDs db h)"
    using groupPolicies_None [of db "if terr \<noteq> None then errorsJoin [None, terr] else None" gids pids]
    by (auto split: if_splits)
  have gids: "set gids = relatedClosure db g" using collectTransitive_closure [OF t] terr by simp
  show ?thesis
  proof (cases "pids = []")
    case True
    with pids gids have "recompileSet db g = {}" by (auto simp: recompileSet_def)
    with True assms t p \<open>gerr = None\<close> show ?thesis
      by (intro exI [of _ "[]"]) (auto simp: RecompileAffectedPeers_def Let_def)
  next
    case False
    obtain m rerr where a: "GetAffectedPeersByPolicies db pids = (m, rerr)" by (metis surj_pair)
    from assms t p a False \<open>gerr = None\<close> have rerr: "rerr = None"
      and c: "compileEach C now (MergePeerIDs (map snd m)) db = (db', None)"
      by (auto simp: RecompileAffectedPeers_def Let_def errorsJoin_def
          split: if_splits prod.splits option.splits)
    have "set (MergePeerIDs (map snd m)) = recompileSet db g"
      using GetAffectedPeersByPolicies_None [OF a [unfolded rerr]] pids gids
      by (auto simp: recompileSet_def)
    with compileEach_None [OF c] sorted_MergePeerIDs [of "map snd m"] show ?thesis by metis
  qed
qed

theorem RecompileAffectedPeers_complete_witness:
  "\<exists>db' rows. RecompileAffectedPeers exCrypto (\<lambda>_. ''now'') exGroupDB 1 = (db', None) \<and>
     map b_peer_id (db_bundles db') = [1, 2] \<and> set (map b_peer_id rows) = recompileSet exGroupDB 1 \<and>
     db' = exGroupDB\<lparr>db_bundles := db_bundles exGroupDB @ rows\<rparr>"
proof -
  have "snd (RecompileAffectedPeers exCrypto (\<lambda>_. ''now'') exGroupDB 1) = None \<and>
      map b_peer_id (db_bundles (fst (RecompileAffectedPeers exCrypto (\<lambda>_. ''now'') exGroupDB 1))) = [1, 2]"
    by code_simp
  then obtain db' where r: "RecompileAffectedPeers exCrypto (\<lambda>_. ''now'') exGroupDB 1 = (db', None)"
    and b: "map b_peer_id (db_bundles db') = [1, 2]"
    by (metis prod.collapse)
  from RecompileAffectedPeers_complete [OF r] obtain rows where
    "db' = exGroupDB\<lparr>db_bundles := db_bundles exGroupDB @ rows\<rparr>" "set (map b_peer_id rows) = recompileSet exGroupDB 1"
    by auto
  with r b show ?thesis by (intro exI conjI)
qed

end
