(* ===== verification/Change_Worker.thy ===== *)
theory Change_Worker
  imports Worker Pending Affected
begin

text \<open>
  The change worker (\<^verbatim>\<open>internal/change/change_worker.go\<close>): it turns edits of policies and
  groups into pending changes of the affected peers, in the background where it can and at once
  where it cannot. The SSE hub is modelled by the list of notifications sent to it; a worker or a
  compiler that is nil and a zero-value worker are not modelled.
\<close>

section \<open>State\<close>

datatype sseEvent = PendingChangeAdded string int | FrontendPendingChangeAdded int

record changeState =
  ch_db :: database
  ch_hub :: bool
  ch_events :: "sseEvent list"

record changeWork =
  cw_peerIDs :: "int list"
  cw_changeType :: string
  cw_changeAction :: string
  cw_changeID :: int
  cw_summary :: string
  cw_isGroup :: bool
  cw_groupID :: int

section \<open>Notifications\<close>

definition notifyBatchSize :: nat where
  "notifyBatchSize = 500"

fun batchesOf :: "'a list \<Rightarrow> 'a list list" where
  "batchesOf [] = []"
| "batchesOf (x # xs) = take notifyBatchSize (x # xs) # batchesOf (drop (notifyBatchSize - 1) xs)"

definition batchRows :: "database \<Rightarrow> int list \<Rightarrow> peer_row list" where
  "batchRows db batch = filter (\<lambda>p. p_id p \<in> set batch) (db_peers db)"

definition addHostname :: "(int \<rightharpoonup> string) \<Rightarrow> peer_row \<Rightarrow> (int \<rightharpoonup> string)" where
  "addHostname m p = (if p_hostname p \<noteq> [] then m(p_id p \<mapsto> p_hostname p) else m)"

definition hostnameMap :: "database \<Rightarrow> int list list \<Rightarrow> (int \<rightharpoonup> string)" where
  "hostnameMap db batches = foldl addHostname Map.empty (concat (map (batchRows db) batches))"

definition peerEvents :: "(int \<rightharpoonup> string) \<Rightarrow> int \<Rightarrow> sseEvent list" where
  "peerEvents m peerID =
     (case m peerID of
        None \<Rightarrow> []
      | Some hostname \<Rightarrow> [PendingChangeAdded (''host-'' @ hostname) peerID, FrontendPendingChangeAdded peerID])"

definition notifyPeers :: "int list \<Rightarrow> changeState \<Rightarrow> goerr option \<times> changeState" where
  "notifyPeers peerIDs s =
     (if \<not> ch_hub s then (Some (Leaf ''notify peers: SSE hub is nil''), s)
      else if peerIDs = [] then (None, s)
      else if db_fails (ch_db s) QNotifyHostnames then (Some (Wrap ''query peer hostnames for notify'' [Leaf ''database error'']), s)
      else (None, s\<lparr>ch_events := ch_events s @ concat (map (peerEvents (hostnameMap (ch_db s) (batchesOf peerIDs))) peerIDs)\<rparr>))"

section \<open>Processing\<close>

definition queueChangeForPeer :: "int \<Rightarrow> string \<Rightarrow> string \<Rightarrow> int \<Rightarrow> string \<Rightarrow> (unit, database) step" where
  "queueChangeForPeer peerID changeType changeAction changeID summary =
     wrapS ''failed to queue pending change'' (AddPendingChange peerID changeType changeAction changeID summary)"

text \<open>The insert loop: the joined errors and the peers for which it succeeded.\<close>

fun queueEach :: "string \<Rightarrow> string \<Rightarrow> int \<Rightarrow> string \<Rightarrow> int list \<Rightarrow> goerr option \<Rightarrow> int list \<Rightarrow> database \<Rightarrow>
    goerr option \<times> int list \<times> database" where
  "queueEach changeType changeAction changeID summary [] errs succeeded db = (errs, succeeded, db)"
| "queueEach changeType changeAction changeID summary (peerID # peerIDs) errs succeeded db =
     (case queueChangeForPeer peerID changeType changeAction changeID summary db of
        (Inl e, db') \<Rightarrow>
          queueEach changeType changeAction changeID summary peerIDs (errorsJoin [errs, Some (Wrap ''peer'' [e])]) succeeded db'
      | (Inr _, db') \<Rightarrow> queueEach changeType changeAction changeID summary peerIDs errs (succeeded @ [peerID]) db')"

definition notifySucceeded :: "int list \<Rightarrow> changeState \<Rightarrow> changeState" where
  "notifySucceeded succeeded s = (if ch_hub s \<and> succeeded \<noteq> [] then snd (notifyPeers succeeded s) else s)"

definition processPeerChange :: "changeWork \<Rightarrow> changeState \<Rightarrow> goerr option \<times> changeState" where
  "processPeerChange work s =
     (case queueEach (cw_changeType work) (cw_changeAction work) (cw_changeID work) (cw_summary work)
             (cw_peerIDs work) None [] (ch_db s) of
        (errs, succeeded, db') \<Rightarrow> (errs, notifySucceeded succeeded (s\<lparr>ch_db := db'\<rparr>)))"

definition groupFound :: "database \<Rightarrow> int \<Rightarrow> int res" where
  "groupFound db groupID = queryRow db (QGroupExistsAny groupID) (filter (\<lambda>i. i = groupID) (map g_id (db_groups db)))"

text \<open>The errors reported after the inserts.\<close>

definition groupErrors :: "goerr option \<Rightarrow> goerr option \<Rightarrow> goerr option" where
  "groupErrors insertErrs resolveErr =
     (case (insertErrs, resolveErr) of
        (Some i, Some r) \<Rightarrow> errorsJoin [Some (Wrap ''queue group change'' [i]), Some (Wrap ''get affected peers for group'' [r])]
      | (Some i, None) \<Rightarrow> Some (Wrap ''queue group change'' [i])
      | (None, Some r) \<Rightarrow> Some (Wrap ''get affected peers for group'' [r])
      | (None, None) \<Rightarrow> None)"

definition processGroupChange :: "changeWork \<Rightarrow> changeState \<Rightarrow> goerr option \<times> changeState" where
  "processGroupChange work s =
     (let db = ch_db s in
      case groupFound db (cw_groupID work) of
        Inl e \<Rightarrow>
          (Some (if errIs e ErrNoRows then Wrap ''group not found for group change, dropping change'' [Sentinel ErrNoRows]
                 else Wrap ''verify group for group change'' [e]), s)
      | Inr _ \<Rightarrow>
          (case FindPoliciesByGroup db (cw_groupID work) of
             Inl e \<Rightarrow> (Some (Wrap ''find policies for group'' [e]), s)
           | Inr policyIDs \<Rightarrow>
               (let (affectedByPolicy, resolveErr) =
                      (if policyIDs \<noteq> [] then GetAffectedPeersByPolicies db policyIDs else ([], None));
                    peerIDs = MergePeerIDs (map snd affectedByPolicy)
                in
                if policyIDs \<noteq> [] \<and> peerIDs = [] \<and> resolveErr \<noteq> None
                then (Some (Wrap ''no peers resolved for group, dropping change'' [the resolveErr]), s)
                else
                  (case queueEach ''group'' (cw_changeAction work) (cw_groupID work) (cw_summary work) peerIDs None [] db of
                     (insertErrs, succeeded, db') \<Rightarrow>
                       (groupErrors insertErrs resolveErr, notifySucceeded succeeded (s\<lparr>ch_db := db'\<rparr>))))))"

definition processChange :: "changeWork \<Rightarrow> changeState \<Rightarrow> goerr option \<times> changeState" where
  "processChange work s = (if cw_isGroup work then processGroupChange work s else processPeerChange work s)"

text \<open>The worker logs an error and goes on.\<close>

definition processWork :: "changeWork \<Rightarrow> changeState \<Rightarrow> changeState" where
  "processWork work s = snd (processChange work s)"

section \<open>Queueing\<close>

type_synonym changeWorker = "(changeWork, changeState) worker"

definition processSync :: "changeWork \<Rightarrow> changeWorker \<Rightarrow> goerr option \<times> changeWorker" where
  "processSync work w = (case processChange work (wk_data w) of (r, d) \<Rightarrow> (r, w\<lparr>wk_data := d\<rparr>))"

text \<open>The part that \<^verbatim>\<open>QueuePeerChange\<close> and \<^verbatim>\<open>QueueGroupChange\<close> have in common.\<close>

definition queueWork :: "changeWork \<Rightarrow> changeWorker \<Rightarrow> goerr option \<times> changeWorker" where
  "queueWork work w =
     (if wk_stopped w then processSync work w
      else if \<not> wk_started w then processSync work w
      else if isDoneClosed w then processSync work w
      else if hasRoom w then (None, send work w)
      else processSync work w)"

definition QueuePeerChange :: "int list \<Rightarrow> string \<Rightarrow> string \<Rightarrow> int \<Rightarrow> string \<Rightarrow> changeWorker \<Rightarrow> goerr option \<times> changeWorker" where
  "QueuePeerChange peerIDs changeType changeAction changeID summary =
     queueWork \<lparr>cw_peerIDs = peerIDs, cw_changeType = changeType, cw_changeAction = changeAction, cw_changeID = changeID,
       cw_summary = summary, cw_isGroup = False, cw_groupID = 0\<rparr>"

definition QueueGroupChange :: "int \<Rightarrow> string \<Rightarrow> string \<Rightarrow> changeWorker \<Rightarrow> goerr option \<times> changeWorker" where
  "QueueGroupChange groupID changeAction summary =
     queueWork \<lparr>cw_peerIDs = [], cw_changeType = [], cw_changeAction = changeAction, cw_changeID = 0,
       cw_summary = summary, cw_isGroup = True, cw_groupID = groupID\<rparr>"

definition NewChangeWorker :: "bool \<Rightarrow> database \<Rightarrow> changeWorker" where
  "NewChangeWorker hub db = newWorker \<lparr>ch_db = db, ch_hub = hub, ch_events = []\<rparr>"

section \<open>What processing does\<close>

lemma queueChangeForPeer_Inr: "queueChangeForPeer p t a i sm db = (Inr (), db1) \<longleftrightarrow> AddPendingChange p t a i sm db = (Inr (), db1)"
  by (cases "AddPendingChange p t a i sm db") (auto simp: queueChangeForPeer_def wrapS_def)

lemma queueChangeForPeer_snd: "snd (queueChangeForPeer p t a i sm db) = snd (AddPendingChange p t a i sm db)"
  by (cases "AddPendingChange p t a i sm db") (auto simp: queueChangeForPeer_def wrapS_def)

lemma queueEach_Cons:
  assumes "queueEach t a i sm (p # ps) errs suc db = res"
  obtains (failed) e db1 where "snd (AddPendingChange p t a i sm db) = db1"
      and "queueEach t a i sm ps (errorsJoin [errs, Some e]) suc db1 = res"
  | (added) db1 where "AddPendingChange p t a i sm db = (Inr (), db1)"
      and "queueEach t a i sm ps errs (suc @ [p]) db1 = res"
proof -
  obtain r db1 where q: "queueChangeForPeer p t a i sm db = (r, db1)" by (metis surj_pair)
  show ?thesis
  proof (cases r)
    case (Inl e)
    then show ?thesis using assms q queueChangeForPeer_snd [of p t a i sm db] by (intro failed) auto
  next
    case (Inr u)
    then show ?thesis using assms q queueChangeForPeer_Inr [of p t a i sm db db1] by (intro added) auto
  qed
qed

lemma queueEach_wf:
  "queueEach t a i sm ps errs suc db = (errs', suc', db') \<Longrightarrow> wf_pending db \<Longrightarrow> wf_pending db'"
proof (induction ps arbitrary: errs suc db)
  case (Cons p ps)
  have keep: "wf_pending (snd (AddPendingChange p t a i sm db))"
    using AddPendingChange_wf Cons.prems(2) by (simp add: keepsS_def)
  from Cons.prems(1) show ?case
    by (cases rule: queueEach_Cons) (use keep Cons.IH in \<open>auto\<close>)
qed simp

lemma queueEach_frame:
  "queueEach t a i sm ps errs suc db = (errs', suc', db') \<Longrightarrow> \<exists>rows. db' = db\<lparr>db_pending := db_pending db @ rows\<rparr>"
proof (induction ps arbitrary: errs suc db)
  case (Cons p ps)
  obtain rows where rows: "snd (AddPendingChange p t a i sm db) = db\<lparr>db_pending := db_pending db @ rows\<rparr>"
    using AddPendingChange_frame by blast
  from Cons.prems show ?case
    by (cases rule: queueEach_Cons) (use rows Cons.IH in fastforce)+
qed (auto intro: exI [of _ "[]"])

lemma hasPending_append: "hasPending db p t i a \<Longrightarrow> hasPending (db\<lparr>db_pending := db_pending db @ rows\<rparr>) p t i a"
  by (simp add: hasPending_def)

lemma queueEach_no_errors:
  "queueEach t a i sm ps errs suc db = (None, suc', db') \<Longrightarrow> errs = None \<and> suc' = suc @ ps"
proof (induction ps arbitrary: errs suc db)
  case (Cons p ps)
  from Cons.prems show ?case
    by (cases rule: queueEach_Cons) (use Cons.IH in fastforce)+
qed simp

lemma queueEach_pending:
  "queueEach t a i sm ps errs suc db = (errs', suc', db') \<Longrightarrow> q \<in> set suc' \<Longrightarrow> q \<in> set suc \<or> hasPending db' q t i a"
proof (induction ps arbitrary: errs suc db)
  case (Cons p ps)
  from Cons.prems(1) show ?case
  proof (cases rule: queueEach_Cons)
    case (failed e db1)
    then show ?thesis using Cons.IH Cons.prems(2) by blast
  next
    case (added db1)
    have "hasPending db' p t i a"
      using AddPendingChange_Inr(1) [OF added(1)] queueEach_frame [OF added(2)] hasPending_append by blast
    then show ?thesis using Cons.IH [OF added(2) Cons.prems(2)] by auto
  qed
qed simp

lemma queueEach_all_pending:
  "queueEach t a i sm ps None [] db = (None, suc', db') \<Longrightarrow> p \<in> set ps \<Longrightarrow> hasPending db' p t i a"
  using queueEach_no_errors [of t a i sm ps None "[]" db suc' db'] queueEach_pending [of t a i sm ps None "[]" db None suc' db' p]
  by simp

lemma notifyPeers_db [simp]: "ch_db (snd (notifyPeers ps s)) = ch_db s"
  by (simp add: notifyPeers_def)

lemma notifySucceeded_db [simp]: "ch_db (notifySucceeded ps s) = ch_db s"
  by (simp add: notifySucceeded_def)

lemma processPeerChange_wf: "wf_pending (ch_db s) \<Longrightarrow> wf_pending (ch_db (snd (processPeerChange work s)))"
  by (auto simp: processPeerChange_def split: prod.splits dest: queueEach_wf)

lemma processGroupChange_wf:
  assumes "wf_pending (ch_db s)"
  shows "wf_pending (ch_db (snd (processGroupChange work s)))"
proof -
  have "queueEach t a i sm ps errs suc (ch_db s) = (errs', suc', db') \<Longrightarrow> wf_pending db'" for t a i sm ps errs suc errs' suc' db'
    using queueEach_wf assms by blast
  then show ?thesis using assms
    by (auto simp: processGroupChange_def Let_def split: sum.splits prod.splits)
qed

lemma processChange_wf: "wf_pending (ch_db s) \<Longrightarrow> wf_pending (ch_db (snd (processChange work s)))"
  by (simp add: processChange_def processPeerChange_wf processGroupChange_wf)

section \<open>The change worker keeps the contract\<close>

definition changeInv :: "changeState \<Rightarrow> bool" where
  "changeInv s = wf_pending (ch_db s)"

lemma queueWork_cases:
  "queueWork work w = (r, w') \<Longrightarrow>
     (r = None \<and> w' = send work w \<and> hasRoom w \<and> \<not> wk_stopped w \<and> \<not> isDoneClosed w) \<or>
     (w' = w\<lparr>wk_data := snd (processChange work (wk_data w))\<rparr> \<and> r = fst (processChange work (wk_data w)))"
  by (auto simp: queueWork_def processSync_def split: if_splits prod.splits)

interpretation cw: job_worker processWork queueWork changeInv
proof
  show "changeInv (processWork x d)" if "changeInv d" for d x
    using that by (simp add: changeInv_def processWork_def processChange_wf)
  show "(r = None \<and> w' = send x w \<and> hasRoom w \<and> \<not> wk_stopped w \<and> \<not> isDoneClosed w) \<or>
      (\<exists>d'. w' = w\<lparr>wk_data := d'\<rparr> \<and> (changeInv (wk_data w) \<longrightarrow> changeInv d'))"
    if "queueWork x w = (r, w')" for x w r w'
    using queueWork_cases [OF that] by (auto simp: changeInv_def processChange_wf)
qed

text \<open>The states a change worker on this database can get into, under any interleaving.\<close>

definition changeReaches :: "bool \<Rightarrow> database \<Rightarrow> changeWorker \<Rightarrow> bool" where
  "changeReaches hub db w = reaches processWork queueWork changeInv \<lparr>ch_db = db, ch_hub = hub, ch_events = []\<rparr> w"

text \<open>
  C18 (WORKQUEUE): whatever clients, the rest of the program and the goroutine do, the changes
  accepted are the changes processed, the one in work and the ones in the buffer, in this order,
  the buffer stays within its capacity, and no change is pending twice for a peer.
\<close>

theorem changeWorker_fifo:
  assumes "changeReaches hub db w"
  shows "wk_acked w = wk_processed w @ busyWork (wk_pc w) @ wk_queue w \<and> length (wk_queue w) \<le> workChCap \<and>
    wf_pending (ch_db (wk_data w))"
  using assms cw.fifo cw.reachable_inv(2) unfolding changeReaches_def changeInv_def by blast


text \<open>
  A caller that gets no error has lost nothing: either the change is in the buffer of a
  started worker that is not stopped, or every peer it names has the pending row already.
\<close>

theorem QueuePeerChange_ack:
  assumes "QueuePeerChange peerIDs changeType changeAction changeID summary w = (None, w')"
  shows "(\<exists>work. w' = send work w \<and> cw_peerIDs work = peerIDs \<and> \<not> wk_stopped w \<and> \<not> isDoneClosed w) \<or>
    (\<forall>p \<in> set peerIDs. hasPending (ch_db (wk_data w')) p changeType changeID changeAction)"
proof -
  let ?work = "\<lparr>cw_peerIDs = peerIDs, cw_changeType = changeType, cw_changeAction = changeAction, cw_changeID = changeID,
       cw_summary = summary, cw_isGroup = False, cw_groupID = 0\<rparr>"
  obtain errs suc db' where q: "queueEach changeType changeAction changeID summary peerIDs None [] (ch_db (wk_data w)) = (errs, suc, db')"
    by (metis surj_pair)
  from queueWork_cases [OF assms [unfolded QueuePeerChange_def]] show ?thesis
  proof
    assume sent: "None = None \<and> w' = send ?work w \<and> hasRoom w \<and> \<not> wk_stopped w \<and> \<not> isDoneClosed w"
    then show ?thesis by (intro disjI1 exI [of _ ?work]) simp
  next
    assume sync: "w' = w\<lparr>wk_data := snd (processChange ?work (wk_data w))\<rparr> \<and> None = fst (processChange ?work (wk_data w))"
    then have "errs = None" "ch_db (wk_data w') = db'" using q by (auto simp: processChange_def processPeerChange_def)
    then show ?thesis using queueEach_all_pending q by blast
  qed
qed

section \<open>A group change reaches every peer\<close>

lemma GetAffectedPeersByPolicies_resolved:
  "GetAffectedPeersByPolicies db pids = (m, None) \<Longrightarrow> pid \<in> set pids \<Longrightarrow> \<exists>ids. GetAffectedPeersByPolicy db pid = Inr ids"
  by (cases "GetAffectedPeersByPolicy db pid") (force simp: GetAffectedPeersByPolicies_def Let_def split: sum.splits)+

lemma processGroupChange_None:
  assumes "processGroupChange work s = (None, s')"
  shows "\<exists>pids m suc. FindPoliciesByGroup (ch_db s) (cw_groupID work) = Inr pids \<and>
     (if pids \<noteq> [] then GetAffectedPeersByPolicies (ch_db s) pids else ([], None)) = (m, None) \<and>
     queueEach ''group'' (cw_changeAction work) (cw_groupID work) (cw_summary work) (MergePeerIDs (map snd m)) None [] (ch_db s)
       = (None, suc, ch_db s')"
proof -
  from assms obtain pids where f: "FindPoliciesByGroup (ch_db s) (cw_groupID work) = Inr pids"
    by (auto simp: processGroupChange_def Let_def split: sum.splits)
  obtain m rerr where g: "(if pids \<noteq> [] then GetAffectedPeersByPolicies (ch_db s) pids else ([], None)) = (m, rerr)"
    by (metis surj_pair)
  obtain errs suc db' where q: "queueEach ''group'' (cw_changeAction work) (cw_groupID work) (cw_summary work)
      (MergePeerIDs (map snd m)) None [] (ch_db s) = (errs, suc, db')" by (metis surj_pair)
  from assms f g q have "groupErrors errs rerr = None" and "ch_db s' = db'"
    by (auto simp: processGroupChange_def Let_def split: sum.splits if_splits)
  then have "errs = None" "rerr = None" by (auto simp: groupErrors_def split: option.splits)
  with f g q \<open>ch_db s' = db'\<close> show ?thesis by auto
qed

text \<open>
  C20 (GROUPCHANGE): when processing a change of a group reports no error, every peer whose bundle a
  policy on that group takes part in has the change pending.
\<close>

theorem processGroupChange_complete:
  assumes "processGroupChange work s = (None, s')" and "wf_db (ch_db s)"
    and "pol \<in> set (applicablePolicies (ch_db s) peer)" and "peer \<in> set (map p_id (db_peers (ch_db s)))"
    and "pol_ID pol \<in> groupPolicyIDs (ch_db s) (cw_groupID work)"
  shows "hasPending (ch_db s') peer ''group'' (cw_groupID work) (cw_changeAction work)"
proof -
  from processGroupChange_None [OF assms(1)] obtain pids m suc where f: "FindPoliciesByGroup (ch_db s) (cw_groupID work) = Inr pids"
    and g: "(if pids \<noteq> [] then GetAffectedPeersByPolicies (ch_db s) pids else ([], None)) = (m, None)"
    and q: "queueEach ''group'' (cw_changeAction work) (cw_groupID work) (cw_summary work) (MergePeerIDs (map snd m)) None [] (ch_db s)
       = (None, suc, ch_db s')" by blast
  from f assms(5) have pid: "pol_ID pol \<in> set pids" by (simp add: FindPoliciesByGroup_def findPoliciesByGroup_Inr)
  then have "pids \<noteq> []" by auto
  with g have g: "GetAffectedPeersByPolicies (ch_db s) pids = (m, None)" by simp
  obtain ids where ids: "GetAffectedPeersByPolicy (ch_db s) (pol_ID pol) = Inr ids"
    using GetAffectedPeersByPolicies_resolved [OF g pid] by blast
  from assms(3) obtain row where row: "row \<in> set (db_policies (ch_db s))" "applicableCol (ch_db s) peer row" "pol_ID pol = pl_id row"
    by (auto simp: applicablePolicies_def scanPolicy_def)
  have "peer \<in> set ids"
    by (rule GetAffectedPeersByPolicy_applicable [OF ids [unfolded row(3)] assms(2) row(1,2) assms(4)])
  then have "peer \<in> set (MergePeerIDs (map snd m))"
    using GetAffectedPeersByPolicies_None [OF g] pid ids by auto
  then show ?thesis using queueEach_all_pending [OF q] by blast
qed

section \<open>Batches are not observable\<close>

lemma concat_batchesOf: "concat (batchesOf xs) = xs"
proof (induction xs rule: batchesOf.induct)
  case (2 x xs)
  have "take notifyBatchSize (x # xs) = x # take (notifyBatchSize - 1) xs" by (simp add: notifyBatchSize_def take_Cons')
  with 2 show ?case by simp
qed simp

lemma foldl_addHostname:
  assumes "\<And>p. p \<in> set rows \<Longrightarrow> p_id p = p_id p0 \<Longrightarrow> p = p0"
  shows "foldl addHostname m rows (p_id p0) =
    (if p0 \<in> set rows \<and> p_hostname p0 \<noteq> [] then Some (p_hostname p0) else m (p_id p0))"
  using assms
proof (induction rows arbitrary: m)
  case (Cons p rows)
  then have "p_id p = p_id p0 \<longleftrightarrow> p = p0" by auto
  then show ?case using Cons by (auto simp: addHostname_def)
qed simp

lemma foldl_addHostname_other: "pid \<notin> p_id ` set rows \<Longrightarrow> foldl addHostname m rows pid = m pid"
  by (induction rows arbitrary: m) (auto simp: addHostname_def)

lemma batches_rows: "set (concat (map (batchRows db) (batchesOf ids))) = {p \<in> set (db_peers db). p_id p \<in> set ids}"
proof -
  have "set (concat (map (batchRows db) bs)) = {p \<in> set (db_peers db). p_id p \<in> set (concat bs)}" for bs
    by (auto simp: batchRows_def)
  then show ?thesis by (simp only: concat_batchesOf)
qed

text \<open>The notifications of one peer, by a query for it alone.\<close>

definition eventsFor :: "database \<Rightarrow> int \<Rightarrow> sseEvent list" where
  "eventsFor db peerID =
     concat (map (\<lambda>p. [PendingChangeAdded (''host-'' @ p_hostname p) peerID, FrontendPendingChangeAdded peerID])
       (filter (\<lambda>p. p_id p = peerID \<and> p_hostname p \<noteq> []) (db_peers db)))"

lemma filter_unique:
  assumes "distinct (map f xs)" and "x \<in> set xs"
  shows "filter (\<lambda>y. f y = f x \<and> P y) xs = (if P x then [x] else [])"
  using assms
proof (induction xs)
  case (Cons y ys)
  show ?case
  proof (cases "x = y")
    case True
    then have "filter (\<lambda>z. f z = f x \<and> P z) ys = []" 
      using Cons.prems(1) by (auto simp: filter_empty_conv image_iff)
    then show ?thesis using True by simp
  next
    case False
    then have "f y \<noteq> f x" using Cons.prems by (auto simp: image_iff)
    then show ?thesis using Cons False by simp
  qed
qed simp

lemma peerEvents_batches:
  assumes "distinct (map p_id (db_peers db))" and "pid \<in> set ids"
  shows "peerEvents (hostnameMap db (batchesOf ids)) pid = eventsFor db pid"
proof -
  let ?rows = "concat (map (batchRows db) (batchesOf ids))"
  show ?thesis
  proof (cases "pid \<in> p_id ` set (db_peers db)")
    case True
    then obtain p0 where p0: "p0 \<in> set (db_peers db)" "pid = p_id p0" by auto
    have "foldl addHostname Map.empty ?rows pid = (if p_hostname p0 \<noteq> [] then Some (p_hostname p0) else None)"
    proof -
      have uniq: "p = p0" if "p \<in> set ?rows" "p_id p = p_id p0" for p
        using that p0(1) assms(1) unfolding batches_rows by (auto dest: distinct_map_unique)
      have "p0 \<in> set ?rows" unfolding batches_rows using p0 assms(2) by simp
      then show ?thesis using foldl_addHostname [of ?rows p0 Map.empty, OF uniq] p0(2) by simp
    qed
    moreover have "filter (\<lambda>p. p_id p = pid \<and> p_hostname p \<noteq> []) (db_peers db) = (if p_hostname p0 \<noteq> [] then [p0] else [])"
      using filter_unique [OF assms(1) p0(1), of "\<lambda>p. p_hostname p \<noteq> []"] p0(2) by simp
    ultimately show ?thesis by (simp add: peerEvents_def hostnameMap_def eventsFor_def)
  next
    case False
    then have "pid \<notin> p_id ` set ?rows" unfolding batches_rows by auto
    then have "hostnameMap db (batchesOf ids) pid = None" by (simp add: hostnameMap_def foldl_addHostname_other)
    moreover have "filter (\<lambda>p. p_id p = pid \<and> p_hostname p \<noteq> []) (db_peers db) = []"
      using False by (auto simp: filter_empty_conv)
    ultimately show ?thesis by (simp add: peerEvents_def eventsFor_def)
  qed
qed

text \<open>
  Looking host names up in batches gives the notifications that a query per peer would:
  two for every listed peer that exists under a name, in the order of the list, and none for any
  other.
\<close>

theorem notifyPeers_per_peer:
  assumes "distinct (map p_id (db_peers (ch_db s)))" and "notifyPeers ids s = (None, s')"
  shows "s' = s\<lparr>ch_events := ch_events s @ concat (map (eventsFor (ch_db s)) ids)\<rparr>"
proof -
  have eq: "map (peerEvents (hostnameMap (ch_db s) (batchesOf ids))) ids = map (eventsFor (ch_db s)) ids"
    using peerEvents_batches [OF assms(1)] by simp
  show ?thesis using assms(2) unfolding notifyPeers_def eq by (auto split: if_splits)
qed

section \<open>A change that is acknowledged and lost\<close>

definition lostWorker :: "changeState \<Rightarrow> changeWorker" where
  "lostWorker d = (newWorker d)\<lparr>wk_startOnce := True, wk_started := True, wk_cancelled := True, wk_pc := Exiting\<rparr>"

lemma lostWorker_reaches:
  assumes "changeInv d"
  shows "reaches processWork queueWork changeInv d (lostWorker d)"
proof -
  let ?step = "wstep processWork queueWork changeInv"
  let ?w1 = "startWorker (newWorker d :: changeWorker)"
  let ?w2 = "?w1\<lparr>wk_cancelled := True\<rparr>" 
  let ?w3 = "?w2\<lparr>wk_pc := Draining\<rparr>"
  have "?step (newWorker d) ?w1" by (rule wstep.start)
  moreover have "?step ?w1 ?w2" by (rule wstep.cancel)
  moreover have "?step ?w2 ?w3" by (intro wstep.goroutine gstep.cancelled) (simp_all add: startWorker_def newWorker_def)
  moreover have "?step ?w3 (?w3\<lparr>wk_pc := Exiting\<rparr>)"
    by (intro wstep.goroutine gstep.drained) (simp_all add: startWorker_def newWorker_def)
  moreover have "?w3\<lparr>wk_pc := Exiting\<rparr> = lostWorker d" by (simp add: startWorker_def newWorker_def lostWorker_def)
  ultimately show ?thesis using assms unfolding reaches_def by (metis (no_types, lifting) rtranclp.simps)
qed

text \<open>
  C35 (LOST): between the end of the drain after a cancellation and the closing of \<^verbatim>\<open>done\<close>, a
  change is accepted without error, and no step of the goroutine will ever process it.
\<close>

theorem queueWork_lost:
  assumes "wf_pending db"
  shows "\<exists>w w'. changeReaches hub db w \<and> queueWork work w = (None, send work w) \<and> gstep processWork (send work w) w' \<and>
    wk_acked w' = [work] \<and> wk_processed w' = [] \<and> (\<nexists>u. gstep processWork w' u)"
proof -
  let ?d = "\<lparr>ch_db = db, ch_hub = hub, ch_events = []\<rparr>"
  let ?w = "lostWorker ?d"
  let ?w' = "(send work ?w)\<lparr>wk_pc := Exited\<rparr>"
  have "changeReaches hub db ?w" using lostWorker_reaches [of ?d] assms by (simp add: changeReaches_def changeInv_def)
  moreover have "queueWork work ?w = (None, send work ?w)"
    by (simp add: queueWork_def lostWorker_def newWorker_def isDoneClosed_def hasRoom_def workChCap_def)
  moreover have "gstep processWork (send work ?w) ?w'"
    by (rule gstep.exit) (simp add: send_def lostWorker_def)
  moreover have "wk_acked ?w' = [work]" "wk_processed ?w' = []" by (simp_all add: send_def lostWorker_def newWorker_def)
  moreover have "\<nexists>u. gstep processWork ?w' u" using stuck_exited [of ?w'] by simp
  ultimately show ?thesis by blast
qed

section \<open>Instances\<close>

definition exChange :: changeState where
  "exChange = \<lparr>ch_db = exGroupDB, ch_hub = True, ch_events = []\<rparr>"

definition exGroupWork :: changeWork where
  "exGroupWork = \<lparr>cw_peerIDs = [], cw_changeType = [], cw_changeAction = ''update'', cw_changeID = 0,
       cw_summary = [], cw_isGroup = True, cw_groupID = 1\<rparr>"

lemma exGroupDB_pending: "wf_pending exGroupDB"
  by code_simp

lemma exWorker_reaches: "changeReaches True exGroupDB (NewChangeWorker True exGroupDB)"
  by (simp add: changeReaches_def reaches_def NewChangeWorker_def changeInv_def exGroupDB_pending)

theorem changeWorker_fifo_witness:
  "wk_acked (NewChangeWorker True exGroupDB) = [] \<and> wf_pending (ch_db (wk_data (NewChangeWorker True exGroupDB)))"
  using changeWorker_fifo [OF exWorker_reaches] by (simp add: NewChangeWorker_def newWorker_def)

lemma exStopped_reaches: "changeReaches True exGroupDB (stopWorker (startWorker (NewChangeWorker True exGroupDB)))"
proof -
  let ?w = "NewChangeWorker True exGroupDB"
  have "wstep processWork queueWork changeInv ?w (startWorker ?w)"
    "wstep processWork queueWork changeInv (startWorker ?w) (stopWorker (startWorker ?w))"
    by (rule wstep.start wstep.stop)+
  with exWorker_reaches show ?thesis unfolding changeReaches_def reaches_def by (meson rtranclp.rtrancl_into_rtrancl)
qed


theorem QueuePeerChange_ack_witness:
  "list_all (\<lambda>p. hasPending (ch_db (wk_data (snd (QueuePeerChange [1, 2] ''policy'' ''update'' 1 [] (NewChangeWorker True exGroupDB)))))
      p ''policy'' 1 ''update'') [1, 2]"
proof -
  let ?q = "QueuePeerChange [1, 2] ''policy'' ''update'' 1 [] (NewChangeWorker True exGroupDB)"
  have "fst ?q = None" "wk_queue (snd ?q) = []" by code_simp+
  then have "?q = (None, snd ?q)" by (metis surjective_pairing)
  from QueuePeerChange_ack [OF this] \<open>wk_queue (snd ?q) = []\<close> show ?thesis
    by (auto simp: send_def list_all_iff)
qed

theorem processGroupChange_complete_witness:
  "hasPending (ch_db (snd (processGroupChange exGroupWork exChange))) 2 ''group'' 1 ''update''"
proof -
  have r: "processGroupChange exGroupWork exChange = (None, snd (processGroupChange exGroupWork exChange))"
    by (rule prod_eqI) (simp_all, code_simp)
  have p: "scanPolicy exGroupDB 2 (exPolicy\<lparr>pl_source_type := ''group''\<rparr>) \<in> set (applicablePolicies exGroupDB 2)"
    "2 \<in> set (map p_id (db_peers exGroupDB))" "wf_db exGroupDB" by code_simp+
  have g: "pol_ID (scanPolicy exGroupDB 2 (exPolicy\<lparr>pl_source_type := ''group''\<rparr>)) \<in> groupPolicyIDs exGroupDB 1"
    by (simp add: groupPolicyIDs_def scanPolicy_def exGroupDB_def exDB_def exPolicy_def)
  show ?thesis
    using processGroupChange_complete [OF r] p g by (simp add: exChange_def exGroupWork_def)
qed

theorem notifyPeers_per_peer_witness:
  "ch_events (snd (notifyPeers [2, 1, 7] exChange)) = concat (map (eventsFor exGroupDB) [2, 1, 7])"
proof -
  have n: "notifyPeers [2, 1, 7] exChange = (None, snd (notifyPeers [2, 1, 7] exChange))"
    by (simp add: notifyPeers_def exChange_def exGroupDB_def exDB_def)
  have d: "distinct (map p_id (db_peers (ch_db exChange)))" by code_simp
  show ?thesis by (subst notifyPeers_per_peer [OF d n]) (simp add: exChange_def)
qed

theorem queueWork_lost_witness:
  "\<exists>w w'. changeReaches True exGroupDB w \<and> queueWork exGroupWork w = (None, send exGroupWork w) \<and>
    gstep processWork (send exGroupWork w) w' \<and> wk_processed w' = []"
  using queueWork_lost [OF exGroupDB_pending, of True exGroupWork] by blast

end
