(* ===== verification/Push_Worker.thy ===== *)
theory Push_Worker
  imports Worker Pending Compiler
begin

text \<open>
  The push worker (\<^verbatim>\<open>internal/api/common/pushworker.go\<close>) and its tables
  (\<^verbatim>\<open>internal/db/push_jobs.go\<close>): a push job compiles a bundle for each of its peers, tells
  the agent, and records the outcome. The delivery to an agent, the clock, the points at which the
  context of a job is found to be done and the parts a worker may lack are the environment. A worker
  or channel that is nil is not modelled; the timestamp of creation is left out.
\<close>

section \<open>Tables\<close>

definition CreatePushJob :: "string \<Rightarrow> string \<Rightarrow> int \<Rightarrow> (unit, database) step" where
  "CreatePushJob jobID initiatedBy totalPeers db =
     (if db_fails db (QCreatePushJob jobID) \<or> jobID \<in> set (map j_ID (db_pushJobs db))
      then (Inl (Wrap ''create push job'' [Leaf ''database error'']), db)
      else (Inr (), db\<lparr>db_pushJobs := db_pushJobs db @
             [\<lparr>j_ID = jobID, j_InitiatedBy = initiatedBy, j_TotalPeers = totalPeers, j_Succeeded = 0, j_Failed = 0,
               j_Status = ''pending'', j_CompletedAt = None\<rparr>]\<rparr>))"

text \<open>
  One transaction: the insert of a peer fails on a duplicate and on a job or peer that does not
  exist, and then nothing is inserted.
\<close>

definition jobPeerRow :: "string \<Rightarrow> int \<times> string \<Rightarrow> PushJobPeer" where
  "jobPeerRow jobID p =
     \<lparr>jp_JobID = jobID, jp_PeerID = fst p, jp_Hostname = snd p, jp_Status = ''pending'', jp_ErrorMessage = None\<rparr>"

definition CreatePushJobPeersT :: "string \<Rightarrow> (int \<times> string) list \<Rightarrow> (unit, database) step" where
  "CreatePushJobPeersT jobID peers db =
     (if db_fails db (QCreatePushJobPeers jobID) \<or> \<not> distinct (map fst peers) \<or>
         list_ex (\<lambda>p. \<not> peerRow db (fst p) \<or> jobID \<notin> set (map j_ID (db_pushJobs db)) \<or>
           list_ex (\<lambda>r. jp_JobID r = jobID \<and> jp_PeerID r = fst p) (db_pushJobPeers db)) peers
      then (Inl (Wrap ''insert push job peer'' [Leaf ''database error'']), db)
      else (Inr (), db\<lparr>db_pushJobPeers := db_pushJobPeers db @ map (jobPeerRow jobID) peers\<rparr>))"

definition GetPushJob :: "database \<Rightarrow> string \<Rightarrow> PushJob res" where
  "GetPushJob db jobID = wrapE ''get push job'' (queryRow db (QPushJob jobID) (filter (\<lambda>j. j_ID j = jobID) (db_pushJobs db)))"

definition jobRows :: "database \<Rightarrow> string \<Rightarrow> PushJobPeer list" where
  "jobRows db jobID = filter (\<lambda>r. jp_JobID r = jobID) (db_pushJobPeers db)"

definition GetPushJobWithPeers :: "database \<Rightarrow> string \<Rightarrow> (PushJob \<times> PushJobPeer list) res" where
  "GetPushJobWithPeers db jobID =
     bindE (GetPushJob db jobID) (\<lambda>job.
     bindE (wrapE ''query push job peers'' (queryRows db (QPushJobPeers jobID) (jobRows db jobID))) (\<lambda>peers. Inr (job, peers)))"

definition updateJob :: "string \<Rightarrow> (PushJob \<Rightarrow> PushJob) \<Rightarrow> database \<Rightarrow> database" where
  "updateJob jobID f db = db\<lparr>db_pushJobs := map (\<lambda>j. if j_ID j = jobID then f j else j) (db_pushJobs db)\<rparr>"

definition UpdatePushJobStatus :: "string \<Rightarrow> string \<Rightarrow> (unit, database) step" where
  "UpdatePushJobStatus jobID status =
     wrapS ''update push job status'' (execS (QPushJobStatus jobID status) (updateJob jobID (\<lambda>j. j\<lparr>j_Status := status\<rparr>)))"

definition finalStatusOf :: "int \<Rightarrow> string" where
  "finalStatusOf failed = (if failed > 0 then ''completed_with_errors'' else ''completed'')"

definition FinalizePushJob :: "string \<Rightarrow> string \<Rightarrow> (unit, database) step" where
  "FinalizePushJob now jobID =
     wrapS ''finalize push job'' (execS (QFinalizePushJob jobID)
       (updateJob jobID (\<lambda>j. j\<lparr>j_CompletedAt := Some now, j_Status := finalStatusOf (j_Failed j)\<rparr>)))"

definition FinalizePushJobWithCounts :: "string \<Rightarrow> string \<Rightarrow> int \<Rightarrow> int \<Rightarrow> (unit, database) step" where
  "FinalizePushJobWithCounts now jobID succeeded failed =
     wrapS ''finalize push job with counts'' (execS (QFinalizePushJob jobID)
       (updateJob jobID (\<lambda>j. j\<lparr>j_CompletedAt := Some now, j_Status := finalStatusOf failed,
          j_Succeeded := succeeded, j_Failed := failed\<rparr>)))"

definition setPeerStatus :: "int \<Rightarrow> string \<Rightarrow> string \<Rightarrow> PushJobPeer \<Rightarrow> PushJobPeer" where
  "setPeerStatus peerID status errMsg r =
     (if jp_PeerID r = peerID then r\<lparr>jp_Status := status, jp_ErrorMessage := (if errMsg = [] then None else Some errMsg)\<rparr> else r)"

definition UpdatePushJobPeerStatus :: "string \<Rightarrow> int \<Rightarrow> string \<Rightarrow> string \<Rightarrow> (unit, database) step" where
  "UpdatePushJobPeerStatus jobID peerID status errMsg =
     wrapS ''update push job peer status'' (execS (QPushJobPeerStatus jobID peerID)
       (\<lambda>db. db\<lparr>db_pushJobPeers :=
          map (\<lambda>r. if jp_JobID r = jobID then setPeerStatus peerID status errMsg r else r) (db_pushJobPeers db)\<rparr>))"

section \<open>Environment and state\<close>

datatype NotifyOutcome = NotifySent | NotifyNotConnected | NotifyChannelFull

definition Sent :: "NotifyOutcome \<Rightarrow> bool" where
  "Sent outcome = (outcome = NotifySent)"

text \<open>Progress events carry the counters; the deprecated aliases in the payload are left out.\<close>

datatype progress =
    JobComplete string string int int int
  | PeerProcessing string int int int int
  | PeerFailed string int string int int int
  | PeerSuccess string int string int int int

datatype alert = AlertBundleFailed int string | AlertBundleNotified int string

record pushEnv =
  px_crypto :: crypto
  px_now :: "string \<Rightarrow> int \<Rightarrow> string"
  px_finish :: "string \<Rightarrow> string"
  px_deliver :: "string \<Rightarrow> string \<Rightarrow> NotifyOutcome"
  px_ctxDone :: "string \<Rightarrow> int \<Rightarrow> bool"
  px_compiler :: bool
  px_hub :: bool
  px_alerts :: bool

record pushState =
  pu_db :: database
  pu_events :: "progress list"
  pu_alerts :: "alert list"

definition notifyProgress :: "pushEnv \<Rightarrow> progress \<Rightarrow> pushState \<Rightarrow> pushState" where
  "notifyProgress E ev s = (if px_hub E then s\<lparr>pu_events := pu_events s @ [ev]\<rparr> else s)"

definition triggerAlert :: "pushEnv \<Rightarrow> alert \<Rightarrow> pushState \<Rightarrow> pushState" where
  "triggerAlert E a s = (if px_alerts E then s\<lparr>pu_alerts := pu_alerts s @ [a]\<rparr> else s)"

text \<open>A statement whose failure is only logged.\<close>

definition logged :: "(unit, database) step \<Rightarrow> pushState \<Rightarrow> pushState" where
  "logged m s = s\<lparr>pu_db := ignoreS m (pu_db s)\<rparr>"

text \<open>The message of an error: the text at the head of its format string.\<close>

fun errorText :: "goerr \<Rightarrow> string" where
  "errorText (Sentinel _) = ''error''"
| "errorText (Leaf s) = s"
| "errorText (Wrap s _) = s"
| "errorText (Joined es) = concat (map errorText es)"

section \<open>Processing a job\<close>

text \<open>The tail of the loop body for a peer that failed.\<close>

definition peerFailed :: "pushEnv \<Rightarrow> string \<Rightarrow> int \<Rightarrow> PushJobPeer \<Rightarrow> string \<Rightarrow> int \<Rightarrow> int \<Rightarrow> pushState \<Rightarrow> pushState" where
  "peerFailed E jobID totalPeers peer errMsg notified failed s =
     triggerAlert E (AlertBundleFailed (jp_PeerID peer) errMsg)
       (notifyProgress E (PeerFailed jobID (jp_PeerID peer) errMsg totalPeers notified failed)
         (logged (UpdatePushJobPeerStatus jobID (jp_PeerID peer) ''failed'' errMsg) s))"

definition peerNotified :: "pushEnv \<Rightarrow> string \<Rightarrow> int \<Rightarrow> PushJobPeer \<Rightarrow> string \<Rightarrow> int \<Rightarrow> int \<Rightarrow> pushState \<Rightarrow> pushState" where
  "peerNotified E jobID totalPeers peer version notified failed s =
     triggerAlert E (AlertBundleNotified (jp_PeerID peer) version)
       (notifyProgress E (PeerSuccess jobID (jp_PeerID peer) version totalPeers notified failed)
         (logged (UpdatePushJobPeerStatus jobID (jp_PeerID peer) ''notified'' []) s))"

definition deliveryError :: string where
  "deliveryError = ''SSE delivery failed: agent not connected''"

text \<open>The loop over the peers; the first component says whether the context was found done.\<close>

fun pushPeers :: "pushEnv \<Rightarrow> string \<Rightarrow> int \<Rightarrow> PushJobPeer list \<Rightarrow> int \<Rightarrow> int \<Rightarrow> pushState \<Rightarrow> bool \<times> int \<times> int \<times> pushState" where
  "pushPeers E jobID totalPeers [] notified failed s = (False, notified, failed, s)"
| "pushPeers E jobID totalPeers (peer # peers) notified failed s =
     (if px_ctxDone E jobID (jp_PeerID peer) then (True, notified, failed, s)
      else
        let s1 = notifyProgress E (PeerProcessing jobID (jp_PeerID peer) totalPeers notified failed) s in
        case CompileAndStore (px_crypto E) (pu_db s1) (px_now E jobID (jp_PeerID peer)) (jp_PeerID peer) of
          Inl e \<Rightarrow> pushPeers E jobID totalPeers peers notified (failed + 1)
                     (peerFailed E jobID totalPeers peer (errorText e) notified (failed + 1) s1)
        | Inr (db', bundle) \<Rightarrow>
            (let s2 = s1\<lparr>pu_db := db'\<rparr> in
             if \<not> Sent (px_deliver E (''host-'' @ jp_Hostname peer) (b_version bundle))
             then pushPeers E jobID totalPeers peers notified (failed + 1)
                    (peerFailed E jobID totalPeers peer deliveryError notified (failed + 1) s2)
             else pushPeers E jobID totalPeers peers (notified + 1) failed
                    (peerNotified E jobID totalPeers peer (b_version bundle) (notified + 1) failed s2)))"

definition failJob :: "pushEnv \<Rightarrow> string \<Rightarrow> pushState \<Rightarrow> pushState" where
  "failJob E jobID s =
     notifyProgress E (JobComplete jobID ''failed'' 0 0 1) (logged (UpdatePushJobStatus jobID ''failed'') s)"

definition processJob :: "pushEnv \<Rightarrow> string \<Rightarrow> pushState \<Rightarrow> pushState" where
  "processJob E jobID s =
     (if \<not> px_compiler E \<or> \<not> px_hub E then failJob E jobID s
      else case GetPushJobWithPeers (pu_db s) jobID of
        Inl _ \<Rightarrow> failJob E jobID s
      | Inr (job, peers) \<Rightarrow>
          (let s1 = logged (UpdatePushJobStatus jobID ''running'') s; totalPeers = int (length peers) in
           if totalPeers = 0
           then notifyProgress E (JobComplete jobID ''completed'' 0 0 0) (logged (FinalizePushJob (px_finish E jobID) jobID) s1)
           else
             (case pushPeers E jobID totalPeers peers 0 0 s1 of
                (True, notified, failed, s2) \<Rightarrow>
                  logged (FinalizePushJobWithCounts (px_finish E jobID) jobID notified failed) s2
              | (False, notified, failed, s2) \<Rightarrow>
                  notifyProgress E (JobComplete jobID (finalStatusOf failed) totalPeers notified failed)
                    (logged (FinalizePushJobWithCounts (px_finish E jobID) jobID notified failed) s2))))"

section \<open>The queue\<close>

type_synonym pushWorker = "(string, pushState) worker"

definition Enqueue :: "string \<Rightarrow> pushWorker \<Rightarrow> goerr option \<times> pushWorker" where
  "Enqueue jobID w =
     (if wk_stopped w then (Some (Wrap ''enqueue push job: push worker stopped'' [Sentinel ErrPushQueueFull]), w)
      else if isDoneClosed w then (Some (Wrap ''enqueue push job: push worker stopped'' [Sentinel ErrPushQueueFull]), w)
      else if hasRoom w then (None, send jobID w)
      else (Some (Wrap ''enqueue push job'' [Sentinel ErrPushQueueFull]), w))"

definition QueueDepth :: "pushWorker \<Rightarrow> int" where
  "QueueDepth w = int (length (wk_queue w))"

definition QueueCapacity :: "pushWorker \<Rightarrow> int" where
  "QueueCapacity w = int workChCap"

definition NewPushWorker :: "database \<Rightarrow> pushWorker" where
  "NewPushWorker db = newWorker \<lparr>pu_db = db, pu_events = [], pu_alerts = []\<rparr>"

section \<open>What every job keeps\<close>

definition jobStatuses :: "string list" where
  "jobStatuses = [''pending'', ''running'', ''completed'', ''completed_with_errors'', ''failed'', ''canceled'']"

definition peerStatuses :: "string list" where
  "peerStatuses = [''pending'', ''notified'', ''applied'', ''failed'']"

text \<open>
  A property of the database that the writes of a job keep: an update of a job that keeps its key
  and sets a permitted status, an outcome recorded for a peer, and a bundle appended.
\<close>

locale push_property =
  fixes P :: "database \<Rightarrow> bool"
  assumes keep_job: "P db \<Longrightarrow> (\<And>j. j_ID (f j) = j_ID j \<and> j_Status (f j) \<in> set jobStatuses) \<Longrightarrow> P (updateJob jobID f db)"
    and keep_peer: "P db \<Longrightarrow> status \<in> {''notified'', ''failed''} \<Longrightarrow>
      P (db\<lparr>db_pushJobPeers := map (\<lambda>r. if jp_JobID r = jobID then setPeerStatus peerID status errMsg r else r) (db_pushJobPeers db)\<rparr>)"
    and keep_bundle: "P db \<Longrightarrow> P (db\<lparr>db_bundles := db_bundles db @ [row]\<rparr>)"
begin

lemma keeps_progress [simp]: "P (pu_db (notifyProgress E ev s)) = P (pu_db s)"
  by (simp add: notifyProgress_def)

lemma keeps_alert [simp]: "P (pu_db (triggerAlert E a s)) = P (pu_db s)"
  by (simp add: triggerAlert_def)

lemma keeps_logged: "keepsS P m \<Longrightarrow> P (pu_db s) \<Longrightarrow> P (pu_db (logged m s))"
  by (simp add: logged_def keepsS_ignore)

lemma keeps_exec: "(\<And>db. P db \<Longrightarrow> P (f db)) \<Longrightarrow> keepsS P (wrapS msg (execS q f))"
  by (intro keepsS_wrap) (simp add: keepsS_def execS_def)

lemma keeps_status: "status \<in> set jobStatuses \<Longrightarrow> keepsS P (UpdatePushJobStatus jobID status)"
  unfolding UpdatePushJobStatus_def by (intro keeps_exec keep_job) simp_all

lemma keeps_finalize: "keepsS P (FinalizePushJob now jobID)" "keepsS P (FinalizePushJobWithCounts now jobID n k)"
  unfolding FinalizePushJob_def FinalizePushJobWithCounts_def
  by (intro keeps_exec keep_job; simp add: finalStatusOf_def jobStatuses_def)+

lemma keeps_peerStatus: "status \<in> {''notified'', ''failed''} \<Longrightarrow> keepsS P (UpdatePushJobPeerStatus jobID peerID status errMsg)"
  unfolding UpdatePushJobPeerStatus_def by (intro keeps_exec keep_peer)

lemma keeps_peer:
  assumes "P (pu_db s)"
  shows "P (pu_db (peerFailed E jobID tot peer errMsg n k s))" and "P (pu_db (peerNotified E jobID tot peer v n k s))"
  using assms keeps_logged [OF keeps_peerStatus] by (simp_all add: peerFailed_def peerNotified_def)

lemma keeps_pushPeers: "pushPeers E jobID tot peers n k s = (ab, n', k', s') \<Longrightarrow> P (pu_db s) \<Longrightarrow> P (pu_db s')"
proof (induction peers arbitrary: n k s)
  case (Cons peer peers)
  let ?s1 = "notifyProgress E (PeerProcessing jobID (jp_PeerID peer) tot n k) s"
  let ?c = "CompileAndStore (px_crypto E) (pu_db ?s1) (px_now E jobID (jp_PeerID peer)) (jp_PeerID peer)"
  have s1: "P (pu_db ?s1)" using Cons.prems(2) by simp
  show ?case
  proof (cases "px_ctxDone E jobID (jp_PeerID peer)")
    case True
    then show ?thesis using Cons.prems by simp
  next
    case False
    show ?thesis
    proof (cases ?c)
      case (Inl e)
      then show ?thesis using Cons.IH [OF _ keeps_peer(1) [OF s1]] Cons.prems(1) False by (simp add: Let_def)
    next
      case (Inr res)
      then obtain db' row where c: "?c = Inr (db', row)" by (cases res) simp
      have "P db'" using CompileAndStore_Inr [OF c] keep_bundle [OF s1] by simp
      then have s2: "P (pu_db (?s1\<lparr>pu_db := db'\<rparr>))" by simp
      show ?thesis
        using Cons.IH [OF _ keeps_peer(1) [OF s2]] Cons.IH [OF _ keeps_peer(2) [OF s2]] Cons.prems(1) False c
        by (simp add: Let_def split: if_splits)
    qed
  qed
qed simp

lemma keeps_processJob:
  assumes s: "P (pu_db s)"
  shows "P (pu_db (processJob E jobID s))"
proof -
  have st: "P (pu_db (logged (UpdatePushJobStatus jobID status) s))" if "status \<in> set jobStatuses" for status
    by (rule keeps_logged [OF keeps_status [OF that] s])
  have f: "P (pu_db (failJob E jobID s))" using st by (simp add: failJob_def jobStatuses_def)
  show ?thesis
  proof (cases "GetPushJobWithPeers (pu_db s) jobID")
    case (Inl e)
    then show ?thesis using f by (simp add: processJob_def)
  next
    case (Inr res)
    then obtain job peers where g: "GetPushJobWithPeers (pu_db s) jobID = Inr (job, peers)" by (cases res) simp
    let ?s1 = "logged (UpdatePushJobStatus jobID ''running'') s"
    have s1: "P (pu_db ?s1)" using st by (simp add: jobStatuses_def)
    obtain ab n k s2 where l: "pushPeers E jobID (int (length peers)) peers 0 0 ?s1 = (ab, n, k, s2)" by (metis surj_pair)
    have s2: "P (pu_db s2)" by (rule keeps_pushPeers [OF l s1])
    show ?thesis
      using f g l keeps_logged [OF keeps_finalize(1) s1] keeps_logged [OF keeps_finalize(2) s2]
      by (cases ab) (auto simp: processJob_def Let_def)
  qed
qed

end

text \<open>What the schema declares of the two tables: keys, references and permitted statuses.\<close>

definition wf_push :: "database \<Rightarrow> bool" where
  "wf_push db \<longleftrightarrow>
     distinct (map j_ID (db_pushJobs db)) \<and>
     distinct (map (\<lambda>r. (jp_JobID r, jp_PeerID r)) (db_pushJobPeers db)) \<and>
     list_all (\<lambda>r. jp_JobID r \<in> set (map j_ID (db_pushJobs db)) \<and> peerRow db (jp_PeerID r)) (db_pushJobPeers db) \<and>
     list_all (\<lambda>j. j_Status j \<in> set jobStatuses) (db_pushJobs db) \<and>
     list_all (\<lambda>r. jp_Status r \<in> set peerStatuses) (db_pushJobPeers db)"

text \<open>Only the bundle table and the two tables of the jobs change, and bundles are only added.\<close>

definition pushFrame :: "database \<Rightarrow> database \<Rightarrow> bool" where
  "pushFrame db db' \<longleftrightarrow>
     db'\<lparr>db_bundles := db_bundles db, db_pushJobs := db_pushJobs db, db_pushJobPeers := db_pushJobPeers db\<rparr> = db \<and>
     (\<exists>rows. db_bundles db' = db_bundles db @ rows)"

lemma setPeerStatus_key [simp]: "jp_JobID (setPeerStatus p st m r) = jp_JobID r" "jp_PeerID (setPeerStatus p st m r) = jp_PeerID r"
  by (simp_all add: setPeerStatus_def)

lemma map_keys:
  assumes "\<And>x. x \<in> set xs \<Longrightarrow> f (g x) = f x"
  shows "map f (map g xs) = map f xs"
  using assms by (simp add: list_eq_iff_nth_eq)

interpretation wf: push_property wf_push
proof
  fix db jobID and f :: "PushJob \<Rightarrow> PushJob"
  assume wf: "wf_push db" and f: "\<And>j. j_ID (f j) = j_ID j \<and> j_Status (f j) \<in> set jobStatuses"
  have ids: "map j_ID (db_pushJobs (updateJob jobID f db)) = map j_ID (db_pushJobs db)"
    unfolding updateJob_def using f by simp
  have rest: "db_pushJobPeers (updateJob jobID f db) = db_pushJobPeers db" "peerRow (updateJob jobID f db) = peerRow db"
    by (auto simp: updateJob_def peerRow_def)
  have "list_all (\<lambda>j. j_Status j \<in> set jobStatuses) (db_pushJobs (updateJob jobID f db))"
    using wf f by (auto simp: updateJob_def wf_push_def list_all_iff)
  then show "wf_push (updateJob jobID f db)" using wf unfolding wf_push_def ids rest by (simp only: simp_thms)
next
  fix db status jobID peerID errMsg
  assume wf: "wf_push db" and st: "status \<in> {''notified'', ''failed''}"
  let ?g = "\<lambda>r. if jp_JobID r = jobID then setPeerStatus peerID status errMsg r else r"
  let ?db = "db\<lparr>db_pushJobPeers := map ?g (db_pushJobPeers db)\<rparr>"
  have keys: "map (\<lambda>r. (jp_JobID r, jp_PeerID r)) (db_pushJobPeers ?db) = map (\<lambda>r. (jp_JobID r, jp_PeerID r)) (db_pushJobPeers db)"
    using map_keys [of "db_pushJobPeers db" "\<lambda>r. (jp_JobID r, jp_PeerID r)" ?g] by simp
  have "list_all (\<lambda>r. jp_JobID r \<in> set (map j_ID (db_pushJobs db)) \<and> peerRow db (jp_PeerID r)) (db_pushJobPeers ?db)"
    and "list_all (\<lambda>r. jp_Status r \<in> set peerStatuses) (db_pushJobPeers ?db)"
    using wf st by (auto simp: wf_push_def list_all_iff setPeerStatus_def peerStatuses_def)
  moreover have "db_pushJobs ?db = db_pushJobs db" "peerRow ?db = peerRow db" by (auto simp: peerRow_def)
  ultimately show "wf_push ?db" using wf unfolding wf_push_def keys by (simp only: simp_thms)
next
  fix db row
  assume "wf_push db"
  then show "wf_push (db\<lparr>db_bundles := db_bundles db @ [row]\<rparr>)" by (simp add: wf_push_def peerRow_def)
qed

lemma pushFrame_refl [simp]: "pushFrame db db"
  by (simp add: pushFrame_def)

interpretation fr: push_property "pushFrame db0" for db0
  by unfold_locales (auto simp: pushFrame_def updateJob_def)

text \<open>
  Processing a job never clears a pending change or a preview, changes no peer, group,
  service or policy, and adds bundles without changing one; it keeps the keys of the tables of the
  jobs and their statuses within the permitted ones.
\<close>

theorem processJob_only_pushes:
  assumes "wf_push (pu_db s)"
  shows "wf_push (pu_db (processJob E jobID s)) \<and> pushFrame (pu_db s) (pu_db (processJob E jobID s))"
  using wf.keeps_processJob [OF assms] fr.keeps_processJob [OF pushFrame_refl] by blast

section \<open>What a finished job records\<close>

definition countStatus :: "string \<Rightarrow> PushJobPeer list \<Rightarrow> int" where
  "countStatus status rows = int (length (filter (\<lambda>r. jp_Status r = status) rows))"

definition settled :: "PushJobPeer list \<Rightarrow> bool" where
  "settled rows = list_all (\<lambda>r. jp_Status r = ''notified'' \<or> jp_Status r = ''failed'') rows"

lemma countStatus_append [simp]: "countStatus st (xs @ ys) = countStatus st xs + countStatus st ys"
  by (simp add: countStatus_def)

lemma settled_count: "settled rows \<Longrightarrow> countStatus ''notified'' rows + countStatus ''failed'' rows = int (length rows)"
  by (induction rows) (auto simp: settled_def countStatus_def)

lemma jobRows_bundles [simp]: "jobRows (db\<lparr>db_bundles := bs\<rparr>) jobID = jobRows db jobID"
  by (simp add: jobRows_def)

lemma jobRows_status:
  "jobRows (db\<lparr>db_pushJobPeers := map (\<lambda>r. if jp_JobID r = jobID then setPeerStatus pid st m r else r) (db_pushJobPeers db)\<rparr>) jobID =
     map (setPeerStatus pid st m) (jobRows db jobID)"
proof -
  have "filter (\<lambda>r. jp_JobID r = jobID) (map (\<lambda>r. if jp_JobID r = jobID then setPeerStatus pid st m r else r) rs) =
      map (setPeerStatus pid st m) (filter (\<lambda>r. jp_JobID r = jobID) rs)" for rs
    by (induction rs) simp_all
  then show ?thesis by (simp add: jobRows_def)
qed

lemma setPeerStatus_other: "pid \<notin> jp_PeerID ` set rows \<Longrightarrow> map (setPeerStatus pid st m) rows = rows"
  by (induction rows) (auto simp: setPeerStatus_def)

text \<open>The loop body for the next peer, with working statements: its row, and no other of the job, changes.\<close>

lemma logged_peerStatus:
  assumes "\<not> db_fails (pu_db s) (QPushJobPeerStatus jobID pid)"
    and "jobRows (pu_db s) jobID = pre @ p # post" and "distinct (map jp_PeerID (pre @ p # post))" and "pid = jp_PeerID p"
  shows "jobRows (pu_db (logged (UpdatePushJobPeerStatus jobID pid st m) s)) jobID = (pre @ [setPeerStatus pid st m p]) @ post"
    and "db_pushJobs (pu_db (logged (UpdatePushJobPeerStatus jobID pid st m) s)) = db_pushJobs (pu_db s)"
    and "db_fails (pu_db (logged (UpdatePushJobPeerStatus jobID pid st m) s)) = db_fails (pu_db s)"
proof -
  let ?db = "(pu_db s)\<lparr>db_pushJobPeers := map (\<lambda>r. if jp_JobID r = jobID then setPeerStatus pid st m r else r) (db_pushJobPeers (pu_db s))\<rparr>"
  have eq: "pu_db (logged (UpdatePushJobPeerStatus jobID pid st m) s) = ?db"
    using assms(1) by (simp add: logged_def ignoreS_def UpdatePushJobPeerStatus_def wrapS_def execS_def)
  have "pid \<notin> jp_PeerID ` set pre" "pid \<notin> jp_PeerID ` set post" using assms(3,4) by auto
  then show "jobRows (pu_db (logged (UpdatePushJobPeerStatus jobID pid st m) s)) jobID = (pre @ [setPeerStatus pid st m p]) @ post"
    unfolding eq jobRows_status assms(2) by (simp add: setPeerStatus_other)
  show "db_pushJobs (pu_db (logged (UpdatePushJobPeerStatus jobID pid st m) s)) = db_pushJobs (pu_db s)"
    and "db_fails (pu_db (logged (UpdatePushJobPeerStatus jobID pid st m) s)) = db_fails (pu_db s)" by (simp_all add: eq)
qed

lemma notify_db [simp]: "pu_db (notifyProgress E ev s) = pu_db s" "pu_db (triggerAlert E a s) = pu_db s"
  by (simp_all add: notifyProgress_def triggerAlert_def)

text \<open>The rows of the job split into those already settled, with their counts, and those to come.\<close>

definition loopInv :: "string \<Rightarrow> (query \<Rightarrow> bool) \<Rightarrow> PushJob list \<Rightarrow> PushJobPeer list \<Rightarrow> PushJobPeer list \<Rightarrow> int \<Rightarrow> int \<Rightarrow> pushState \<Rightarrow> bool" where
  "loopInv jobID fails jobs pre peers n k s \<longleftrightarrow>
     jobRows (pu_db s) jobID = pre @ peers \<and> distinct (map jp_PeerID (pre @ peers)) \<and> settled pre \<and>
     n = countStatus ''notified'' pre \<and> k = countStatus ''failed'' pre \<and> db_fails (pu_db s) = fails \<and> db_pushJobs (pu_db s) = jobs"

lemma loopInv_status:
  assumes inv: "loopInv jobID fails jobs pre (p # peers) n k s" and ok: "\<And>pid. \<not> fails (QPushJobPeerStatus jobID pid)"
    and st: "st = ''notified'' \<or> st = ''failed''" and s': "pu_db s' = pu_db (logged (UpdatePushJobPeerStatus jobID (jp_PeerID p) st m) s)"
  shows "loopInv jobID fails jobs (pre @ [setPeerStatus (jp_PeerID p) st m p]) peers
    (if st = ''notified'' then n + 1 else n) (if st = ''notified'' then k else k + 1) s'"
proof -
  from inv ok have "\<not> db_fails (pu_db s) (QPushJobPeerStatus jobID (jp_PeerID p))" by (simp add: loopInv_def)
  note upd = logged_peerStatus [OF this, of pre p peers st m, folded s']
  have r: "jobRows (pu_db s) jobID = pre @ p # peers" "distinct (map jp_PeerID (pre @ p # peers))"
    using inv by (simp_all add: loopInv_def)
  show ?thesis
    using inv st upd(1) [OF r refl] upd(2) [OF r refl] upd(3) [OF r refl]
    by (auto simp: loopInv_def settled_def countStatus_def setPeerStatus_def)
qed

lemma loopInv_bundle: "loopInv jobID fails jobs pre peers n k s \<Longrightarrow>
    loopInv jobID fails jobs pre peers n k (s\<lparr>pu_db := (pu_db s)\<lparr>db_bundles := bs\<rparr>\<rparr>)"
  by (simp add: loopInv_def)

lemma pushPeers_counts:
  assumes "pushPeers E jobID tot peers n k s = (ab, n', k', s')" and "loopInv jobID fails jobs pre peers n k s"
    and ok: "\<And>pid. \<not> fails (QPushJobPeerStatus jobID pid)" and ctx: "\<And>pid. \<not> px_ctxDone E jobID pid"
  shows "\<not> ab \<and> (\<exists>rows. loopInv jobID fails jobs rows [] n' k' s' \<and> map jp_PeerID rows = map jp_PeerID (pre @ peers))"
  using assms(1,2)
proof (induction peers arbitrary: n k s pre)
  case (Cons p peers)
  let ?s1 = "notifyProgress E (PeerProcessing jobID (jp_PeerID p) tot n k) s"
  let ?c = "CompileAndStore (px_crypto E) (pu_db ?s1) (px_now E jobID (jp_PeerID p)) (jp_PeerID p)"
  have s1: "loopInv jobID fails jobs pre (p # peers) n k ?s1" using Cons.prems(2) by (simp add: loopInv_def)
  have next_failed: ?case
    if "loopInv jobID fails jobs pre (p # peers) n k u"
      and "pushPeers E jobID tot peers n (k + 1) (peerFailed E jobID tot p m n (k + 1) u) = (ab, n', k', s')" for u m
    using Cons.IH [OF that(2)] loopInv_status [OF that(1) ok, where st = "''failed''" and m = m and s' = "peerFailed E jobID tot p m n (k + 1) u"]
    by (fastforce simp: peerFailed_def)
  have next_ok: ?case
    if "loopInv jobID fails jobs pre (p # peers) n k u"
      and "pushPeers E jobID tot peers (n + 1) k (peerNotified E jobID tot p v (n + 1) k u) = (ab, n', k', s')" for u v
    using Cons.IH [OF that(2)] loopInv_status [OF that(1) ok, where st = "''notified''" and m = "[]" and s' = "peerNotified E jobID tot p v (n + 1) k u"]
    by (fastforce simp: peerNotified_def)
  show ?case
  proof (cases ?c)
    case (Inl e)
    then show ?thesis using next_failed [OF s1, of "errorText e"] Cons.prems(1) ctx by (simp add: Let_def)
  next
    case (Inr res)
    then obtain db' row where c: "?c = Inr (db', row)" by (cases res) simp
    have s2: "loopInv jobID fails jobs pre (p # peers) n k (?s1\<lparr>pu_db := db'\<rparr>)"
      using loopInv_bundle [OF s1] CompileAndStore_Inr [OF c] by simp
    show ?thesis
      using next_failed [OF s2, of deliveryError] next_ok [OF s2, of "b_version row"] Cons.prems(1) ctx c by (simp add: Let_def split: if_splits)
  qed
qed auto

lemma jobRows_distinct: "wf_push db \<Longrightarrow> distinct (map jp_PeerID (jobRows db jobID))"
proof -
  assume "wf_push db"
  then have "distinct (map (\<lambda>r. (jp_JobID r, jp_PeerID r)) (jobRows db jobID))"
    unfolding wf_push_def jobRows_def by (blast intro: distinct_map_filter)
  then show ?thesis by (auto simp: distinct_map inj_on_def jobRows_def)
qed

lemma logged_job:
  assumes "\<not> db_fails (pu_db s) q"
  shows "pu_db (logged (wrapS msg (execS q f)) s) = f (pu_db s)"
  using assms by (simp add: logged_def ignoreS_def wrapS_def execS_def)

lemma updateJob_row:
  assumes "job \<in> set jobs" and "db_pushJobs db = map (\<lambda>j. if j_ID j = j_ID job then g j else j) jobs" and "\<And>j. j_ID (g j) = j_ID j"
  shows "f (g job) \<in> set (db_pushJobs (updateJob (j_ID job) f db))"
  using assms by (force simp: updateJob_def)


text \<open>
  A job whose context is found done before its first peer is recorded as completed
  without errors, with no peer notified or failed and every peer as it was, and no event reports
  the end.
\<close>

theorem processJob_aborted:
  assumes g: "GetPushJobWithPeers (pu_db s) jobID = Inr (job, peer # peers)" and ctx: "px_ctxDone E jobID (jp_PeerID peer)"
    and ok: "\<And>q. \<not> db_fails (pu_db s) q" and deps: "px_compiler E" "px_hub E"
  shows "pu_db (processJob E jobID s) = updateJob jobID (\<lambda>j. j\<lparr>j_CompletedAt := Some (px_finish E jobID), j_Status := ''completed'',
      j_Succeeded := 0, j_Failed := 0\<rparr>) (updateJob jobID (\<lambda>j. j\<lparr>j_Status := ''running''\<rparr>) (pu_db s)) \<and>
    pu_events (processJob E jobID s) = pu_events s"
proof -
  have db1: "pu_db (logged (UpdatePushJobStatus jobID ''running'') s) = updateJob jobID (\<lambda>j. j\<lparr>j_Status := ''running''\<rparr>) (pu_db s)"
    unfolding UpdatePushJobStatus_def by (rule logged_job [OF ok])
  then have "\<not> db_fails (pu_db (logged (UpdatePushJobStatus jobID ''running'') s)) (QFinalizePushJob jobID)"
    using ok by (simp add: updateJob_def)
  from logged_job [OF this] db1 show ?thesis
    using g ctx deps by (simp add: processJob_def FinalizePushJobWithCounts_def finalStatusOf_def) (simp add: logged_def)
qed

section \<open>The push worker keeps the contract\<close>

definition pushInv :: "pushState \<Rightarrow> bool" where
  "pushInv s = wf_push (pu_db s)"

interpretation pw: job_worker "processJob E" Enqueue pushInv for E
proof
  show "pushInv (processJob E x d)" if "pushInv d" for d x
    using that wf.keeps_processJob by (simp add: pushInv_def)
  show "(r = None \<and> w' = send x w \<and> hasRoom w \<and> \<not> wk_stopped w \<and> \<not> isDoneClosed w) \<or>
      (\<exists>d'. w' = w\<lparr>wk_data := d'\<rparr> \<and> (pushInv (wk_data w) \<longrightarrow> pushInv d'))"
    if "Enqueue x w = (r, w')" for x w r w'
    using that by (auto simp: Enqueue_def split: if_splits intro: exI [of _ "wk_data w"])
qed

definition pushReaches :: "pushEnv \<Rightarrow> database \<Rightarrow> pushWorker \<Rightarrow> bool" where
  "pushReaches E db w = reaches (processJob E) Enqueue pushInv \<lparr>pu_db = db, pu_events = [], pu_alerts = []\<rparr> w"

text \<open>
  In every reachable state of the push worker the jobs accepted are those processed,
  the one in work and those waiting, in this order; the depth of the queue is within its capacity;
  and a worker that has exited without being cancelled has processed every accepted job.
\<close>

theorem pushWorker_fifo:
  assumes "pushReaches E db w"
  shows "wk_acked w = wk_processed w @ busyWork (wk_pc w) @ wk_queue w \<and> QueueDepth w \<le> QueueCapacity w \<and>
    (wk_pc w = Exited \<and> \<not> wk_cancelled w \<longrightarrow> wk_processed w = wk_acked w)"
  using pw.fifo [OF assms [unfolded pushReaches_def]] pw.exited_processed [OF assms [unfolded pushReaches_def]]
  by (simp add: QueueDepth_def QueueCapacity_def)

text \<open>
  An enqueue either accepts the job or answers with an error that callers recognise as
  a full queue, and then leaves the worker as it was; it accepts exactly when the worker is not
  stopped, has not exited and has room.
\<close>

theorem Enqueue_outcome:
  "Enqueue jobID w = (None, send jobID w) \<and> \<not> wk_stopped w \<and> \<not> isDoneClosed w \<and> QueueDepth w < QueueCapacity w \<or>
   (\<exists>e. Enqueue jobID w = (Some e, w) \<and> errIs e ErrPushQueueFull \<and>
      (wk_stopped w \<or> isDoneClosed w \<or> QueueDepth w \<ge> QueueCapacity w))"
  by (auto simp: Enqueue_def QueueDepth_def QueueCapacity_def hasRoom_def)

section \<open>Instances\<close>

definition exPushDB :: database where
  "exPushDB = exDB\<lparr>db_pushJobs := [\<lparr>j_ID = ''j'', j_InitiatedBy = ''admin'', j_TotalPeers = 2, j_Succeeded = 0, j_Failed = 0,
       j_Status = ''pending'', j_CompletedAt = None\<rparr>],
     db_pushJobPeers := [jobPeerRow ''j'' (1, ''a''), jobPeerRow ''j'' (2, ''b'')]\<rparr>"

definition exPushEnv :: "bool \<Rightarrow> pushEnv" where
  "exPushEnv done = \<lparr>px_crypto = exCrypto, px_now = (\<lambda>_ _. ''now''), px_finish = (\<lambda>_. ''then''),
     px_deliver = (\<lambda>h _. if h = ''host-a'' then NotifySent else NotifyNotConnected), px_ctxDone = (\<lambda>_ _. done),
     px_compiler = True, px_hub = True, px_alerts = True\<rparr>"

definition exPush :: pushState where
  "exPush = \<lparr>pu_db = exPushDB, pu_events = [], pu_alerts = []\<rparr>"

lemma exPush_wf: "wf_push (pu_db exPush)"
  by code_simp

lemma exPush_ok: "\<not> db_fails (pu_db exPush) q"
  by (simp add: exPush_def exPushDB_def exDB_def)

theorem processJob_only_pushes_witness: "wf_push (pu_db (processJob (exPushEnv False) ''j'' exPush))"
  using processJob_only_pushes [OF exPush_wf] by blast


theorem processJob_aborted_witness: "pu_events (processJob (exPushEnv True) ''j'' exPush) = []"
proof -
  have "GetPushJobWithPeers (pu_db exPush) ''j'' = Inr (hd (db_pushJobs exPushDB), [jobPeerRow ''j'' (1, ''a''), jobPeerRow ''j'' (2, ''b'')])"
    by (simp add: GetPushJobWithPeers_def GetPushJob_def queryRow_def queryRows_def jobRows_def exPush_def exPushDB_def exDB_def jobPeerRow_def)
  from processJob_aborted [OF this, of "exPushEnv True"] exPush_ok show ?thesis
    by (simp add: exPushEnv_def) (simp add: exPush_def)
qed

lemma exPush_reaches: "pushReaches (exPushEnv False) exPushDB (NewPushWorker exPushDB)"
  using exPush_wf by (simp add: pushReaches_def reaches_def NewPushWorker_def pushInv_def exPush_def)

theorem pushWorker_fifo_witness: "wk_acked (NewPushWorker exPushDB) = [] \<and> QueueDepth (NewPushWorker exPushDB) \<le> 100"
  using pushWorker_fifo [OF exPush_reaches] by (simp add: NewPushWorker_def newWorker_def QueueCapacity_def workChCap_def)

end
