(* ===== verification/Iptparse.thy ===== *)
theory Iptparse
  imports Rules
begin

text \<open>
  The parser of \<^verbatim>\<open>iptables-save\<close> output (\<^verbatim>\<open>internal/iptparse\<close>), which feeds the
  importer. The scan over the tokens keeps the source's index arithmetic: a handler of a module
  returns the index of the last token it has read.
\<close>

section \<open>Data\<close>

record IpsetMatch =
  im_Name :: string
  im_Direction :: string

record ParsedRule =
  pr_Chain :: string
  pr_Order :: int
  pr_Raw :: string
  pr_Protocol :: string
  pr_SourceIP :: string
  pr_DestIP :: string
  pr_SourcePort :: string
  pr_DestPort :: string
  pr_InInterface :: string
  pr_OutInterface :: string
  pr_IpsetMatch :: "IpsetMatch option"
  pr_ConntrackStates :: "string list"
  pr_Target :: string
  pr_IsRunicStandard :: bool
  pr_IsClean :: bool
  pr_SkipReason :: string
  pr_Comment :: string
  pr_PktType :: string
  pr_Warnings :: "string list"

record ParsedChain =
  pc_Name :: string
  pc_Rules :: "ParsedRule list"
  pc_Warnings :: "string list"

definition supportedModules :: "string list" where
  "supportedModules =
     [''set'', ''conntrack'', ''tcp'', ''udp'', ''icmp'', ''comment'', ''multiport'', ''pkttype'']"

section \<open>Module parameters\<close>

type_synonym handler = "ParsedRule \<Rightarrow> string list \<Rightarrow> nat \<Rightarrow> ParsedRule \<times> nat"

text \<open>The handlers that store one value: they skip the flag and read the token after it.\<close>

definition valueHandler :: "(string \<Rightarrow> ParsedRule \<Rightarrow> ParsedRule) \<Rightarrow> handler" where
  "valueHandler store rule ts i =
     (let j = i + 2 in if j < length ts then (store (ts ! j) rule, j) else (rule, j))"

definition matchSetHandler :: handler where
  "matchSetHandler rule ts i =
     (let j = i + 2 in
      if j + 1 < length ts
      then (rule\<lparr>pr_IpsetMatch := Some \<lparr>im_Name = ts ! j, im_Direction = ts ! (j + 1)\<rparr>\<rparr>, j + 1)
      else (rule, j))"

definition storeDestPort :: "string \<Rightarrow> ParsedRule \<Rightarrow> ParsedRule" where
  "storeDestPort v rule = rule\<lparr>pr_DestPort := v\<rparr>"

definition storeSourcePort :: "string \<Rightarrow> ParsedRule \<Rightarrow> ParsedRule" where
  "storeSourcePort v rule = rule\<lparr>pr_SourcePort := v\<rparr>"

definition storeStates :: "string \<Rightarrow> ParsedRule \<Rightarrow> ParsedRule" where
  "storeStates v rule =
     rule\<lparr>pr_ConntrackStates := pr_ConntrackStates rule @
       filter (\<lambda>s. s \<noteq> []) (map trimSpace (splitByte CHR '','' v))\<rparr>"

text \<open>A nil map of handlers is \<^const>\<open>None\<close>; otherwise the map is an association list.\<close>

definition moduleHandlers :: "string \<Rightarrow> (string \<times> handler) list option" where
  "moduleHandlers m =
     (if m = ''set'' then Some [(''--match-set'', matchSetHandler)]
      else if m = ''conntrack'' then Some [(''--ctstate'', valueHandler storeStates)]
      else if m = ''tcp'' \<or> m = ''udp''
      then Some [(''--dport'', valueHandler storeDestPort), (''--sport'', valueHandler storeSourcePort)]
      else if m = ''comment''
      then Some [(''--comment'', valueHandler (\<lambda>v rule. rule\<lparr>pr_Comment := trimByte CHR 0x22 v\<rparr>))]
      else if m = ''multiport''
      then Some [(''--dports'', valueHandler storeDestPort), (''--sports'', valueHandler storeSourcePort)]
      else if m = ''pkttype''
      then Some [(''--pkt-type'', valueHandler (\<lambda>v rule. rule\<lparr>pr_PktType := v\<rparr>))]
      else None)"

definition handlerOf :: "string \<Rightarrow> string \<Rightarrow> handler option" where
  "handlerOf m flag = (case moduleHandlers m of None \<Rightarrow> None | Some hs \<Rightarrow> map_of hs flag)"

lemma handlerOf_advances:
  assumes "handlerOf m flag = Some fn" "fn rule ts i = (rule', i')"
  shows "i < i'"
  using assms
  by (auto simp: handlerOf_def moduleHandlers_def valueHandler_def matchSetHandler_def Let_def
      split: if_splits option.splits)

definition blockEnds :: "string list" where
  "blockEnds = [''-m'', ''-j'', ''-p'', ''-s'', ''-d'', ''-i'', ''-o'']"

function parseModuleParams :: "string list \<Rightarrow> nat \<Rightarrow> string \<Rightarrow> ParsedRule \<Rightarrow> ParsedRule \<times> nat" where
  "parseModuleParams tokens i m rule =
     (if i + 1 < length tokens then
        (if tokens ! (i + 1) \<in> set blockEnds then (rule, i)
         else case handlerOf m (tokens ! (i + 1)) of
           Some fn \<Rightarrow> (case fn rule tokens i of (rule', i') \<Rightarrow> parseModuleParams tokens i' m rule')
         | None \<Rightarrow> parseModuleParams tokens (i + 1) m rule)
      else (rule, i))"
  by pat_completeness auto
termination
proof (relation "measure (\<lambda>(tokens, i, m, rule). length tokens - i)", goal_cases)
  case (3 tokens i m rule fn r i')
  then have "i < i'" using handlerOf_advances [of m "tokens ! (i + 1)" fn rule tokens i r i'] by simp
  with 3 show ?case by simp
qed auto

declare parseModuleParams.simps [simp del]

text \<open>What every handler and every skipped token preserve, the whole block preserves.\<close>

lemma parseModuleParams_invariant:
  assumes "parseModuleParams tokens i m rule = (rule', i')" and "P i rule"
    and handler: "\<And>flag fn ts i rule r j. handlerOf m flag = Some fn \<Longrightarrow> fn rule ts i = (r, j) \<Longrightarrow> P i rule \<Longrightarrow> P j r"
    and skip: "\<And>i rule. P i rule \<Longrightarrow> P (i + 1) rule"
  shows "P i' rule'"
  using assms(1,2) handler
proof (induction tokens i m rule rule: parseModuleParams.induct)
  case (1 tokens i m rule)
  show ?case
  proof (cases "i + 1 < length tokens \<and> tokens ! (i + 1) \<notin> set blockEnds")
    case False
    with "1.prems" show ?thesis by (auto simp: parseModuleParams.simps [of tokens i] split: if_splits)
  next
    case ok: True
    show ?thesis
    proof (cases "handlerOf m (tokens ! (i + 1))")
      case None
      with ok "1.prems" have "parseModuleParams tokens (i + 1) m rule = (rule', i')"
        by (simp add: parseModuleParams.simps [of tokens i])
      with "1.IH"(1) [OF _ _ None] ok skip [OF "1.prems"(2)] "1.prems"(3) show ?thesis by blast
    next
      case (Some fn)
      obtain r j where fn: "fn rule tokens i = (r, j)" by (cases "fn rule tokens i")
      with Some ok "1.prems" have "parseModuleParams tokens j m r = (rule', i')"
        by (simp add: parseModuleParams.simps [of tokens i])
      then show ?thesis
        using "1.IH"(2) [OF _ _ Some fn [symmetric]] ok "1.prems"(3) [OF Some fn "1.prems"(2)] "1.prems"(3) by blast
    qed
  qed
qed

lemma parseModuleParams_advances: "parseModuleParams tokens i m rule = (rule', i') \<Longrightarrow> i \<le> i'"
  by (erule parseModuleParams_invariant [where P = "\<lambda>j _. i \<le> j"]) (auto dest: handlerOf_advances)

section \<open>One rule\<close>

definition completenessError :: "ParsedRule \<Rightarrow> string" where
  "completenessError rule =
     (if pr_Target rule = [] then ''rule missing target (-j)''
      else if pr_Protocol rule = [] \<and> pr_SourceIP rule = [] \<and> pr_DestIP rule = [] \<and>
              pr_SourcePort rule = [] \<and> pr_DestPort rule = [] \<and> pr_InInterface rule = [] \<and>
              pr_OutInterface rule = [] \<and> pr_IpsetMatch rule = None \<and> pr_ConntrackStates rule = [] \<and>
              pr_Comment rule = [] \<and> pr_PktType rule = []
      then ''rule has no match criteria '' @ [CHR 0xE2, CHR 0x80, CHR 0x94] @ '' possibly truncated''
      else [])"

definition hasConntrackState :: "ParsedRule \<Rightarrow> string \<Rightarrow> bool" where
  "hasConntrackState rule state = list_ex (\<lambda>s. s = state) (pr_ConntrackStates rule)"

definition isRunicStandard :: "ParsedRule \<Rightarrow> bool" where
  "isRunicStandard rule =
     (if pr_Target rule = ''ACCEPT'' \<and> (pr_InInterface rule = ''lo'' \<or> pr_OutInterface rule = ''lo'') then True
      else if pr_Protocol rule = ''icmp'' \<and> pr_Target rule = ''ACCEPT'' \<and> hasConntrackState rule ''RELATED'' then True
      else if pr_Target rule = ''ACCEPT'' \<and> hasConntrackState rule ''ESTABLISHED'' \<and> hasConntrackState rule ''RELATED''
      then True
      else if pr_Target rule = ''DROP'' \<and> hasConntrackState rule ''INVALID'' then True
      else case pr_IpsetMatch rule of None \<Rightarrow> False | Some im \<Rightarrow> hasPrefix (im_Name im) ''runic_'')"

definition unclean :: "ParsedRule \<Rightarrow> string \<Rightarrow> ParsedRule" where
  "unclean rule reason = rule\<lparr>pr_IsClean := False, pr_SkipReason := reason\<rparr>"

definition classifyRule :: "ParsedRule \<Rightarrow> string list \<Rightarrow> ParsedRule" where
  "classifyRule rule modules =
     (if isRunicStandard rule then (unclean rule ''runic standard rule'')\<lparr>pr_IsRunicStandard := True\<rparr>
      else if pr_InInterface rule \<noteq> [] then unclean rule ''interface match not supported''
      else if pr_OutInterface rule \<noteq> [] \<and> \<not> (pr_Chain rule = ''DOCKER-USER'' \<and> pr_OutInterface rule = ''docker0'')
      then unclean rule ''interface match not supported''
      else if pr_Target rule \<noteq> ''ACCEPT'' \<and> pr_Target rule \<noteq> ''DROP''
      then unclean rule (''unsupported target: '' @ pr_Target rule)
      else if list_ex (\<lambda>s. s \<noteq> ''NEW'') (pr_ConntrackStates rule)
      then unclean rule (''conntrack states not supported: '' @ join '','' (pr_ConntrackStates rule))
      else case find (\<lambda>m. m \<notin> set supportedModules) modules of
        Some m \<Rightarrow> unclean rule (''unsupported module: '' @ m)
      | None \<Rightarrow> rule\<lparr>pr_IsClean := True, pr_SkipReason := []\<rparr>)"

text \<open>
  The flags that take one value, with the field they set. A flag at the end of the line is read
  and stores nothing.
\<close>

definition basicFlag :: "string \<Rightarrow> (string \<Rightarrow> ParsedRule \<Rightarrow> ParsedRule) option" where
  "basicFlag tok =
     (if tok = ''-p'' then Some (\<lambda>v rule. rule\<lparr>pr_Protocol := v\<rparr>)
      else if tok = ''-s'' then Some (\<lambda>v rule. rule\<lparr>pr_SourceIP := v\<rparr>)
      else if tok = ''-d'' then Some (\<lambda>v rule. rule\<lparr>pr_DestIP := v\<rparr>)
      else if tok = ''--sport'' then Some storeSourcePort
      else if tok = ''--dport'' then Some storeDestPort
      else if tok = ''-i'' then Some (\<lambda>v rule. rule\<lparr>pr_InInterface := v\<rparr>)
      else if tok = ''-o'' then Some (\<lambda>v rule. rule\<lparr>pr_OutInterface := v\<rparr>)
      else if tok = ''-j'' then Some (\<lambda>v rule. rule\<lparr>pr_Target := v\<rparr>)
      else None)"

definition warnToken :: "string \<Rightarrow> ParsedRule \<Rightarrow> ParsedRule" where
  "warnToken tok rule = rule\<lparr>pr_Warnings := pr_Warnings rule @ [''unrecognized token: '' @ tok]\<rparr>"

text \<open>The switch on one token: the rule, the modules and the index it leaves behind.\<close>

definition tokenStep :: "string list \<Rightarrow> nat \<Rightarrow> ParsedRule \<Rightarrow> string list \<Rightarrow> ParsedRule \<times> string list \<times> nat" where
  "tokenStep tokens i rule modules =
     (case basicFlag (tokens ! i) of
        Some store \<Rightarrow>
          (if i + 1 < length tokens then store (tokens ! (i + 1)) rule else rule, modules, i + 1)
      | None \<Rightarrow>
          if tokens ! i = ''-m'' then
            (if i + 1 < length tokens then
               (let m = tokens ! (i + 1) in
                if moduleHandlers m \<noteq> None
                then (case parseModuleParams tokens (i + 1) m rule of (rule', i') \<Rightarrow> (rule', modules @ [m], i'))
                else (rule, modules @ [m], i + 1))
             else (rule, modules, i + 1))
          else (warnToken (tokens ! i) rule, modules, i))"

lemma tokenStep_advances:
  assumes "tokenStep tokens i rule modules = (rule', modules', i')"
  shows "i \<le> i'"
  using assms parseModuleParams_advances [of tokens "i + 1"]
  by (fastforce simp: tokenStep_def Let_def split: option.splits if_splits prod.splits)

function parseTokens :: "string list \<Rightarrow> nat \<Rightarrow> ParsedRule \<Rightarrow> string list \<Rightarrow> ParsedRule \<times> string list" where
  "parseTokens tokens i rule modules =
     (if i < length tokens then
        (case tokenStep tokens i rule modules of
           (rule', modules', i') \<Rightarrow> parseTokens tokens (i' + 1) rule' modules')
      else (rule, modules))"
  by pat_completeness auto
termination
proof (relation "measure (\<lambda>(tokens, i, rule, modules). length tokens - i)", goal_cases)
  case (2 tokens i rule modules rule' t modules' i')
  then have "i \<le> i'" using tokenStep_advances [of tokens i rule modules rule' modules' i'] by simp
  with 2 show ?case by simp
qed auto

declare parseTokens.simps [simp del]

definition newRule :: "string \<Rightarrow> string \<Rightarrow> int \<Rightarrow> ParsedRule" where
  "newRule line chain order =
     \<lparr>pr_Chain = chain, pr_Order = order, pr_Raw = line, pr_Protocol = [], pr_SourceIP = [], pr_DestIP = [],
      pr_SourcePort = [], pr_DestPort = [], pr_InInterface = [], pr_OutInterface = [], pr_IpsetMatch = None,
      pr_ConntrackStates = [], pr_Target = [], pr_IsRunicStandard = False, pr_IsClean = False,
      pr_SkipReason = [], pr_Comment = [], pr_PktType = [], pr_Warnings = []\<rparr>"

definition parseRule :: "string \<Rightarrow> string \<Rightarrow> int \<Rightarrow> ParsedRule" where
  "parseRule line chain order =
     (let tokens = stringFields (trimPrefix line (''-A '' @ chain @ '' ''));
          (rule, modules) = parseTokens tokens 0 (newRule line chain order) [];
          reason = completenessError rule;
          rule = (if reason \<noteq> [] then rule\<lparr>pr_Warnings := pr_Warnings rule @ [reason]\<rparr> else rule)
      in classifyRule rule modules)"

section \<open>The whole output\<close>

text \<open>The chain and the trimmed text of a line that is a rule of one of the requested chains.\<close>

definition ruleLine :: "string list \<Rightarrow> string \<Rightarrow> (string \<times> string) option" where
  "ruleLine wanted line =
     (let trimmed = trimSpace line in
      if trimmed = [] \<or> hasPrefix trimmed ''#'' \<or> hasPrefix trimmed '':'' \<or> hasPrefix trimmed ''*'' \<or> trimmed = ''COMMIT''
      then None
      else if \<not> hasPrefix trimmed ''-A '' then None
      else let parts = stringFields trimmed in
        if length parts < 2 then None
        else if parts ! 1 \<notin> set wanted then None
        else Some (parts ! 1, trimmed))"

text \<open>
  The map \<^verbatim>\<open>chainRules\<close> with the slice \<^verbatim>\<open>chainOrder\<close> is one association list in the
  order of first occurrence.
\<close>

fun addRule :: "(string \<times> string list) list \<Rightarrow> string \<times> string \<Rightarrow> (string \<times> string list) list" where
  "addRule [] (chain, raw) = [(chain, [raw])]"
| "addRule ((c, rules) # m) (chain, raw) =
     (if c = chain then (c, rules @ [raw]) # m else (c, rules) # addRule m (chain, raw))"

definition buildChain :: "string \<times> string list \<Rightarrow> ParsedChain" where
  "buildChain x =
     \<lparr>pc_Name = fst x,
      pc_Rules = map (\<lambda>(i, raw). parseRule raw (fst x) (int i)) (enumerate 1 (snd x)),
      pc_Warnings = []\<rparr>"

definition ruleLines :: "string \<Rightarrow> string list \<Rightarrow> (string \<times> string) list" where
  "ruleLines out wanted = List.map_filter (ruleLine wanted) (splitByte NL out)"

definition Parse :: "string \<Rightarrow> string list \<Rightarrow> ParsedChain list res" where
  "Parse out wanted = Inr (map buildChain (foldl addRule [] (ruleLines out wanted)))"

definition Validate :: "string \<Rightarrow> unit res" where
  "Validate out =
     (if trimSpace out = [] then Inl (Leaf ''empty iptables-save output'')
      else
        let trimmed = map trimSpace (splitByte NL out) in
        if \<not> list_ex (\<lambda>l. hasPrefix l '':'') trimmed
        then Inl (Leaf ''missing chain definitions in iptables-save output'')
        else if \<not> list_ex (\<lambda>l. hasPrefix l ''-A '') trimmed
        then Inl (Leaf ''no rules found in iptables-save output'')
        else Inr ())"

section \<open>Rules are neither lost nor reordered\<close>

text \<open>The identity of a rule, which no step of the scan changes.\<close>

definition ruleKey :: "ParsedRule \<Rightarrow> string \<times> string \<times> int \<times> bool" where
  "ruleKey rule = (pr_Raw rule, pr_Chain rule, pr_Order rule, pr_IsRunicStandard rule)"

lemma valueHandler_key:
  "(\<And>v r. ruleKey (store v r) = ruleKey r) \<Longrightarrow> ruleKey (fst (valueHandler store rule ts i)) = ruleKey rule"
  by (simp add: valueHandler_def Let_def)

lemma matchSetHandler_key: "ruleKey (fst (matchSetHandler rule ts i)) = ruleKey rule"
  by (simp add: matchSetHandler_def Let_def ruleKey_def)

lemma store_key [simp]:
  "ruleKey (storeStates v rule) = ruleKey rule" "ruleKey (storeDestPort v rule) = ruleKey rule"
  "ruleKey (storeSourcePort v rule) = ruleKey rule" "ruleKey (rule\<lparr>pr_Comment := v\<rparr>) = ruleKey rule"
  "ruleKey (rule\<lparr>pr_PktType := v\<rparr>) = ruleKey rule" "ruleKey (rule\<lparr>pr_Warnings := ws\<rparr>) = ruleKey rule"
  by (simp_all add: ruleKey_def storeStates_def storeDestPort_def storeSourcePort_def)

lemma handlerOf_key: "handlerOf m flag = Some fn \<Longrightarrow> ruleKey (fst (fn rule ts i)) = ruleKey rule"
  by (auto simp: handlerOf_def moduleHandlers_def matchSetHandler_key valueHandler_key split: if_splits)

lemma parseModuleParams_keeps:
  assumes "parseModuleParams tokens i m rule = (rule', i')"
  shows "ruleKey rule' = ruleKey rule"
  using assms
proof (rule parseModuleParams_invariant [where P = "\<lambda>_ r. ruleKey r = ruleKey rule"])
  fix flag fn ts i r' r j
  assume "handlerOf m flag = Some fn" "fn r' ts i = (r, j)" "ruleKey r' = ruleKey rule"
  then show "ruleKey r = ruleKey rule" using handlerOf_key [of m flag fn r' ts i] by simp
qed simp_all

lemma basicFlag_keeps: "basicFlag tok = Some store \<Longrightarrow> ruleKey (store v rule) = ruleKey rule"
  by (auto simp: basicFlag_def storeDestPort_def storeSourcePort_def ruleKey_def split: if_splits)

lemma warnToken_keeps [simp]: "ruleKey (warnToken tok rule) = ruleKey rule"
  by (simp add: warnToken_def ruleKey_def)

lemma tokenStep_keeps:
  assumes "tokenStep tokens i rule modules = (rule', modules', i')"
  shows "ruleKey rule' = ruleKey rule"
proof (cases "basicFlag (tokens ! i)")
  case (Some store)
  with assms basicFlag_keeps [OF Some] show ?thesis by (auto simp: tokenStep_def split: if_splits)
next
  case None
  with assms show ?thesis
    by (auto simp: tokenStep_def Let_def split: if_splits prod.splits dest: parseModuleParams_keeps)
qed

lemma parseTokens_keeps:
  "parseTokens tokens i rule modules = (rule', modules') \<Longrightarrow> ruleKey rule' = ruleKey rule"
proof (induction tokens i rule modules rule: parseTokens.induct)
  case (1 tokens i rule modules)
  obtain r ms j where t: "tokenStep tokens i rule modules = (r, ms, j)" by (metis prod_cases3)
  from 1(1) [OF _ t [symmetric] refl] 1(2) tokenStep_keeps [OF t] show ?case
    by (auto simp: t parseTokens.simps [of tokens i] split: if_splits)
qed

lemma classifyRule_keeps [simp]:
  "pr_Raw (classifyRule rule ms) = pr_Raw rule" "pr_Chain (classifyRule rule ms) = pr_Chain rule"
  "pr_Order (classifyRule rule ms) = pr_Order rule"
  by (auto simp: classifyRule_def unclean_def split: option.splits)

lemma parseRule_classifies:
  obtains rule ms where "parseRule line chain order = classifyRule rule ms" "ruleKey rule = (line, chain, order, False)"
proof -
  obtain rule ms where p: "parseTokens (stringFields (trimPrefix line (''-A '' @ chain @ '' ''))) 0 (newRule line chain order) []
      = (rule, ms)" by (metis surj_pair)
  have "ruleKey (newRule line chain order) = (line, chain, order, False)" by (simp add: newRule_def ruleKey_def)
  with parseTokens_keeps [OF p] have "ruleKey rule = (line, chain, order, False)" by simp
  then show ?thesis
    by (intro that [of "if completenessError rule \<noteq> [] then rule\<lparr>pr_Warnings := pr_Warnings rule @ [completenessError rule]\<rparr> else rule" ms])
       (simp_all add: parseRule_def p [simplified] Let_def)
qed

lemma parseRule_keeps [simp]:
  "pr_Raw (parseRule line chain order) = line" "pr_Chain (parseRule line chain order) = chain"
  "pr_Order (parseRule line chain order) = order"
  by (rule parseRule_classifies [of line chain order]; simp add: ruleKey_def)+

text \<open>The grouped lines, in closed form.\<close>

lemma addRule_closed:
  assumes "distinct (map fst m)"
  shows "map fst (addRule m (c, r)) = (if c \<in> fst ` set m then map fst m else map fst m @ [c]) \<and>
    distinct (map fst (addRule m (c, r))) \<and>
    map_of (addRule m (c, r)) d = (if d = c then Some ((case map_of m c of None \<Rightarrow> [] | Some rs \<Rightarrow> rs) @ [r]) else map_of m d)"
  using assms by (induction m "(c, r)" rule: addRule.induct) (auto split: if_splits)

lemma foldl_addRule:
  "map fst (foldl addRule [] xs) = dedup (map fst xs) \<and>
   (\<forall>c. map_of (foldl addRule [] xs) c =
     (if c \<in> fst ` set xs then Some (map snd (filter (\<lambda>x. fst x = c) xs)) else None))"
proof (induction xs rule: rev_induct)
  case (snoc x xs)
  obtain c r where x: "x = (c, r)" by (cases x)
  from snoc have d: "distinct (map fst (foldl addRule [] xs))" by simp
  have dom: "fst ` set (foldl addRule [] xs) = fst ` set xs"
    using snoc by (metis list.set_map set_dedup)
  show ?case
    using addRule_closed [OF d, of c r] snoc dom by (auto simp: x dedup_snoc filter_empty_conv)
qed (simp add: dedup_def)

lemma buildChain_rules:
  "pc_Name (buildChain (c, rs)) = c" "map pr_Raw (pc_Rules (buildChain (c, rs))) = rs"
  "length (pc_Rules (buildChain (c, rs))) = length rs"
  "map pr_Order (pc_Rules (buildChain (c, rs))) = map int [1..<Suc (length rs)]"
  "list_all (\<lambda>r. pr_Chain r = c) (pc_Rules (buildChain (c, rs)))"
proof -
  have e: "map pr_Raw (map (\<lambda>(i, raw). parseRule raw c (int i)) (enumerate k rs)) = rs \<and>
      map pr_Order (map (\<lambda>(i, raw). parseRule raw c (int i)) (enumerate k rs)) = map int [k..<k + length rs] \<and>
      list_all (\<lambda>r. pr_Chain r = c) (map (\<lambda>(i, raw). parseRule raw c (int i)) (enumerate k rs))" for k
    by (induction rs arbitrary: k) (simp_all add: upt_conv_Cons del: upt_Suc)
  show "map pr_Raw (pc_Rules (buildChain (c, rs))) = rs"
    "map pr_Order (pc_Rules (buildChain (c, rs))) = map int [1..<Suc (length rs)]"
    "list_all (\<lambda>r. pr_Chain r = c) (pc_Rules (buildChain (c, rs)))"
    using e [of 1] by (simp_all add: buildChain_def del: upt_Suc)
qed (simp_all add: buildChain_def)

text \<open>
  C31 (PARSE): parsing is total and lossless on rule lines. The chains come in the order of their
  first rule, each once; the rules of a chain are exactly its rule lines, trimmed and in order,
  numbered from 1.
\<close>

theorem Parse_lossless:
  assumes "Parse out wanted = Inr pcs"
  shows "map pc_Name pcs = dedup (map fst (ruleLines out wanted)) \<and>
    (\<forall>pc \<in> set pcs. map pr_Raw (pc_Rules pc) = map snd (filter (\<lambda>x. fst x = pc_Name pc) (ruleLines out wanted)) \<and>
       map pr_Order (pc_Rules pc) = map int [1..<Suc (length (pc_Rules pc))] \<and>
       list_all (\<lambda>r. pr_Chain r = pc_Name pc) (pc_Rules pc))"
proof (intro conjI ballI)
  let ?m = "foldl addRule [] (ruleLines out wanted)"
  from assms have pcs: "pcs = map buildChain ?m" by (simp add: Parse_def)
  show "map pc_Name pcs = dedup (map fst (ruleLines out wanted))"
    using foldl_addRule by (simp add: pcs buildChain_def comp_def)
  fix pc
  assume "pc \<in> set pcs"
  then obtain c rs where pc: "pc = buildChain (c, rs)" and "(c, rs) \<in> set ?m" by (auto simp: pcs)
  moreover have "distinct (map fst ?m)" using foldl_addRule by simp
  ultimately have "map_of ?m c = Some rs" by simp
  then have rs: "rs = map snd (filter (\<lambda>x. fst x = c) (ruleLines out wanted))"
    using foldl_addRule [of "ruleLines out wanted"] by (auto split: if_splits)
  show "map pr_Raw (pc_Rules pc) = map snd (filter (\<lambda>x. fst x = pc_Name pc) (ruleLines out wanted))"
    unfolding pc buildChain_rules by (rule rs)
  show "map pr_Order (pc_Rules pc) = map int [1..<Suc (length (pc_Rules pc))]"
    and "list_all (\<lambda>r. pr_Chain r = pc_Name pc) (pc_Rules pc)"
    unfolding pc buildChain_rules(1) using buildChain_rules(3-5) [of c rs] by simp_all
qed

definition exSave :: string where
  "exSave = join [NL] [''*filter'', '':INPUT DROP'', ''-A INPUT -i lo -j ACCEPT'', ''-A OUTPUT -j DROP'',
     ''-A INPUT -s 10.0.0.9/32 -p tcp --dport 22 -j ACCEPT'', ''-A FORWARD -j DROP'', ''COMMIT'']"

theorem Parse_lossless_witness:
  "\<exists>pcs. Parse exSave [''INPUT'', ''OUTPUT''] = Inr pcs \<and> map pc_Name pcs = [''INPUT'', ''OUTPUT'']"
proof -
  obtain pcs where p: "Parse exSave [''INPUT'', ''OUTPUT''] = Inr pcs" by (simp add: Parse_def)
  moreover have "dedup (map fst (ruleLines exSave [''INPUT'', ''OUTPUT''])) = [''INPUT'', ''OUTPUT'']" by code_simp
  ultimately show ?thesis using Parse_lossless [OF p] by simp
qed

section \<open>Reading back what the compiler writes\<close>

text \<open>The tokens of the parts of a compiled rule.\<close>

definition portTokens :: "string \<Rightarrow> string \<Rightarrow> string list" where
  "portTokens flag ports =
     (if ports = [] then []
      else if containsByte ports CHR '','' \<or> containsByte ports CHR '':''
      then [''-m'', ''multiport'', ''--'' @ flag @ ''s'', ports] else [''--'' @ flag, ports])"

definition stateTokens :: "bool \<Rightarrow> string list" where
  "stateTokens noct = (if noct then [] else [''-m'', ''conntrack'', ''--ctstate'', ''NEW,ESTABLISHED''])"

lemma tokenChar_literals [simp]:
  "tokenChar CHR ''-''" "tokenChar CHR '',''" "tokenChar CHR ''!''" "tokenChar CHR ''_''" "tokenChar CHR ''A''"
  "tokenChar CHR ''B''" "tokenChar CHR ''C''" "tokenChar CHR ''D''" "tokenChar CHR ''E''" "tokenChar CHR ''H''"
  "tokenChar CHR ''I''" "tokenChar CHR ''L''" "tokenChar CHR ''N''" "tokenChar CHR ''P''" "tokenChar CHR ''S''"
  "tokenChar CHR ''T''" "tokenChar CHR ''W''" "tokenChar CHR ''a''" "tokenChar CHR ''c''" "tokenChar CHR ''d''"
  "tokenChar CHR ''e''" "tokenChar CHR ''g''" "tokenChar CHR ''h''" "tokenChar CHR ''i''" "tokenChar CHR ''j''"
  "tokenChar CHR ''k''" "tokenChar CHR ''l''" "tokenChar CHR ''m''" "tokenChar CHR ''n''" "tokenChar CHR ''o''"
  "tokenChar CHR ''p''" "tokenChar CHR ''r''" "tokenChar CHR ''s''" "tokenChar CHR ''t''" "tokenChar CHR ''u''"
  "tokenChar CHR ''v''"
  by (simp_all add: tokenChar_def)

text \<open>A prefix of a text that splits into given tokens wherever a space follows.\<close>

definition splitsTo :: "string \<Rightarrow> string list \<Rightarrow> bool" where
  "splitsTo s ts = (\<forall>rest. stringFields (s @ CHR '' '' # rest) = ts @ stringFields rest)"

lemma splitsTo_Nil [intro]: "splitsTo [] []"
  by (simp add: splitsTo_def)

lemma splitsTo_token [intro]: "isToken t \<Longrightarrow> splitsTo t [t]"
  by (simp add: splitsTo_def stringFields_token_space)

lemma splitsTo_append [intro]: "splitsTo s ts \<Longrightarrow> splitsTo s' ts' \<Longrightarrow> splitsTo (s @ CHR '' '' # s') (ts @ ts')"
  by (simp add: splitsTo_def)

lemma stringFields_splitsTo: "splitsTo s ts \<Longrightarrow> isToken t \<Longrightarrow> stringFields (s @ CHR '' '' # t) = ts @ [t]"
  by (simp add: splitsTo_def stringFields_token)

lemma splitsTo_matchText:
  assumes "flag = ''dport'' \<or> flag = ''sport''" "ports = [] \<or> isToken ports"
  shows "splitsTo (matchText flag ports) (portTokens flag ports)"
proof (cases "ports = []")
  case False
  with assms have "isToken ports" "isToken (''--'' @ flag)" "isToken (''--'' @ flag @ ''s'')" by (auto simp: isToken_def)
  then have "splitsTo (''-m'' @ CHR '' '' # ''multiport'' @ CHR '' '' # (''--'' @ flag @ ''s'') @ CHR '' '' # ports)
      ([''-m''] @ [''multiport''] @ [''--'' @ flag @ ''s''] @ [ports])"
    and "splitsTo ((''--'' @ flag) @ CHR '' '' # ports) ([''--'' @ flag] @ [ports])"
    by (intro splitsTo_append splitsTo_token; simp add: isToken_def)+
  with False show ?thesis by (auto simp: matchText_def portTokens_def)
qed (auto simp: matchText_def portTokens_def)

lemma splitsTo_conntrack: "splitsTo (conntrackMatch noct) (stateTokens noct)"
proof (cases noct)
  case False
  have "splitsTo (''-m'' @ CHR '' '' # ''conntrack'' @ CHR '' '' # ''--ctstate'' @ CHR '' '' # ''NEW,ESTABLISHED'')
      ([''-m''] @ [''conntrack''] @ [''--ctstate''] @ [''NEW,ESTABLISHED''])"
    by (intro splitsTo_append splitsTo_token) (simp_all add: isToken_def)
  with False show ?thesis by (simp add: conntrackMatch_def stateTokens_def)
qed (auto simp: conntrackMatch_def stateTokens_def)

lemma cidr_rule_tokens:
  assumes "a_end r = ECidr c" "isToken c" "isToken (a_proto r)"
    and "a_ports r = matchText flag ports" "flag = ''dport'' \<or> flag = ''sport''" "ports = [] \<or> isToken ports"
  shows "stringFields (trimPrefix (renderAccept r) (''-A '' @ a_chain r @ '' '')) =
    [if a_src r then ''-s'' else ''-d'', c, ''-p'', a_proto r] @ portTokens flag ports @ stateTokens (a_noct r) @ [''-j'', ''ACCEPT'']"
proof -
  let ?side = "if a_src r then ''-s'' else ''-d''"
  let ?body = "(?side @ CHR '' '' # c @ CHR '' '' # ''-p'' @ CHR '' '' # a_proto r @ CHR '' '' # matchText flag ports
      @ CHR '' '' # conntrackMatch (a_noct r) @ CHR '' '' # ''-j'') @ CHR '' '' # ''ACCEPT''"
  have "renderAccept r = (''-A '' @ a_chain r @ '' '') @ ?body"
    using assms(1,4) by (simp add: renderAccept_def Let_def)
  then have "trimPrefix (renderAccept r) (''-A '' @ a_chain r @ '' '') = ?body"
    by (metis trimPrefix_append)
  moreover have "splitsTo (?side @ CHR '' '' # c @ CHR '' '' # ''-p'' @ CHR '' '' # a_proto r @ CHR '' '' # matchText flag ports
      @ CHR '' '' # conntrackMatch (a_noct r) @ CHR '' '' # ''-j'')
      ([?side] @ [c] @ [''-p''] @ [a_proto r] @ portTokens flag ports @ stateTokens (a_noct r) @ [''-j''])"
    using assms by (intro splitsTo_append splitsTo_token splitsTo_matchText splitsTo_conntrack) (simp_all add: isToken_def)
  from stringFields_splitsTo [OF this, of "''ACCEPT''"] have "stringFields ?body =
      ([?side] @ [c] @ [''-p''] @ [a_proto r] @ portTokens flag ports @ stateTokens (a_noct r) @ [''-j'']) @ [''ACCEPT'']"
    by (simp add: isToken_def)
  ultimately show ?thesis by simp
qed

lemmas parse_eval = parseTokens.simps tokenStep_def basicFlag_def parseModuleParams.simps handlerOf_def
  moduleHandlers_def blockEnds_def valueHandler_def matchSetHandler_def storeDestPort_def storeSourcePort_def
  storeStates_def Let_def

lemma trimmed_states [simp]: "trimSpace ''NEW'' = ''NEW''" "trimSpace ''ESTABLISHED'' = ''ESTABLISHED''"
  by code_simp+

lemma cidr_rule_parsed:
  assumes "flag = ''dport'' \<or> flag = ''sport''"
  shows "parseTokens ([if src then ''-s'' else ''-d'', c, ''-p'', proto] @ portTokens flag ports @ stateTokens noct @ [''-j'', ''ACCEPT''])
      0 (newRule line chain order) [] =
    ((newRule line chain order)\<lparr>pr_SourceIP := (if src then c else []), pr_DestIP := (if src then [] else c), pr_Protocol := proto,
       pr_DestPort := (if flag = ''dport'' then ports else []), pr_SourcePort := (if flag = ''sport'' then ports else []),
       pr_ConntrackStates := (if noct then [] else [''NEW'', ''ESTABLISHED'']), pr_Target := ''ACCEPT''\<rparr>,
     (if containsByte ports CHR '','' \<or> containsByte ports CHR '':'' then [''multiport''] else []) @
     (if noct then [] else [''conntrack'']))"
proof -
  consider "ports = []" | "ports \<noteq> []" "containsByte ports CHR '','' \<or> containsByte ports CHR '':''"
    | "ports \<noteq> []" "\<not> (containsByte ports CHR '','' \<or> containsByte ports CHR '':'')" by blast
  then show ?thesis
  proof cases
    case 1
    then show ?thesis using assms
      by (cases src; cases noct) (auto simp: portTokens_def stateTokens_def parse_eval newRule_def containsByte_def)
  next
    case 2
    then show ?thesis using assms
      by (cases src; cases noct) (auto simp: portTokens_def stateTokens_def parse_eval newRule_def)
  next
    case 3
    then show ?thesis using assms
      by (cases src; cases noct) (auto simp: portTokens_def stateTokens_def parse_eval newRule_def)
  qed
qed

lemma isToken_not_Nil: "isToken t \<Longrightarrow> t \<noteq> []"
  by (simp add: isToken_def)

lemma accept_rule_classified:
  fixes line chain order s d proto dp sp noct
  defines "rule \<equiv> (newRule line chain order)\<lparr>pr_SourceIP := s, pr_DestIP := d, pr_Protocol := proto, pr_DestPort := dp,
      pr_SourcePort := sp, pr_ConntrackStates := (if noct then [] else [''NEW'', ''ESTABLISHED'']), pr_Target := ''ACCEPT''\<rparr>"
  assumes "proto \<noteq> []" "set ms \<subseteq> set supportedModules"
  shows "completenessError rule = []"
    and "classifyRule rule ms = rule\<lparr>pr_IsClean := noct,
      pr_SkipReason := (if noct then [] else ''conntrack states not supported: NEW,ESTABLISHED'')\<rparr>"
proof -
  have "find (\<lambda>m. m \<notin> set supportedModules) ms = None" using assms(3) by (auto simp: find_None_iff)
  then show "completenessError rule = []" "classifyRule rule ms = rule\<lparr>pr_IsClean := noct,
      pr_SkipReason := (if noct then [] else ''conntrack states not supported: NEW,ESTABLISHED'')\<rparr>"
    using assms(2) unfolding rule_def
    by (cases noct; simp add: newRule_def completenessError_def classifyRule_def unclean_def isRunicStandard_def
        hasConntrackState_def)+
qed



section \<open>Classification\<close>

definition classified :: "ParsedRule \<Rightarrow> bool" where
  "classified rule =
     (pr_IsClean rule = (pr_SkipReason rule = []) \<and> \<not> (pr_IsClean rule \<and> pr_IsRunicStandard rule) \<and>
      (pr_IsClean rule \<longrightarrow> (pr_Target rule = ''ACCEPT'' \<or> pr_Target rule = ''DROP'') \<and> pr_InInterface rule = [] \<and>
         list_all (\<lambda>s. s = ''NEW'') (pr_ConntrackStates rule) \<and>
         (pr_OutInterface rule = [] \<or> pr_Chain rule = ''DOCKER-USER'' \<and> pr_OutInterface rule = ''docker0'')))"

lemma classifyRule_classified:
  assumes "\<not> pr_IsRunicStandard rule"
  shows "classified (classifyRule rule modules)"
proof (cases "isRunicStandard rule")
  case True
  then show ?thesis by (simp add: classifyRule_def unclean_def classified_def)
next
  case False
  with assms show ?thesis
    by (auto simp: classifyRule_def unclean_def classified_def list_ex_iff list_all_iff split: option.splits)
qed


definition setRuleLine :: "bool \<Rightarrow> string \<Rightarrow> string" where
  "setRuleLine neg name =
     ''-A INPUT -m set '' @ (if neg then ''! '' else []) @ ''--match-set '' @ name @ '' src -j DROP''"

lemma setRule_tokens:
  assumes "isToken name"
  shows "stringFields (trimPrefix (setRuleLine neg name) ''-A INPUT '') =
    [''-m'', ''set''] @ (if neg then [''!''] else []) @ [''--match-set'', name, ''src'', ''-j'', ''DROP'']"
proof -
  let ?neg = "\<lambda>rest. (if neg then ''!'' @ CHR '' '' # rest else rest)"
  have "setRuleLine neg name = ''-A INPUT '' @ ''-m'' @ CHR '' '' # ''set'' @ CHR '' '' # ?neg (''--match-set'' @ CHR '' '' # name @ CHR '' '' #
      ''src'' @ CHR '' '' # ''-j'' @ CHR '' '' # ''DROP'')"
    by (simp add: setRuleLine_def)
  then have t: "trimPrefix (setRuleLine neg name) ''-A INPUT '' = ''-m'' @ CHR '' '' # ''set'' @ CHR '' '' # ?neg (''--match-set'' @ CHR '' '' # name @
      CHR '' '' # ''src'' @ CHR '' '' # ''-j'' @ CHR '' '' # ''DROP'')"
    by (metis trimPrefix_append)
  have toks: "isToken ''-m''" "isToken ''set''" "isToken ''!''" "isToken ''--match-set''" "isToken ''src''" "isToken ''-j''"
      "isToken ''DROP''" by (simp_all add: isToken_def tokenChar_def)
  note steps = toks(1-6) [THEN stringFields_token_space] toks(7) [THEN stringFields_token] stringFields_token_space [OF assms]
  show ?thesis unfolding t by (cases neg; simp only: steps if_True if_False; simp)
qed

text \<open>
  A negated set match is parsed as the plain match: the two rules differ in the raw
  text only, both are offered for import and neither carries a warning.
\<close>

theorem parse_negation_lost:
  assumes "isToken name" "\<not> hasPrefix name ''runic_''"
  shows "parseRule (setRuleLine True name) ''INPUT'' order =
      (parseRule (setRuleLine False name) ''INPUT'' order)\<lparr>pr_Raw := setRuleLine True name\<rparr> \<and>
    pr_IsClean (parseRule (setRuleLine True name) ''INPUT'' order) \<and>
    pr_Warnings (parseRule (setRuleLine True name) ''INPUT'' order) = []"
proof -
  have "parseRule (setRuleLine neg name) ''INPUT'' order =
      (newRule (setRuleLine neg name) ''INPUT'' order)\<lparr>pr_IpsetMatch := Some \<lparr>im_Name = name, im_Direction = ''src''\<rparr>,
        pr_Target := ''DROP'', pr_IsClean := True\<rparr>" for neg
    using setRule_tokens [OF assms(1), of neg] assms(2)
    by (cases neg) (simp_all add: parseRule_def parse_eval newRule_def completenessError_def classifyRule_def
        isRunicStandard_def hasConntrackState_def supportedModules_def)
  then show ?thesis by (simp add: newRule_def)
qed

theorem parse_negation_lost_witness:
  "parseRule ''-A INPUT -m set ! --match-set friends src -j DROP'' ''INPUT'' 1 =
     (parseRule ''-A INPUT -m set --match-set friends src -j DROP'' ''INPUT'' 1)
       \<lparr>pr_Raw := ''-A INPUT -m set ! --match-set friends src -j DROP''\<rparr>"
  using parse_negation_lost [of "''friends''" 1]
  by (simp add: isToken_def tokenChar_def hasPrefix_def setRuleLine_def)

end
