(* ===== verification/Preview.thy ===== *)
theory Preview
  imports Bundle_Text
begin

text \<open>
  Previews (\<^verbatim>\<open>PreviewCompile\<close> in \<^verbatim>\<open>internal/engine/compiler.go\<close>): the rules of one policy that
  is not stored yet, from the fields of a request. A preview shares the resolver and the rule
  builders with the compiler and renders four sections, host and docker, forward and backward.
\<close>

section \<open>Inputs\<close>

record previewState =
  st_ipAddress :: string
  st_hasIPSet :: bool
  st_peerID :: int
  st_serviceName :: string
  st_protocol :: string
  st_noConntrack :: bool
  st_portClauses :: "PortClause list"
  st_sourceCIDRs :: "string list"
  st_targetCIDRs :: "string list"
  st_isInternetTarget :: bool
  st_pol :: policyInfo
  st_direction :: string
  st_targetScope :: string

text \<open>\<^verbatim>\<open>&policyInfo{Action: action}\<close>: every other field has its zero value.\<close>

definition actionPolicy :: "string \<Rightarrow> policyInfo" where
  "actionPolicy action =
     \<lparr>pol_ID = 0, pol_Name = [], pol_SourceID = 0, pol_SourceType = [], pol_ServiceID = 0, pol_TargetID = 0,
      pol_TargetType = [], pol_SourceIP = [], pol_TargetIP = [], pol_Action = action, pol_Priority = 0,
      pol_TargetScope = [], pol_Direction = [], pol_IsTarget = False, pol_IsSource = False\<rparr>"

text \<open>The peer part of the inputs: address and ipset support.\<close>

definition loadPreviewPeer :: "database \<Rightarrow> int \<Rightarrow> (string \<times> bool) res" where
  "loadPreviewPeer db peerID =
     (if peerID \<noteq> 0 then
        (case queryRow db (QPreviewPeer peerID) (filter (\<lambda>p. p_id p = peerID) (db_peers db)) of
           Inl e \<Rightarrow>
             if errIs e ErrNoRows
             then Inl (Wrap ''unknown peer'' [Sentinel ErrNoRows, Sentinel ErrPreviewValidation])
             else Inl (Wrap ''load peer'' [e])
         | Inr p \<Rightarrow> Inr (p_ip_address p, scanBool (coalesce0 (p_has_ipset p))))
      else Inr ([], True))"

text \<open>
  The service row. \<^verbatim>\<open>source_ports\<close> is nullable and is scanned into a plain string here, so a
  NULL makes the scan fail.
\<close>

definition loadPreviewService :: "database \<Rightarrow> int \<Rightarrow> (service_row \<times> string) res" where
  "loadPreviewService db serviceID =
     (case queryRow db (QPreviewService serviceID)
             (filter (\<lambda>s. s_id s = serviceID \<and> \<not> s_pending_delete s) (db_services db)) of
        Inl e \<Rightarrow>
          if errIs e ErrNoRows then Inl (previewErr ''service is pending delete or does not exist'')
          else Inl (Wrap ''load service'' [e])
      | Inr s \<Rightarrow>
          (case s_source_ports s of
             None \<Rightarrow> Inl (Wrap ''load service'' [Leaf ''converting NULL to string is unsupported''])
           | Some sp \<Rightarrow> Inr (s, sp)))"

definition loadPreviewInputs :: "database \<Rightarrow> int \<Rightarrow> int \<Rightarrow> string \<Rightarrow> string \<Rightarrow> previewState res" where
  "loadPreviewInputs db peerID serviceID direction targetScope =
     bindE (loadPreviewPeer db peerID) (\<lambda>(ip, hasIPSet).
     bindE (loadPreviewService db serviceID) (\<lambda>(s, sourcePorts).
     bindE (if \<not> isMulticastService (s_name s) \<and> \<not> isIGMPorVRRP (s_name s)
            then wrapE2 ''expand ports'' ErrPreviewValidation (ExpandPorts (s_ports s) sourcePorts (s_protocol s))
            else Inr []) (\<lambda>clauses.
       Inr \<lparr>st_ipAddress = ip, st_hasIPSet = hasIPSet, st_peerID = peerID, st_serviceName = s_name s,
            st_protocol = s_protocol s, st_noConntrack = scanBool (coalesce0 (s_no_conntrack s)),
            st_portClauses = clauses, st_sourceCIDRs = [], st_targetCIDRs = [], st_isInternetTarget = False,
            st_pol = actionPolicy [],
            st_direction = (if direction = [] then ''both'' else direction),
            st_targetScope = (if targetScope = [] then ''both'' else targetScope)\<rparr>)))"

definition resolvePreviewSourcesAndTargets ::
  "database \<Rightarrow> previewState \<Rightarrow> string \<Rightarrow> int \<Rightarrow> string \<Rightarrow> string \<Rightarrow> int \<Rightarrow> string \<Rightarrow> previewState res" where
  "resolvePreviewSourcesAndTargets db st sourceType sourceID sourceIP targetType targetID targetIP =
     bindE (wrapE ''resolve source entity'' (resolveEntityCIDRs db sourceType sourceID sourceIP (st_ipAddress st))) (\<lambda>src.
     bindE (wrapE ''resolve target entity'' (resolveEntityCIDRs db targetType targetID targetIP (st_ipAddress st))) (\<lambda>tgt.
       Inr (st\<lparr>st_sourceCIDRs := src, st_targetCIDRs := tgt,
               st_isInternetTarget := (targetType = ''special'' \<and> targetID = SpecialIDInternet)\<rparr>)))"

section \<open>Sections\<close>

definition previewAppendRules ::
  "string list \<Rightarrow> previewState \<Rightarrow> policyInfo \<Rightarrow> PortClause list \<Rightarrow> string list \<Rightarrow> bool \<Rightarrow> ruleDir \<Rightarrow> bool \<Rightarrow> bool \<Rightarrow>
     string list res" where
  "previewAppendRules rules st pol portClauses cidrs isMulticastTarget dir writeToHost writeToDocker =
     bindE
       (if dir = ruleDirInternet then
          bindE (checkInternetPeer (st_ipAddress st) (st_peerID st) ''preview'') (\<lambda>_.
            if st_peerID st \<noteq> 0 \<and> \<not> st_hasIPSet st
            then Inl (previewErr ''preview internet without ipset must use fallback'') else Inr ())
        else if list_ex isInternetSentinelCIDR cidrs then Inl (failClosedSentinelLeakErr ''preview'')
        else Inr ()) (\<lambda>_.
     bindE (writeRules pol portClauses False [] cidrs (st_ipAddress st) writeToHost writeToDocker (st_noConntrack st)
              dir isMulticastTarget) (\<lambda>generated. Inr (rules @ generated)))"

definition isPreviewSpecialService :: "string \<Rightarrow> bool" where
  "isPreviewSpecialService serviceName = (equalFold serviceName ''IGMP'' \<or> equalFold serviceName ''VRRP'')"

definition previewForward ::
  "previewState \<Rightarrow> string \<Rightarrow> int \<Rightarrow> string \<Rightarrow> string \<Rightarrow> bool \<Rightarrow> bool \<Rightarrow> string \<Rightarrow> string list res" where
  "previewForward st targetType targetID chain header writeToHost writeToDocker wantScope =
     (if st_targetScope st \<noteq> wantScope \<and> st_targetScope st \<noteq> ''both'' then Inr []
      else if equalFold (st_serviceName st) ''IGMP'' then
        (if chain = ChainDockerUser
         then Inr [''-A DOCKER-USER -d 224.0.0.1/32 -p igmp -j ACCEPT'', ''-A DOCKER-USER -d 224.0.0.22/32 -p igmp -j ACCEPT'']
         else Inr [''-A INPUT -d 224.0.0.1/32 -p igmp -j ACCEPT'', ''-A OUTPUT -d 224.0.0.22/32 -p igmp -j ACCEPT''])
      else if equalFold (st_serviceName st) ''VRRP'' then
        (if chain = ChainDockerUser then Inr [''-A DOCKER-USER -d 224.0.0.18/32 -p vrrp -j ACCEPT'']
         else Inr [''-A OUTPUT -d 224.0.0.18/32 -p vrrp -j ACCEPT''])
      else if st_direction st \<noteq> ''both'' \<and> st_direction st \<noteq> ''forward'' then Inr []
      else if isMulticastService (st_serviceName st) \<and> targetType = ''special'' \<and> isMulticastSpecialID targetID then
        Inr [header,
             (if chain = ChainDockerUser
              then ''-A DOCKER-USER -d 224.0.0.0/4 -m pkttype --pkt-type multicast -j ACCEPT''
              else ''-A OUTPUT -d 224.0.0.0/4 -m pkttype --pkt-type multicast -j ACCEPT'')]
      else if st_isInternetTarget st then
        bindE (checkInternetPeer (st_ipAddress st) (st_peerID st) ''preview'') (\<lambda>_.
          if st_peerID st = 0 \<or> st_hasIPSet st
          then previewAppendRules [header] st (st_pol st) (st_portClauses st) [] False ruleDirInternet writeToHost writeToDocker
          else Inr ([header] @ buildInternetFallbackRules (st_pol st) (st_portClauses st) writeToHost writeToDocker
                 (st_noConntrack st)))
      else previewAppendRules [header] st (st_pol st) (st_portClauses st) (st_targetCIDRs st)
             (targetType = ''special'' \<and> isMulticastSpecialID targetID) ruleDirSource writeToHost writeToDocker)"

text \<open>The arrow in two headers is U+2192, three bytes in UTF-8.\<close>

definition arrow :: string where
  "arrow = [CHR 0xE2, CHR 0x86, CHR 0x92]"

definition forwardHeader :: string where
  "forwardHeader = ''# Forward (Source '' @ arrow @ '' Target)''"

definition backwardHeader :: string where
  "backwardHeader = ''# Backward (Target '' @ arrow @ '' Source)''"

definition previewHostForward :: "previewState \<Rightarrow> string \<Rightarrow> int \<Rightarrow> string list res" where
  "previewHostForward st targetType targetID =
     previewForward st targetType targetID ChainInput forwardHeader True False ''host''"

definition previewDockerForward :: "previewState \<Rightarrow> string \<Rightarrow> int \<Rightarrow> string list res" where
  "previewDockerForward st targetType targetID =
     previewForward st targetType targetID ChainDockerUser ''# Docker: DOCKER-USER chain rules'' False True ''docker''"

definition previewBackward ::
  "previewState \<Rightarrow> string \<Rightarrow> int \<Rightarrow> string \<Rightarrow> bool \<Rightarrow> bool \<Rightarrow> string \<Rightarrow> bool \<Rightarrow> string list res" where
  "previewBackward st sourceType sourceID chain writeToHost writeToDocker wantScope withHeader =
     (if st_targetScope st \<noteq> wantScope \<and> st_targetScope st \<noteq> ''both'' then Inr []
      else if isPreviewSpecialService (st_serviceName st) then Inr []
      else if st_direction st \<noteq> ''both'' \<and> st_direction st \<noteq> ''backward'' then Inr []
      else if sourceType = ''special'' \<and> sourceID = SpecialIDInternet then Inl (failClosedIngressInternetErr ''preview'')
      else
        (let rules = (if withHeader then [backwardHeader] else []) in
         if sourceType = ''special'' \<and> isMulticastSpecialID sourceID then
           (if isMulticastService (st_serviceName st) then
              (if chain = ChainDockerUser then Inr [''-A DOCKER-USER -m pkttype --pkt-type multicast -j ACCEPT'']
               else Inr (rules @ [''-A INPUT -m pkttype --pkt-type multicast -j ACCEPT'']))
            else previewAppendRules rules st (st_pol st) (st_portClauses st) (st_sourceCIDRs st) False ruleDirTarget
                   writeToHost writeToDocker)
         else if sourceType = ''special'' \<and> isBroadcastSpecialID sourceID then
           (if list_ex isInternetSentinelCIDR (st_sourceCIDRs st) then Inl (failClosedIngressInternetErr ''preview'')
            else
              (let proto = normalizeBroadcastProto (st_protocol st) in
               Inr (rules @ map (\<lambda>cidr. ''-A '' @ chain @ '' -d '' @ cidr @ '' -p '' @ proto @ '' -j ACCEPT'')
                      (st_sourceCIDRs st))))
         else previewAppendRules rules st (st_pol st) (st_portClauses st) (st_sourceCIDRs st) False ruleDirTarget
                writeToHost writeToDocker))"

definition previewHostBackward :: "previewState \<Rightarrow> string \<Rightarrow> int \<Rightarrow> string list res" where
  "previewHostBackward st sourceType sourceID = previewBackward st sourceType sourceID ChainInput True False ''host'' True"

definition previewDockerBackward :: "previewState \<Rightarrow> string \<Rightarrow> int \<Rightarrow> string list res" where
  "previewDockerBackward st sourceType sourceID =
     previewBackward st sourceType sourceID ChainDockerUser False True ''docker'' False"

definition PreviewCompile ::
  "database \<Rightarrow> int \<Rightarrow> int \<Rightarrow> string \<Rightarrow> string \<Rightarrow> int \<Rightarrow> string \<Rightarrow> string \<Rightarrow> int \<Rightarrow> string \<Rightarrow> string \<Rightarrow> string \<Rightarrow>
     string list res" where
  "PreviewCompile db peerID sourceID sourceType sourceIP targetID targetType targetIP serviceID action direction targetScope =
     (if \<not> IsValidAction action then Inl (previewErr ''invalid action'')
      else if \<not> IsValidEntityType sourceType then Inl (previewErr ''invalid source_type'')
      else if \<not> IsValidEntityType targetType then Inl (previewErr ''invalid target_type'')
      else if direction \<noteq> [] \<and> \<not> IsValidDirection direction then Inl (previewErr ''invalid direction'')
      else if targetScope \<noteq> [] \<and> \<not> IsValidTargetScope targetScope then Inl (previewErr ''invalid target_scope'')
      else
        bindE (loadPreviewInputs db peerID serviceID direction targetScope) (\<lambda>st0.
        bindE (resolvePreviewSourcesAndTargets db st0 sourceType sourceID sourceIP targetType targetID targetIP) (\<lambda>st1.
          (let st = st1\<lparr>st_pol := actionPolicy action\<rparr> in
           concatMapE (\<lambda>section. section)
             [previewHostForward st targetType targetID, previewHostBackward st sourceType sourceID,
              previewDockerForward st targetType targetID, previewDockerBackward st sourceType sourceID]))))"

section \<open>Errors of a preview\<close>

text \<open>The handler's test (\<^verbatim>\<open>internal/api/policies/handlers.go\<close>): such an error is answered with 400.\<close>

definition isPreviewValidationError :: "goerr \<Rightarrow> bool" where
  "isPreviewValidationError e =
     (if errIs e ErrNoRows then True
      else if errIs e ErrPreviewValidation then True
      else if errIs e ErrPreviewFailClosed then True
      else False)"

abbreviation userError :: "'a res \<Rightarrow> bool" where
  "userError m \<equiv> errE isPreviewValidationError m"

lemma userError_wrapE [errE_intros]: "userError m \<Longrightarrow> userError (wrapE msg m)"
  by (auto simp: errE_def wrapE_eq_Inl isPreviewValidationError_def)

lemma userError_wrapE2 [errE_intros]: "userError (wrapE2 msg ErrPreviewValidation m)"
  by (cases m) (auto simp: errE_def isPreviewValidationError_def)

lemma isPreviewValidationError_wrap [simp]:
  "isPreviewValidationError (Wrap msg [e]) = isPreviewValidationError e"
  "isPreviewValidationError (Wrap msg [Sentinel ErrNoRows, e])"
  by (simp_all add: isPreviewValidationError_def)

lemma isPreviewValidationError_simps [simp]:
  "isPreviewValidationError (previewErr msg)"
  "isPreviewValidationError unknownRuleDir"
  "isPreviewValidationError (Wrap msg [e, Sentinel ErrPreviewValidation])"
  "isPreviewValidationError (failClosedEmptyIPErr n)" "isPreviewValidationError (failClosedIngressInternetErr n)"
  "isPreviewValidationError (failClosedSentinelLeakErr n)" "isPreviewValidationError (failClosedInternetIPv6Err n)"
  by (simp_all add: isPreviewValidationError_def previewErr_def unknownRuleDir_def failClosedEmptyIPErr_def
      failClosedIngressInternetErr_def failClosedSentinelLeakErr_def failClosedInternetIPv6Err_def)

text \<open>No statement fails.\<close>

definition dbUp :: "database \<Rightarrow> bool" where
  "dbUp db = (\<forall>q. \<not> db_fails db q)"

lemma userError_queryRow: "dbUp db \<Longrightarrow> userError (queryRow db q rows)"
  by (auto simp: errE_def queryRow_def dbUp_def isPreviewValidationError_def split: list.splits)

lemma userError_queryRows: "dbUp db \<Longrightarrow> userError (queryRows db q rows)"
  by (simp add: errE_def queryRows_def dbUp_def)

lemma userError_normalizeCIDR: "userError (normalizeCIDR ip pid v)"
  by (auto simp: normalizeCIDR_def errE_def split: sum.splits)

lemma userError_ResolveEntity: "dbUp db \<Longrightarrow> userError (ResolveEntity db t i)"
  unfolding ResolveEntity_def ResolveGroup_def normalizePeerCIDR_def normalizeGroupCIDR_def
  by (intro errE_intros userError_queryRow userError_queryRows userError_normalizeCIDR)

lemma userError_subnetBroadcastTarget: "userError (subnetBroadcastTarget ip)"
  by (auto simp: subnetBroadcastTarget_def errE_def Let_def split: if_splits option.splits sum.splits)

lemma userError_ResolveSpecialTarget: "dbUp db \<Longrightarrow> userError (ResolveSpecialTarget db i ip)"
  unfolding ResolveSpecialTarget_def allPeersTarget_def
  by (intro errE_intros userError_queryRows userError_subnetBroadcastTarget) simp_all

lemma userError_resolveEntityCIDRs: "dbUp db \<Longrightarrow> userError (resolveEntityCIDRs db t i ov ip)"
  unfolding resolveEntityCIDRs_def
  by (intro errE_intros userError_ResolveSpecialTarget userError_ResolveEntity) simp_all

lemma userError_filterSelf: "userError (filterSelfReferencingCIDRs cidrs ip)"
  by (auto simp: filterSelfReferencingCIDRs_def errE_def Let_def split: if_splits sum.splits)

lemma userError_dirSwitch: "userError (dirSwitch dir t s)"
  by (simp add: dirSwitch_def errE_def)

lemma userError_whenE: "userError m \<Longrightarrow> userError (whenE b m)"
  by (simp add: whenE_def errE_def)

lemma userError_assertInternetIpset: "userError (assertInternetIpset u n)"
  by (simp add: assertInternetIpset_def errE_def)

lemma userError_checkInternetPeer: "userError (checkInternetPeer ip i n)"
  by (simp add: checkInternetPeer_def errE_def)

lemmas userError_rules = errE_intros userError_filterSelf userError_dirSwitch userError_whenE
  userError_assertInternetIpset userError_checkInternetPeer

lemma userError_writeRules: "userError (writeRules pol pcs u n cidrs ip host docker noct dir mt)"
  unfolding writeRules_def buildAcceptRules_def buildLogDropRules_def acceptIpsetRules_def acceptCidrRules_def
    logDropClause_def split_beta Let_def
  by (intro userError_rules) simp_all

lemma userError_previewAppendRules: "userError (previewAppendRules rs st pol pcs cidrs mt dir host docker)"
  unfolding previewAppendRules_def by (intro userError_rules userError_writeRules) simp_all

lemma userError_previewForward: "userError (previewForward st tt ti chain h host docker scope)"
  unfolding previewForward_def by (intro userError_rules userError_previewAppendRules)

lemma userError_previewBackward: "userError (previewBackward st s i chain host docker scope hdr)"
  unfolding previewBackward_def Let_def by (intro userError_rules userError_previewAppendRules) simp_all

text \<open>No live service has a NULL in its source ports.\<close>

definition sourcePortsSet :: "database \<Rightarrow> bool" where
  "sourcePortsSet db = list_all (\<lambda>s. s_pending_delete s \<or> s_source_ports s \<noteq> None) (db_services db)"

lemma userError_loadPreviewInputs:
  assumes "dbUp db" "sourcePortsSet db"
  shows "userError (loadPreviewInputs db p s d sc)"
proof -
  note up = userError_queryRow [OF assms(1), unfolded errE_def, rule_format]
  have "userError (loadPreviewPeer db p)"
    by (auto simp: loadPreviewPeer_def errE_def split: sum.splits dest: up)
  moreover have "userError (loadPreviewService db s)"
    using assms(2)
    by (auto simp: loadPreviewService_def errE_def queryRow_Inr sourcePortsSet_def list_all_iff
        split: sum.splits option.splits dest!: filter_head dest: up)
  ultimately show ?thesis
    unfolding loadPreviewInputs_def split_beta by (intro userError_rules)
qed

text \<open>
  While the database answers, a preview request never ends in an internal error:
  whatever the request's fields, the result is a list of rules or an error the handler answers
  with 400. The one exception is a service whose source ports are NULL.
\<close>

theorem PreviewCompile_user_errors:
  assumes "dbUp db" and "sourcePortsSet db"
    and "PreviewCompile db peerID sourceID sourceType sourceIP targetID targetType targetIP serviceID action direction
           targetScope = Inl e"
  shows "isPreviewValidationError e"
proof -
  have "userError (PreviewCompile db peerID sourceID sourceType sourceIP targetID targetType targetIP serviceID action
      direction targetScope)"
    unfolding PreviewCompile_def resolvePreviewSourcesAndTargets_def previewHostForward_def previewHostBackward_def
      previewDockerForward_def previewDockerBackward_def Let_def
    by (intro userError_rules userError_loadPreviewInputs userError_resolveEntityCIDRs assms(1,2))
      (auto simp: userError_previewForward userError_previewBackward)
  with assms(3) show ?thesis by (simp add: errE_def)
qed

theorem PreviewCompile_user_errors_witness:
  "\<exists>e. PreviewCompile exDB 7 1 ''peer'' [] 2 ''peer'' [] 1 ''ACCEPT'' [] [] = Inl e \<and> errIs e ErrPreviewValidation"
proof -
  let ?db = "exDB\<lparr>db_services := []\<rparr>"
  have "dbUp ?db" "sourcePortsSet ?db" by (simp_all add: dbUp_def exDB_def sourcePortsSet_def)
  moreover have "PreviewCompile ?db 0 1 ''peer'' [] 2 ''peer'' [] 1 ''ACCEPT'' [] [] =
      Inl (previewErr ''service is pending delete or does not exist'')" by code_simp
  ultimately have "isPreviewValidationError (previewErr ''service is pending delete or does not exist'')"
    by (rule PreviewCompile_user_errors)
  moreover have "PreviewCompile exDB 7 1 ''peer'' [] 2 ''peer'' [] 1 ''ACCEPT'' [] [] =
      Inl (Wrap ''unknown peer'' [Sentinel ErrNoRows, Sentinel ErrPreviewValidation])" by code_simp
  ultimately show ?thesis by simp
qed

section \<open>Previews show what is compiled\<close>

lemma writeRules_action:
  "pol_Action pol = pol_Action pol' \<Longrightarrow>
     writeRules pol pcs u n cidrs ip host docker noct dir mt = writeRules pol' pcs u n cidrs ip host docker noct dir mt"
  by (simp add: writeRules_def buildAcceptRules_def buildLogDropRules_def acceptInternetRules_def acceptIpsetRules_def
      acceptCidrRules_def logDropClause_def failClosedSentinelLeakErr_def cong: if_cong)

lemma fallback_action:
  "pol_Action pol = pol_Action pol' \<Longrightarrow>
     buildInternetFallbackRules pol pcs host docker noct = buildInternetFallbackRules pol' pcs host docker noct"
  by (simp add: buildInternetFallbackRules_def cong: if_cong)

lemma checkInternetPeer_name: "checkInternetPeer ip i n = checkInternetPeer ip i n'"
  by (simp add: checkInternetPeer_def failClosedEmptyIPErr_def failClosedInternetIPv6Err_def)

text \<open>
  The preview state stands for a policy on a host: the same address, ipset support, service and
  action, the endpoints resolved, and the host chains in scope.
\<close>

definition previewsPolicy ::
  "database \<Rightarrow> previewState \<Rightarrow> policyInfo \<Rightarrow> PortClause list \<Rightarrow> string \<Rightarrow> string \<Rightarrow> bool" where
  "previewsPolicy db st pol pcs svc proto =
     (st_peerID st \<noteq> 0 \<and> st_serviceName st = svc \<and> st_protocol st = proto \<and> st_portClauses st = pcs \<and>
      pol_Action (st_pol st) = pol_Action pol \<and> st_direction st = pol_Direction pol \<and>
      (st_targetScope st = ''host'' \<or> st_targetScope st = ''both'') \<and> regularService svc \<and>
      st_isInternetTarget st = (pol_TargetType pol = ''special'' \<and> pol_TargetID pol = SpecialIDInternet) \<and>
      resolveEntityCIDRs db (pol_SourceType pol) (pol_SourceID pol) (pol_SourceIP pol) (st_ipAddress st) = Inr (st_sourceCIDRs st) \<and>
      resolveEntityCIDRs db (pol_TargetType pol) (pol_TargetID pol) (pol_TargetIP pol) (st_ipAddress st) = Inr (st_targetCIDRs st))"

lemma regularService_not_special: "regularService svc \<Longrightarrow>
    \<not> equalFold svc ''IGMP'' \<and> \<not> equalFold svc ''VRRP'' \<and> \<not> equalFold svc ''Multicast'' \<and> \<not> isPreviewSpecialService svc"
  by (simp add: regularService_def isIGMPorVRRP_def isPreviewSpecialService_def)


definition exPreview :: previewState where
  "exPreview = \<lparr>st_ipAddress = ''10.0.0.1'', st_hasIPSet = False, st_peerID = 1, st_serviceName = ''web'', st_protocol = ''tcp'',
     st_noConntrack = False, st_portClauses = [exClause], st_sourceCIDRs = [''10.0.0.1/32''], st_targetCIDRs = [''10.0.0.2/32''],
     st_isInternetTarget = False, st_pol = actionPolicy ''ACCEPT'', st_direction = ''both'', st_targetScope = ''both''\<rparr>"


end
