(* ===== verification/Handlers.thy ===== *)
theory Handlers
  imports Snapshots Change_Worker
begin

text \<open>
  The handlers that edit policies, services and groups (\<^verbatim>\<open>internal/api/policies\<close>,
  \<^verbatim>\<open>services\<close>, \<^verbatim>\<open>groups\<close>, with the helpers of \<^verbatim>\<open>internal/api/common/tracker.go\<close>
  and \<^verbatim>\<open>internal/store/transaction.go\<close>). A handler takes the decoded request and the state of
  the change worker, which holds the database, and gives the status of its response. Decoding of
  requests and the texts of responses are not modelled; identifiers of new rows are arguments.
\<close>

section \<open>Shared parts\<close>

abbreviation dbOf :: "changeWorker \<Rightarrow> database" where
  "dbOf w \<equiv> ch_db (wk_data w)"

definition onDb :: "('a, database) step \<Rightarrow> ('a, changeWorker) step" where
  "onDb m w = (case m (dbOf w) of (r, db') \<Rightarrow> (r, w\<lparr>wk_data := (wk_data w)\<lparr>ch_db := db'\<rparr>\<rparr>))"

definition enqueuePeerChange :: "int list \<Rightarrow> string \<Rightarrow> string \<Rightarrow> int \<Rightarrow> string \<Rightarrow> changeWorker \<Rightarrow> goerr option \<times> changeWorker" where
  "enqueuePeerChange peerIDs changeType changeAction changeID summary w =
     (if peerIDs = [] then (None, w) else QueuePeerChange peerIDs changeType changeAction changeID summary w)"

definition QueueGroupChangeSummary :: "int \<Rightarrow> string \<Rightarrow> string \<Rightarrow> changeWorker \<Rightarrow> goerr option \<times> changeWorker" where
  "QueueGroupChangeSummary i action verb w =
     (if i \<le> 0 then (Some (Leaf ''cannot queue group: change worker or compiler not available''), w)
      else QueueGroupChange i action
        (case GetGroupTx i (dbOf w) of
           Inr grp \<Rightarrow> ''Group '' @ [CHR 0x27] @ g_name grp @ [CHR 0x27] @ '' '' @ verb
         | Inl _ \<Rightarrow> ''Group '' @ verb) w)"

text \<open>The status of a failed lookup.\<close>

definition lookupStatus :: "goerr \<Rightarrow> nat" where
  "lookupStatus e = (if errIs e ErrNoRows then 404 else 500)"

text \<open>The response after the change is queued: an error is reported although the edit is done.\<close>

definition respondQueued :: "nat \<Rightarrow> goerr option \<times> changeWorker \<Rightarrow> nat \<times> changeWorker" where
  "respondQueued ok q = (case q of (None, w) \<Rightarrow> (ok, w) | (Some _, w) \<Rightarrow> (500, w))"

definition entitySummary :: "string \<Rightarrow> string \<Rightarrow> string \<Rightarrow> string" where
  "entitySummary kind name verb = kind @ '' '' @ [CHR 0x27] @ name @ [CHR 0x27] @ '' '' @ verb"

section \<open>Policies\<close>

definition handleCreatePolicy :: "int \<Rightarrow> policyInput \<Rightarrow> changeWorker \<Rightarrow> nat \<times> changeWorker" where
  "handleCreatePolicy i input w =
     (case createPolicyRow input of
        Inl _ \<Rightarrow> (400, w)
      | Inr p \<Rightarrow>
          (case onDb (policiesCreate i p) w of
             (Inl _, w1) \<Rightarrow> (500, w1)
           | (Inr _, w1) \<Rightarrow>
               (case GetAffectedPeersByPolicy (dbOf w1) i of
                  Inl _ \<Rightarrow> (500, w1)
                | Inr affectedPeers \<Rightarrow>
                    respondQueued 201 (enqueuePeerChange affectedPeers ''policy'' ''create'' i (entitySummary ''Policy'' (in_Name input) ''created'') w1))))"

definition policyTxStatus :: "goerr \<Rightarrow> nat" where
  "policyTxStatus e = (if e = Leaf ''policy not found'' then 404 else 500)"

text \<open>The result is the status of a failure, or the peers the policy affects before or after.\<close>

definition buildAndPersistPolicyUpdate :: "int \<Rightarrow> policy_row \<Rightarrow> changeWorker \<Rightarrow> (nat + int list) \<times> changeWorker" where
  "buildAndPersistPolicyUpdate i p w =
     (case GetPolicyTx i (dbOf w) of
        Inl e \<Rightarrow> (Inl (lookupStatus e), w)
      | Inr _ \<Rightarrow>
          (case GetAffectedPeersByPolicy (dbOf w) i of
             Inl _ \<Rightarrow> (Inl 500, w)
           | Inr oldPeers \<Rightarrow>
               (case onDb (policiesUpdate p) w of
                  (Inl e, w1) \<Rightarrow> (Inl (policyTxStatus e), w1)
                | (Inr _, w1) \<Rightarrow>
                    (case GetAffectedPeersByPolicy (dbOf w1) i of
                       Inl _ \<Rightarrow> (Inl 500, snd (enqueuePeerChange oldPeers ''policy'' ''update'' i (''Policy '' @ itoa i @ '' updated (fallback fan-out)'') w1))
                     | Inr newPeers \<Rightarrow> (Inr (MergePeerIDs [oldPeers, newPeers]), w1)))))"

definition handleUpdatePolicy :: "int \<Rightarrow> policyInput \<Rightarrow> changeWorker \<Rightarrow> nat \<times> changeWorker" where
  "handleUpdatePolicy i input w =
     (if in_Name input = [] then (400, w)
      else case validatePolicyInput input True of
        Inl _ \<Rightarrow> (400, w)
      | Inr _ \<Rightarrow>
          (case GetPolicyTx i (dbOf w) of
             Inl e \<Rightarrow> (lookupStatus e, w)
           | Inr existing \<Rightarrow>
               (case updatePolicyRow i existing input of
                  Inl _ \<Rightarrow> (400, w)
                | Inr p \<Rightarrow>
                    (case buildAndPersistPolicyUpdate i p w of
                       (Inl status, w1) \<Rightarrow> (status, w1)
                     | (Inr allPeers, w1) \<Rightarrow>
                         respondQueued 200 (enqueuePeerChange allPeers ''policy'' ''update'' i (entitySummary ''Policy'' (in_Name input) ''updated'') w1)))))"

definition GetPolicyName :: "int \<Rightarrow> database \<Rightarrow> string res" where
  "GetPolicyName i db = wrapE ''query policy name'' (queryRow db (QEntity ''name'' ''policies'' i) (map pl_name (filter (livePolicy i) (db_policies db))))"

definition handleDeletePolicy :: "int \<Rightarrow> changeWorker \<Rightarrow> nat \<times> changeWorker" where
  "handleDeletePolicy i w =
     (case GetPolicyName i (dbOf w) of
        Inl e \<Rightarrow> (lookupStatus e, w)
      | Inr policyName \<Rightarrow>
          (case GetAffectedPeersByPolicy (dbOf w) i of
             Inl _ \<Rightarrow> (500, w)
           | Inr oldPeers \<Rightarrow>
               (case onDb (policiesDelete i) w of
                  (Inl e, w1) \<Rightarrow> (policyTxStatus e, w1)
                | (Inr _, w1) \<Rightarrow>
                    respondQueued 204 (enqueuePeerChange oldPeers ''policy'' ''delete'' i (entitySummary ''Policy'' policyName ''deleted'') w1))))"

definition handlePatchPolicy :: "int \<Rightarrow> bool option \<Rightarrow> changeWorker \<Rightarrow> nat \<times> changeWorker" where
  "handlePatchPolicy i input w =
     (case input of
        None \<Rightarrow> (400, w)
      | Some enabled \<Rightarrow>
          (let enabledStr = (if enabled then ''enabled'' else ''disabled'') in
           case GetPolicyName i (dbOf w) of
             Inl e \<Rightarrow> (lookupStatus e, w)
           | Inr policyName \<Rightarrow>
               (case GetAffectedPeersByPolicy (dbOf w) i of
                  Inl _ \<Rightarrow> (500, w)
                | Inr oldPeers \<Rightarrow>
                    (case onDb (policiesPatch i enabled) w of
                       (Inl e, w1) \<Rightarrow> (policyTxStatus e, w1)
                     | (Inr _, w1) \<Rightarrow>
                         (case GetAffectedPeersByPolicy (dbOf w1) i of
                            Inl _ \<Rightarrow> (500, snd (enqueuePeerChange oldPeers ''policy'' ''update'' i
                                               (entitySummary ''Policy'' policyName (enabledStr @ '' (fallback fan-out)'')) w1))
                          | Inr newPeers \<Rightarrow>
                              respondQueued 200 (enqueuePeerChange (MergePeerIDs [oldPeers, newPeers]) ''policy'' ''update'' i
                                (entitySummary ''Policy'' policyName enabledStr) w1))))))"

datatype policyRequest =
    CreateRequest int policyInput
  | UpdateRequest int policyInput
  | DeleteRequest int
  | PatchRequest int "bool option"

fun handlePolicy :: "policyRequest \<Rightarrow> changeWorker \<Rightarrow> nat \<times> changeWorker" where
  "handlePolicy (CreateRequest i input) = handleCreatePolicy i input"
| "handlePolicy (UpdateRequest i input) = handleUpdatePolicy i input"
| "handlePolicy (DeleteRequest i) = handleDeletePolicy i"
| "handlePolicy (PatchRequest i enabled) = handlePatchPolicy i enabled"

section \<open>Services\<close>

definition FindPoliciesUsingService :: "database \<Rightarrow> int \<Rightarrow> int list res" where
  "FindPoliciesUsingService db serviceID =
     queryRows db (QEntity ''policies'' ''services'' serviceID)
       (sort (remdups (map pl_id (filter (\<lambda>p. pl_service_id p = serviceID \<and> \<not> pl_pending_delete p) (db_policies db)))))"

definition queueServiceChange :: "int \<Rightarrow> string \<Rightarrow> string \<Rightarrow> changeWorker \<Rightarrow> goerr option \<times> changeWorker" where
  "queueServiceChange serviceID action summary w =
     (case FindPoliciesUsingService (dbOf w) serviceID of
        Inl e \<Rightarrow> (Some (Wrap ''find policies for service'' [e]), w)
      | Inr policyIDs \<Rightarrow>
          (let (affectedByPolicy, resolveErr) = (if policyIDs \<noteq> [] then GetAffectedPeersByPolicies (dbOf w) policyIDs else ([], None));
               peerIDs = MergePeerIDs (map snd affectedByPolicy) in
           case (if peerIDs \<noteq> [] then enqueuePeerChange peerIDs ''service'' action serviceID summary w else (None, w)) of
             (Some e, w1) \<Rightarrow> (Some (Wrap ''queue peer change for service'' [e]), w1)
           | (None, w1) \<Rightarrow>
               (case resolveErr of Some e \<Rightarrow> (Some (Wrap ''get affected peers for service'' [e]), w1) | None \<Rightarrow> (None, w1))))"

record serviceInput =
  si_Name :: string
  si_Ports :: string
  si_SourcePorts :: string
  si_Protocol :: string

definition serviceRequestOk :: "serviceInput \<Rightarrow> bool" where
  "serviceRequestOk input =
     (si_Name input \<noteq> [] \<and> ValidateName (si_Name input) = Inr () \<and>
      validateService (si_Ports input) (si_SourcePorts input) (orDefault (si_Protocol input) ''tcp'') False = Inr ())"

definition handleCreateService :: "int \<Rightarrow> serviceInput \<Rightarrow> changeWorker \<Rightarrow> nat \<times> changeWorker" where
  "handleCreateService i input w =
     (if \<not> serviceRequestOk input then (400, w)
      else case onDb (servicesCreate i (si_Name input) (si_Ports input) (si_SourcePorts input) (orDefault (si_Protocol input) ''tcp'')) w of
        (Inl _, w1) \<Rightarrow> (500, w1)
      | (Inr _, w1) \<Rightarrow> respondQueued 201 (queueServiceChange i ''create'' (entitySummary ''Service'' (si_Name input) ''created'') w1))"

definition notFoundStatus :: "string \<Rightarrow> goerr \<Rightarrow> nat" where
  "notFoundStatus msg e = (if e = Leaf msg \<or> errIs e ErrNoRows then 404 else 500)"

definition handleUpdateService :: "int \<Rightarrow> serviceInput \<Rightarrow> changeWorker \<Rightarrow> nat \<times> changeWorker" where
  "handleUpdateService i input w =
     (case GetService i (dbOf w) of
        Inl e \<Rightarrow> (lookupStatus e, w)
      | Inr svc \<Rightarrow>
          if s_is_system svc then (403, w)
          else if \<not> serviceRequestOk input then (400, w)
          else case onDb (persistServiceUpdateTx i (si_Name input) (si_Ports input) (si_SourcePorts input) (orDefault (si_Protocol input) ''tcp'')) w of
            (Inl e, w1) \<Rightarrow> (notFoundStatus ''service not found'' e, w1)
          | (Inr _, w1) \<Rightarrow> respondQueued 200 (queueServiceChange i ''update'' (entitySummary ''Service'' (si_Name input) ''updated'') w1))"

text \<open>A deletion that is blocked by a policy is a conflict.\<close>

definition deleteStatus :: "string \<Rightarrow> string \<Rightarrow> goerr \<Rightarrow> nat" where
  "deleteStatus inUse notFound e = (if e = Leaf inUse then 409 else notFoundStatus notFound e)"

definition handleDeleteService :: "int \<Rightarrow> changeWorker \<Rightarrow> nat \<times> changeWorker" where
  "handleDeleteService i w =
     (case GetService i (dbOf w) of
        Inl e \<Rightarrow> (lookupStatus e, w)
      | Inr svc \<Rightarrow>
          if s_is_system svc then (403, w)
          else case fst (serviceConstraintsTx i (dbOf w)) of
            Inl e \<Rightarrow> (if e = Leaf ''Cannot delete service: it is in use by policies'' then 409 else 500, w)
          | Inr _ \<Rightarrow>
              (case onDb (servicesDelete i) w of
                 (Inl e, w1) \<Rightarrow> (deleteStatus ''Cannot delete service: it is in use by policies'' ''service not found'' e, w1)
               | (Inr _, w1) \<Rightarrow> respondQueued 204 (queueServiceChange i ''delete'' (entitySummary ''Service'' (s_name svc) ''deleted'') w1)))"

section \<open>Groups\<close>

definition handleCreateGroup :: "int \<Rightarrow> string \<Rightarrow> string \<Rightarrow> changeWorker \<Rightarrow> nat \<times> changeWorker" where
  "handleCreateGroup i name description w =
     (if name = [] \<or> ValidateName name \<noteq> Inr () then (400, w)
      else case onDb (groupsCreate i name description) w of
        (Inl _, w1) \<Rightarrow> (500, w1)
      | (Inr _, w1) \<Rightarrow> respondQueued 201 (QueueGroupChangeSummary i ''create'' ''created'' w1))"

definition handleUpdateGroup :: "int \<Rightarrow> string option \<Rightarrow> string option \<Rightarrow> changeWorker \<Rightarrow> nat \<times> changeWorker" where
  "handleUpdateGroup i name description w =
     (if coalesce name [] \<noteq> [] \<and> ValidateName (coalesce name []) \<noteq> Inr () then (400, w)
      else case onDb (groupsUpdate i name description) w of
        (Inl e, w1) \<Rightarrow> (notFoundStatus ''group not found'' e, w1)
      | (Inr hasChanges, w1) \<Rightarrow>
          if hasChanges then respondQueued 200 (QueueGroupChangeSummary i ''update'' ''updated'' w1) else (200, w1))"

definition GetGroupSystemStatus :: "int \<Rightarrow> database \<Rightarrow> bool res" where
  "GetGroupSystemStatus i db =
     wrapE ''query system status'' (queryRow db (QEntity ''system'' ''groups'' i) (map g_is_system (filter (liveGroupRow i) (db_groups db))))"

definition handleDeleteGroup :: "int \<Rightarrow> changeWorker \<Rightarrow> nat \<times> changeWorker" where
  "handleDeleteGroup i w =
     (case GetGroupSystemStatus i (dbOf w) of
        Inl e \<Rightarrow> (lookupStatus e, w)
      | Inr isSystem \<Rightarrow>
          if isSystem then (403, w)
          else case fst (groupConstraintsTx i (dbOf w)) of
            Inl e \<Rightarrow> (if e = Leaf ''Cannot delete group: it is in use by policies'' then 409 else 500, w)
          | Inr _ \<Rightarrow>
              (case onDb (groupsDelete i) w of
                 (Inl e, w1) \<Rightarrow> (deleteStatus ''Cannot delete group: it is in use by policies'' ''group not found'' e, w1)
               | (Inr _, w1) \<Rightarrow> respondQueued 204 (QueueGroupChangeSummary i ''delete'' ''deleted'' w1)))"

text \<open>The summary of a change of membership names peer and group when both are found.\<close>

definition memberSummary :: "int \<Rightarrow> int \<Rightarrow> string \<Rightarrow> database \<Rightarrow> string" where
  "memberSummary groupID peerID verb db =
     (case (GetPeerHostname db peerID, GetGroupTx groupID db) of
        (Inr hostname, Inr grp) \<Rightarrow>
          ''Peer '' @ [CHR 0x27] @ hostname @ [CHR 0x27] @ '' '' @ verb @ '' group '' @ [CHR 0x27] @ g_name grp @ [CHR 0x27]
      | _ \<Rightarrow> ''Peer '' @ verb @ '' group'')"

definition addMemberStatus :: "goerr \<Rightarrow> nat" where
  "addMemberStatus e =
     (if e = Leaf ''group not found'' \<or> errIs e ErrNoRows \<or> e = Wrap ''insert member'' [fkError] then 404
      else if e = Leaf ''peer already in group'' then 409 else 500)"

definition handleAddGroupMember :: "int \<Rightarrow> int \<Rightarrow> changeWorker \<Rightarrow> nat \<times> changeWorker" where
  "handleAddGroupMember groupID peerID w =
     (if peerID = 0 then (400, w)
      else case GetGroupTx groupID (dbOf w) of
        Inl e \<Rightarrow> (lookupStatus e, w)
      | Inr _ \<Rightarrow>
          (case GetPeerHostname (dbOf w) peerID of
             Inl e \<Rightarrow> (lookupStatus e, w)
           | Inr _ \<Rightarrow>
               (case listGroupPeers groupID (dbOf w) of
                  Inl _ \<Rightarrow> (500, w)
                | Inr members \<Rightarrow>
                    if peerID \<in> set members then (409, w)
                    else case onDb (groupsAddMember groupID peerID) w of
                      (Inl e, w1) \<Rightarrow> (addMemberStatus e, w1)
                    | (Inr _, w1) \<Rightarrow>
                        respondQueued 201 (QueueGroupChange groupID ''update'' (memberSummary groupID peerID ''added to'' (dbOf w1)) w1))))"

definition handleDeleteGroupMember :: "int \<Rightarrow> int \<Rightarrow> changeWorker \<Rightarrow> nat \<times> changeWorker" where
  "handleDeleteGroupMember groupID peerID w =
     (case onDb (groupsDeleteMember groupID peerID) w of
        (Inl e, w1) \<Rightarrow> (notFoundStatus ''group not found'' e, w1)
      | (Inr deleted, w1) \<Rightarrow>
          if \<not> deleted then (204, w1)
          else
            (let summary = memberSummary groupID peerID ''removed from'' (dbOf w1);
                 (queueErr, w2) = QueueGroupChange groupID ''update'' summary w1;
                 gone = (case GetPeerHostname (dbOf w1) peerID of Inl e \<Rightarrow> errIs e ErrNoRows | Inr _ \<Rightarrow> False);
                 (peerErr, w3) = (if gone then (None, w2) else QueuePeerChange [peerID] ''group'' ''update'' groupID summary w2) in
             if queueErr = None \<and> peerErr = None then (204, w3) else (500, w3)))"

section \<open>What queueing leaves alone\<close>

lemma AddPendingChange_tables: "\<exists>ps. snd (AddPendingChange p t a i sm db) = db\<lparr>db_pending := ps\<rparr>"
proof (cases "snd (AddPendingChange p t a i sm db) = db")
  case True
  then show ?thesis by (intro exI [of _ "db_pending db"]) simp
next
  case False
  then show ?thesis by (auto simp: AddPendingChange_def split: if_splits)
qed

lemma queueEach_tables: "queueEach t a i sm ps errs suc db = (e, s, db') \<Longrightarrow> \<exists>rows. db' = db\<lparr>db_pending := rows\<rparr>"
proof (induction ps arbitrary: errs suc db)
  case Nil
  then show ?case by (intro exI [of _ "db_pending db"]) simp
next
  case (Cons p ps)
  obtain rows where rows: "snd (AddPendingChange p t a i sm db) = db\<lparr>db_pending := rows\<rparr>" using AddPendingChange_tables by blast
  from Cons.prems show ?case
  proof (cases rule: queueEach_Cons)
    case (failed x db1)
    with Cons.IH [OF failed(2)] rows show ?thesis by auto
  next
    case (added db1)
    with Cons.IH [OF added(2)] rows show ?thesis by auto
  qed
qed

lemma processChange_tables: "\<exists>rows. ch_db (snd (processChange work s)) = (ch_db s)\<lparr>db_pending := rows\<rparr>"
proof -
  have same: "\<exists>rows. db = db\<lparr>db_pending := rows\<rparr>" for db by (rule exI [of _ "db_pending db"]) simp
  show ?thesis
    using queueEach_tables same
    by (fastforce simp: processChange_def processPeerChange_def processGroupChange_def Let_def split: sum.splits prod.splits)
qed

lemma queueWork_tables: "queueWork work w = (r, w') \<Longrightarrow> \<exists>rows. dbOf w' = (dbOf w)\<lparr>db_pending := rows\<rparr>"
  using queueWork_cases [of work w r w'] processChange_tables [of work "wk_data w"]
  by (auto simp: send_def intro: exI [of _ "db_pending (dbOf w)"])

lemma enqueue_tables: "enqueuePeerChange ids t a i sm w = (r, w') \<Longrightarrow> \<exists>rows. dbOf w' = (dbOf w)\<lparr>db_pending := rows\<rparr>"
  using queueWork_tables by (fastforce simp: enqueuePeerChange_def QueuePeerChange_def intro: exI [of _ "db_pending (dbOf w)"] split: if_splits)

interpretation pq: same_live db "db\<lparr>db_pending := rows\<rparr>" for db rows
  by unfold_locales (simp_all add: inGroup_def liveGroup_def groupMemberRows_def fun_eq_iff)

section \<open>Signals\<close>

text \<open>The change is recorded for the peer, or waits in the buffer of the worker.\<close>

definition signalled :: "changeWorker \<Rightarrow> int \<Rightarrow> string \<Rightarrow> int \<Rightarrow> string \<Rightarrow> bool" where
  "signalled w peer changeType changeID changeAction \<longleftrightarrow>
     hasPending (dbOf w) peer changeType changeID changeAction \<or>
     (\<exists>work \<in> set (wk_queue w). \<not> cw_isGroup work \<and> peer \<in> set (cw_peerIDs work) \<and> cw_changeType work = changeType \<and>
        cw_changeID work = changeID \<and> cw_changeAction work = changeAction)"

lemma QueuePeerChange_signals:
  assumes "QueuePeerChange ids t a i sm w = (None, w')" and "p \<in> set ids"
  shows "signalled w' p t i a"
proof -
  let ?work = "\<lparr>cw_peerIDs = ids, cw_changeType = t, cw_changeAction = a, cw_changeID = i, cw_summary = sm, cw_isGroup = False, cw_groupID = 0\<rparr>"
  from queueWork_cases [OF assms(1) [unfolded QueuePeerChange_def]] show ?thesis
  proof
    assume "None = None \<and> w' = send ?work w \<and> hasRoom w \<and> \<not> wk_stopped w \<and> \<not> isDoneClosed w"
    then show ?thesis using assms(2) by (auto simp: signalled_def send_def)
  next
    assume s: "w' = w\<lparr>wk_data := snd (processChange ?work (wk_data w))\<rparr> \<and> None = fst (processChange ?work (wk_data w))"
    obtain errs suc db' where q: "queueEach t a i sm ids None [] (dbOf w) = (errs, suc, db')" by (metis surj_pair)
    with s have "errs = None" "dbOf w' = db'" by (auto simp: processChange_def processPeerChange_def)
    with q queueEach_all_pending assms(2) show ?thesis by (auto simp: signalled_def)
  qed
qed

lemma enqueue_signals: "enqueuePeerChange ids t a i sm w = (None, w') \<Longrightarrow> p \<in> set ids \<Longrightarrow> signalled w' p t i a"
  using QueuePeerChange_signals by (auto simp: enqueuePeerChange_def split: if_splits)

lemma affected_pol:
  assumes "GetAffectedPeersByPolicy db i = Inr ids" and "wf_db db" and "pol \<in> set (applicablePolicies db peer)"
    and "pol_ID pol = i" and "peer \<in> set (map p_id (db_peers db))"
  shows "peer \<in> set ids"
proof -
  from assms(3) obtain row where row: "row \<in> set (db_policies db)" "applicableCol db peer row" "pol_ID pol = pl_id row"
    by (auto simp: applicablePolicies_def scanPolicy_def)
  show ?thesis using GetAffectedPeersByPolicy_applicable [of db row ids peer] assms row by simp
qed

section \<open>Policy requests\<close>

text \<open>A transaction that changes rows of policies and the snapshots.\<close>

definition policyWrite :: "database \<Rightarrow> database \<Rightarrow> bool" where
  "policyWrite db db' \<longleftrightarrow> (\<exists>P f rows. (\<forall>p. pl_id (f p) = pl_id p) \<and> db' = onPolicies P f (db\<lparr>db_snapshots := rows\<rparr>))"

lemma policyWrite_wf: "policyWrite db db' \<Longrightarrow> wf_db db \<Longrightarrow> wf_db db' \<and> db_peers db' = db_peers db"
proof -
  assume "policyWrite db db'" and wf: "wf_db db"
  then obtain P f rows where f: "\<forall>p. pl_id (f p) = pl_id p" and d: "db' = onPolicies P f (db\<lparr>db_snapshots := rows\<rparr>)"
    by (auto simp: policyWrite_def)
  have "map pl_id (db_policies db') = map pl_id (db_policies db)" using f by (simp add: d onPolicies_def)
  moreover have "db_peers db' = db_peers db" "db_groups db' = db_groups db" "db_services db' = db_services db" "db_members db' = db_members db"
    by (simp_all add: d onPolicies_def)
  ultimately show ?thesis using wf by (simp only: wf_db_def simp_thms)
qed

lemma snapshot_rows: "policySnapshotTx a i db = (Inr (), db') \<Longrightarrow> \<exists>rows. db' = db\<lparr>db_snapshots := rows\<rparr>"
  by (auto simp: policySnapshotTx_def bindS_Inr wrapS_def wrapE_def liftQ_def CreateSnapshot_def execS_def
      intro: exI [of _ "db_snapshots db"] split: if_splits prod.splits sum.splits)

lemma policyTx_write:
  assumes "onDb (RunInTx (bindS (policySnapshotTx a i) (\<lambda>_. execUpdate q msg found violates (onPolicies P f)))) w = (Inr u, w')"
    and "\<And>p. pl_id (f p) = pl_id p"
  shows "policyWrite (dbOf w) (dbOf w') \<and> (\<exists>rows. dbOf w' = onPolicies P f ((dbOf w)\<lparr>db_snapshots := rows\<rparr>))"
proof -
  from assms(1) obtain e where "policySnapshotTx a i (dbOf w) = (Inr (), e)" and d: "dbOf w' = onPolicies P f e"
    by (auto simp: onDb_def RunInTx_def bindS_def execUpdate_def split: prod.splits sum.splits if_splits)
  then obtain rows where "e = (dbOf w)\<lparr>db_snapshots := rows\<rparr>" using snapshot_rows by blast
  with d assms(2) show ?thesis by (auto simp: policyWrite_def)
qed

lemma created_wf:
  assumes "onDb (policiesCreate i p) w = (Inr u, w')" and "wf_db (dbOf w)" and "i \<notin> pl_id ` set (db_policies (dbOf w))"
  shows "wf_db (dbOf w') \<and> db_peers (dbOf w') = db_peers (dbOf w)"
proof -
  from assms(1) obtain e where e: "CreatePolicy i p (dbOf w) = (Inr (), e)" and "policySnapshotTx ''create'' i e = (Inr (), dbOf w')"
    by (auto simp: onDb_def bindS_def split: prod.splits sum.splits)
  then obtain rows where "dbOf w' = e\<lparr>db_snapshots := rows\<rparr>" using snapshot_rows by blast
  with e assms(2,3) show ?thesis by (auto simp: CreatePolicy_def wf_db_def split: if_splits)
qed

lemma applicable_row:
  "pol \<in> set (applicablePolicies db peer) \<Longrightarrow> \<exists>row \<in> set (db_policies db). pl_id row = pol_ID pol \<and> \<not> pl_pending_delete row"
  by (auto simp: applicablePolicies_def scanPolicy_def applicableCol_def)

lemma deleted_not_applicable:
  assumes "onDb (policiesDelete i) w = (Inr u, w')" and "pol \<in> set (applicablePolicies (dbOf w') peer)"
  shows "pol_ID pol \<noteq> i"
proof -
  obtain rows where "dbOf w' = onPolicies (livePolicy i) (\<lambda>p. p\<lparr>pl_pending_delete := True\<rparr>) ((dbOf w)\<lparr>db_snapshots := rows\<rparr>)"
    using policyTx_write [OF assms(1) [unfolded policiesDelete_def SoftDeletePolicyTx_def]] by auto
  with applicable_row [OF assms(2)] show ?thesis by (auto simp: onPolicies_def livePolicy_def split: if_splits)
qed

fun requestID :: "policyRequest \<Rightarrow> int" where
  "requestID (CreateRequest i _) = i"
| "requestID (UpdateRequest i _) = i"
| "requestID (DeleteRequest i) = i"
| "requestID (PatchRequest i _) = i"

fun requestAction :: "policyRequest \<Rightarrow> string" where
  "requestAction (CreateRequest _ _) = ''create''"
| "requestAction (UpdateRequest _ _) = ''update''"
| "requestAction (DeleteRequest _) = ''delete''"
| "requestAction (PatchRequest _ _) = ''update''"

text \<open>The database gives a new identifier to a new policy.\<close>

fun freshRequest :: "policyRequest \<Rightarrow> database \<Rightarrow> bool" where
  "freshRequest (CreateRequest i _) db = (i \<notin> pl_id ` set (db_policies db))"
| "freshRequest _ db = True"

lemma respondQueued_ok: "respondQueued ok q = (status, w') \<Longrightarrow> status < 300 \<Longrightarrow> q = (None, w')"
  by (auto simp: respondQueued_def split: prod.splits option.splits)

lemma status_ge: "\<not> lookupStatus e < 300" "\<not> policyTxStatus e < 300"
  by (simp_all add: lookupStatus_def policyTxStatus_def)

text \<open>The peers queued include those affected in a state of the request.\<close>

lemma queued_covers:
  assumes q: "enqueuePeerChange ids t a i sm w1 = (None, w')" and wf: "wf_db db" and peer: "peer \<in> set (map p_id (db_peers db))"
    and aff: "GetAffectedPeersByPolicy db i = Inr ids'" and sub: "set ids' \<subseteq> set ids"
    and pol: "pol \<in> set (applicablePolicies db peer)" "pol_ID pol = i"
  shows "signalled w' peer t i a"
  using enqueue_signals [OF q] affected_pol [OF aff wf pol peer] sub by auto

lemma applicable_after:
  "enqueuePeerChange ids t a i sm w1 = (r, w') \<Longrightarrow> applicablePolicies (dbOf w') peer = applicablePolicies (dbOf w1) peer"
  using enqueue_tables [of ids t a i sm w1 r w'] pq.live_policies by fastforce

lemma create_signals:
  assumes "wf_db (dbOf w)" and "handleCreatePolicy i input w = (status, w')" and "status < 300"
    and "i \<notin> pl_id ` set (db_policies (dbOf w))" and "peer \<in> set (map p_id (db_peers (dbOf w)))"
    and "pol \<in> set (applicablePolicies (dbOf w) peer) \<union> set (applicablePolicies (dbOf w') peer)" and "pol_ID pol = i"
  shows "signalled w' peer ''policy'' i ''create''"
proof -
  from assms(2,3) obtain p u w1 ids where c: "onDb (policiesCreate i p) w = (Inr u, w1)"
    and a: "GetAffectedPeersByPolicy (dbOf w1) i = Inr ids"
    and q: "enqueuePeerChange ids ''policy'' ''create'' i (entitySummary ''Policy'' (in_Name input) ''created'') w1 = (None, w')"
    unfolding handleCreatePolicy_def by (auto dest: respondQueued_ok split: sum.splits prod.splits simp del: policiesCreate_def)
  have "pol \<notin> set (applicablePolicies (dbOf w) peer)" using assms(4,7) applicable_row by force
  then have "pol \<in> set (applicablePolicies (dbOf w1) peer)" using assms(6) applicable_after [OF q] by simp
  then show ?thesis using queued_covers [OF q _ _ a _ _ assms(7)] created_wf [OF c assms(1,4)] assms(5) by simp
qed

lemma update_signals:
  assumes "wf_db (dbOf w)" and "handleUpdatePolicy i input w = (status, w')" and "status < 300"
    and "peer \<in> set (map p_id (db_peers (dbOf w)))"
    and "pol \<in> set (applicablePolicies (dbOf w) peer) \<union> set (applicablePolicies (dbOf w') peer)" and "pol_ID pol = i"
  shows "signalled w' peer ''policy'' i ''update''"
proof -
  from assms(2,3) obtain p u w1 old new where t: "onDb (policiesUpdate p) w = (Inr u, w1)"
    and o: "GetAffectedPeersByPolicy (dbOf w) i = Inr old" and n: "GetAffectedPeersByPolicy (dbOf w1) i = Inr new"
    and q: "enqueuePeerChange (MergePeerIDs [old, new]) ''policy'' ''update'' i (entitySummary ''Policy'' (in_Name input) ''updated'') w1 = (None, w')"
    unfolding handleUpdatePolicy_def buildAndPersistPolicyUpdate_def
    by (auto dest: respondQueued_ok simp: status_ge simp del: policiesUpdate_def split: sum.splits prod.splits if_splits)
  have "policyWrite (dbOf w) (dbOf w1)"
    using policyTx_write [OF t [unfolded policiesUpdate_def UpdatePolicyTx_def]] by (simp add: setPolicy_def)
  note wf = policyWrite_wf [OF this assms(1)]
  from assms(5) show ?thesis
    using queued_covers [OF q assms(1,4) o _ _ assms(6)] queued_covers [OF q _ _ n _ _ assms(6)] wf assms(4) applicable_after [OF q] by auto
qed

lemma patch_signals:
  assumes "wf_db (dbOf w)" and "handlePatchPolicy i enabled w = (status, w')" and "status < 300"
    and "peer \<in> set (map p_id (db_peers (dbOf w)))"
    and "pol \<in> set (applicablePolicies (dbOf w) peer) \<union> set (applicablePolicies (dbOf w') peer)" and "pol_ID pol = i"
  shows "signalled w' peer ''policy'' i ''update''"
proof -
  from assms(2,3) obtain b u w1 old new sm where t: "onDb (policiesPatch i b) w = (Inr u, w1)"
    and o: "GetAffectedPeersByPolicy (dbOf w) i = Inr old" and n: "GetAffectedPeersByPolicy (dbOf w1) i = Inr new"
    and q: "enqueuePeerChange (MergePeerIDs [old, new]) ''policy'' ''update'' i sm w1 = (None, w')"
    unfolding handlePatchPolicy_def Let_def
    by (auto dest: respondQueued_ok simp: status_ge simp del: policiesPatch_def split: option.splits sum.splits prod.splits)
  have "policyWrite (dbOf w) (dbOf w1)"
    using policyTx_write [OF t [unfolded policiesPatch_def PatchPolicyEnabledTx_def]] by simp
  note wf = policyWrite_wf [OF this assms(1)]
  from assms(5) show ?thesis
    using queued_covers [OF q assms(1,4) o _ _ assms(6)] queued_covers [OF q _ _ n _ _ assms(6)] wf assms(4) applicable_after [OF q] by auto
qed

lemma delete_signals:
  assumes "wf_db (dbOf w)" and "handleDeletePolicy i w = (status, w')" and "status < 300"
    and "peer \<in> set (map p_id (db_peers (dbOf w)))"
    and "pol \<in> set (applicablePolicies (dbOf w) peer) \<union> set (applicablePolicies (dbOf w') peer)" and "pol_ID pol = i"
  shows "signalled w' peer ''policy'' i ''delete''"
proof -
  from assms(2,3) obtain u w1 old sm where t: "onDb (policiesDelete i) w = (Inr u, w1)"
    and o: "GetAffectedPeersByPolicy (dbOf w) i = Inr old"
    and q: "enqueuePeerChange old ''policy'' ''delete'' i sm w1 = (None, w')"
    unfolding handleDeletePolicy_def
    by (auto dest: respondQueued_ok simp: status_ge simp del: policiesDelete_def split: sum.splits prod.splits)
  have "pol \<in> set (applicablePolicies (dbOf w) peer)"
    using assms(5,6) deleted_not_applicable [OF t] applicable_after [OF q] by auto
  then show ?thesis using queued_covers [OF q assms(1,4) o _ _ assms(6)] by simp
qed

text \<open>
  C15 (HANDLED): A request to create, update, switch or delete a policy that is answered with success
  leaves no peer behind: every peer for which the compiler loads the policy before the request or
  after it has the change recorded as pending or waiting in the buffer of the change worker.
\<close>

theorem handlePolicy_signals:
  assumes "wf_db (dbOf w)" and "freshRequest req (dbOf w)" and "handlePolicy req w = (status, w')" and "status < 300"
    and "peer \<in> set (map p_id (db_peers (dbOf w)))"
    and "pol \<in> set (applicablePolicies (dbOf w) peer) \<union> set (applicablePolicies (dbOf w') peer)"
    and "pol_ID pol = requestID req"
  shows "signalled w' peer ''policy'' (requestID req) (requestAction req)"
  using assms by (cases req) (auto intro: create_signals update_signals patch_signals delete_signals)

definition exUpdate :: policyRequest where
  "exUpdate = UpdateRequest 1 \<lparr>in_Name = ''p'', in_SourceID = 0, in_SourceType = [], in_ServiceID = 0, in_TargetID = 0, in_TargetType = ''peer'',
     in_SourceIP = None, in_TargetIP = Some ''10.0.0.0/8'', in_Action = ''DROP'', in_Priority = 5, in_Enabled = None,
     in_TargetScope = [], in_Direction = []\<rparr>"

theorem handlePolicy_signals_witness:
  "signalled (snd (handlePolicy exUpdate (NewChangeWorker True exDB))) 2 ''policy'' 1 ''update''"
proof -
  let ?w = "NewChangeWorker True exDB"
  have s: "fst (handlePolicy exUpdate ?w) = 200" by code_simp
  have p: "scanPolicy exDB 2 exPolicy \<in> set (applicablePolicies (dbOf ?w) 2)" "2 \<in> set (map p_id (db_peers (dbOf ?w)))"
    "pol_ID (scanPolicy exDB 2 exPolicy) = 1" "wf_db (dbOf ?w)" "freshRequest exUpdate (dbOf ?w)" by code_simp+
  have r: "requestID exUpdate = 1" "requestAction exUpdate = ''update''" by (simp_all add: exUpdate_def)
  have "fst (handlePolicy exUpdate ?w) < 300" by (simp add: s)
  from handlePolicy_signals [OF p(4,5) prod.collapse [symmetric] this p(2), of "scanPolicy exDB 2 exPolicy"] p(1,3) r
  show ?thesis by simp
qed

section \<open>What is stored\<close>

definition okOverride :: "string \<Rightarrow> string option \<Rightarrow> bool" where
  "okOverride entityType ip = (case ip of None \<Rightarrow> True | Some s \<Rightarrow> entityType = ''peer'' \<and> ValidatePeerCIDR s = Inr ())"

definition okPolicy :: "policy_row \<Rightarrow> bool" where
  "okPolicy p \<longleftrightarrow>
     IsValidAction (pl_action p) \<and> IsValidTargetScope (pl_target_scope p) \<and>
     (case pl_direction p of None \<Rightarrow> True | Some d \<Rightarrow> IsValidDirection d) \<and>
     IsValidEntityType (pl_source_type p) \<and> IsValidEntityType (pl_target_type p) \<and>
     okOverride (pl_source_type p) (pl_source_ip p) \<and> okOverride (pl_target_type p) (pl_target_ip p)"

lemma keepOverride_ok: "(\<And>s. ip = Some s \<Longrightarrow> s \<noteq> [] \<Longrightarrow> t = ''peer'' \<Longrightarrow> ValidatePeerCIDR s = Inr ()) \<Longrightarrow> okOverride t (keepOverride t ip)"
  by (cases ip) (auto simp: okOverride_def keepOverride_def)

lemma overrides_valid:
  assumes "ValidatePeerOverrideIPs (ptrText si) (ptrText ti) st tt = Inr ()"
  shows "okOverride st (keepOverride st si)" and "okOverride tt (keepOverride tt ti)"
  using assms by (auto simp: ValidatePeerOverrideIPs_def ptrText_def bindE_eq_Inr wrapE_eq_Inr intro!: keepOverride_ok split: if_splits)

lemma validated_row:
  assumes "validatePolicyInput input b = Inr input'" and "in_SourceType input \<noteq> []" and "in_TargetType input \<noteq> []"
  shows "okPolicy (policyRowOf i e input')"
  using assms overrides_valid [of "in_SourceIP input" "in_TargetIP input" "in_SourceType input" "in_TargetType input"]
  by (auto simp: validatePolicyInput_def bindE_eq_Inr Let_def okPolicy_def policyRowOf_def split: if_splits)

lemma created_ok: "createPolicyRow input = Inr p \<Longrightarrow> okPolicy p"
proof -
  assume a: "createPolicyRow input = Inr p"
  then obtain input' where v: "validatePolicyInput input False = Inr input'" by (auto simp: createPolicyRow_def bindE_eq_Inr)
  then have n: "in_SourceType input \<noteq> []" "in_TargetType input \<noteq> []" and act: "in_Action input' \<noteq> []"
    by (auto simp: validatePolicyInput_def bindE_eq_Inr Let_def orDefault_def split: if_splits)
  have "okPolicy (policyRowOf 0 e (input'\<lparr>in_Priority := k\<rparr>))" for e k
    using validated_row [OF v n, of 0 e] by (simp add: okPolicy_def policyRowOf_def)
  then show ?thesis using a v act by (auto simp: createPolicyRow_def bindE_eq_Inr orDefault_def okPolicy_def policyRowOf_def)
qed

lemma updated_ok:
  assumes "updatePolicyRow i existing input = Inr p" and "okPolicy existing"
  shows "okPolicy p"
proof -
  let ?m = "mergePolicyInput existing input"
  have ne: "in_SourceType ?m \<noteq> []" "in_TargetType ?m \<noteq> []"
    using assms(2) by (auto simp: mergePolicyInput_def orDefault_def okPolicy_def IsValidEntityType_def)
  from assms(1) obtain input' where "validatePolicyInput ?m True = Inr input'"
    and "p = policyRowOf i (case in_Enabled input' of None \<Rightarrow> pl_enabled existing | Some e \<Rightarrow> e) input'"
    by (auto simp: updatePolicyRow_def bindE_eq_Inr)
  with validated_row [OF _ ne] show ?thesis by simp
qed

lemma okPolicy_read: "okPolicy p \<Longrightarrow> okPolicy (readPolicy p)"
  by (auto simp: okPolicy_def readPolicy_def okOverride_def nullableIP_def coalesce_def IsValidDirection_def split: option.splits)

lemma GetPolicyTx_ok: "GetPolicyTx i db = Inr p \<Longrightarrow> list_all okPolicy (db_policies db) \<Longrightarrow> okPolicy p"
  by (auto simp: GetPolicyTx_def wrapE_eq_Inr queryRow_Inr list_all_iff map_eq_Cons_conv intro!: okPolicy_read dest: filter_eq_ConsD)

lemma onPolicies_ok:
  assumes "list_all okPolicy (db_policies db)" and "\<And>p. okPolicy p \<Longrightarrow> okPolicy (f p)"
  shows "list_all okPolicy (db_policies (onPolicies P f (db\<lparr>db_snapshots := rows\<rparr>)))"
  using assms by (auto simp: onPolicies_def list_all_iff)

lemma RunInTx_onDb_err: "onDb (RunInTx m) w = (Inl e, w') \<Longrightarrow> dbOf w' = dbOf w"
  by (auto simp: onDb_def RunInTx_def split: prod.splits sum.splits if_splits)

lemma policyTx_ok:
  assumes "onDb (RunInTx (bindS (policySnapshotTx a i) (\<lambda>_. execUpdate q msg found violates (onPolicies P f)))) w = (r, w')"
    and "\<And>p. pl_id (f p) = pl_id p" and "\<And>p. okPolicy p \<Longrightarrow> okPolicy (f p)" and "list_all okPolicy (db_policies (dbOf w))"
  shows "list_all okPolicy (db_policies (dbOf w'))"
proof (cases r)
  case (Inl e)
  then show ?thesis using RunInTx_onDb_err assms(1,4) by metis
next
  case (Inr u)
  from policyTx_write [OF assms(1) [unfolded Inr] assms(2)] obtain rows
    where "dbOf w' = onPolicies P f ((dbOf w)\<lparr>db_snapshots := rows\<rparr>)" by blast
  then show ?thesis using onPolicies_ok [OF assms(4,3)] by simp
qed

lemma writes_ok:
  "onDb (policiesUpdate p) w = (r, w') \<Longrightarrow> okPolicy p \<Longrightarrow> list_all okPolicy (db_policies (dbOf w)) \<Longrightarrow> list_all okPolicy (db_policies (dbOf w'))"
  "onDb (policiesPatch i b) w = (r, w') \<Longrightarrow> list_all okPolicy (db_policies (dbOf w)) \<Longrightarrow> list_all okPolicy (db_policies (dbOf w'))"
  "onDb (policiesDelete i) w = (r, w') \<Longrightarrow> list_all okPolicy (db_policies (dbOf w)) \<Longrightarrow> list_all okPolicy (db_policies (dbOf w'))"
  unfolding policiesUpdate_def policiesPatch_def policiesDelete_def UpdatePolicyTx_def PatchPolicyEnabledTx_def SoftDeletePolicyTx_def
  by (erule policyTx_ok; simp add: setPolicy_def okPolicy_def)+

lemma create_ok:
  assumes "onDb (policiesCreate i p) w = (r, w')" and "okPolicy p" and "list_all okPolicy (db_policies (dbOf w))"
  shows "list_all okPolicy (db_policies (dbOf w'))"
  using assms by (auto simp: onDb_def bindS_def CreatePolicy_def policySnapshotTx_def CreateSnapshot_def wrapS_def execS_def okPolicy_def
      split: if_splits prod.splits sum.splits)

lemma enqueue_ok: "enqueuePeerChange ids t a i sm w = (r, w') \<Longrightarrow> db_policies (dbOf w') = db_policies (dbOf w)"
  using enqueue_tables by fastforce

lemma respondQueued_snd: "snd (respondQueued ok q) = snd q"
  by (auto simp: respondQueued_def split: prod.splits option.splits)

lemma enqueue_ok_snd: "db_policies (dbOf (snd (enqueuePeerChange ids t a i sm w))) = db_policies (dbOf w)"
  by (metis enqueue_ok prod.collapse)

text \<open>
  C17 (VALIDATED): Whatever is requested and whatever fails, the policies stored by requests are well
  formed: action, scope, direction and endpoint types are among the known ones, and an address
  override stands on a peer only and is never the whole address space.
\<close>

theorem handlePolicy_keeps_valid:
  assumes "list_all okPolicy (db_policies (dbOf w))" and "handlePolicy req w = (status, w')"
  shows "list_all okPolicy (db_policies (dbOf w'))"
proof (cases req)
  case (CreateRequest i input)
  then have "w' = snd (handleCreatePolicy i input w)" using assms(2) by simp
  then show ?thesis using assms(1) created_ok create_ok
    by (auto simp: handleCreatePolicy_def respondQueued_snd enqueue_ok_snd simp del: policiesCreate_def split: sum.splits prod.splits)
next
  case (UpdateRequest i input)
  then have "w' = snd (handleUpdatePolicy i input w)" using assms(2) by simp
  then show ?thesis using assms(1) updated_ok GetPolicyTx_ok writes_ok(1)
    by (auto simp: handleUpdatePolicy_def buildAndPersistPolicyUpdate_def respondQueued_snd enqueue_ok_snd simp del: policiesUpdate_def
        split: sum.splits prod.splits if_splits)
next
  case (DeleteRequest i)
  then have "w' = snd (handleDeletePolicy i w)" using assms(2) by simp
  then show ?thesis using assms(1) writes_ok(3)
    by (auto simp: handleDeletePolicy_def respondQueued_snd enqueue_ok_snd simp del: policiesDelete_def split: sum.splits prod.splits)
next
  case (PatchRequest i b)
  then have "w' = snd (handlePatchPolicy i b w)" using assms(2) by simp
  then show ?thesis using assms(1) writes_ok(2)
    by (auto simp: handlePatchPolicy_def Let_def respondQueued_snd enqueue_ok_snd simp del: policiesPatch_def
        split: sum.splits prod.splits option.splits)
qed

theorem handlePolicy_keeps_valid_witness:
  "list_all okPolicy (db_policies (dbOf (snd (handlePolicy exUpdate (NewChangeWorker True exDB)))))"
proof -
  have "list_all okPolicy (db_policies (dbOf (NewChangeWorker True exDB)))" by code_simp
  from handlePolicy_keeps_valid [OF this prod.collapse [symmetric]] show ?thesis .
qed

section \<open>Gaps of the validation\<close>

interpretation sq: same_live db "db\<lparr>db_snapshots := rows, db_pending := changes\<rparr>" for db rows changes
  by unfold_locales (simp_all add: inGroup_def liveGroup_def groupMemberRows_def fun_eq_iff)

lemma serviceSnapshot_rows: "SnapshotServiceTx a i db = (Inr (), db') \<Longrightarrow> \<exists>rows. db' = db\<lparr>db_snapshots := rows\<rparr>"
  by (auto simp: SnapshotServiceTx_def bindS_Inr wrapS_def wrapE_def liftQ_def CreateSnapshot_def execS_def
      intro: exI [of _ "db_snapshots db"] split: if_splits prod.splits sum.splits)

lemma serviceQueue_tables: "queueServiceChange i a sm w = (r, w') \<Longrightarrow> \<exists>changes. dbOf w' = (dbOf w)\<lparr>db_pending := changes\<rparr>"
  using enqueue_tables
  by (fastforce simp: queueServiceChange_def Let_def intro: exI [of _ "db_pending (dbOf w)"] split: sum.splits prod.splits option.splits if_splits)

text \<open>The tables after a successful update of a service and after a successful creation of a policy.\<close>

lemma updatedService_db:
  assumes "handleUpdateService i input w = (200, w')"
  shows "\<exists>rows changes. dbOf w' = (onServices (liveService i) (\<lambda>s. s\<lparr>s_name := si_Name input, s_ports := si_Ports input,
     s_source_ports := Some (si_SourcePorts input), s_protocol := orDefault (si_Protocol input) ''tcp''\<rparr>) (dbOf w))
       \<lparr>db_snapshots := rows, db_pending := changes\<rparr>"
proof -
  let ?tx = "persistServiceUpdateTx i (si_Name input) (si_Ports input) (si_SourcePorts input) (orDefault (si_Protocol input) ''tcp'')"
  from assms obtain u w1 sm where t: "onDb ?tx w = (Inr u, w1)" and q: "queueServiceChange i ''update'' sm w1 = (None, w')"
    unfolding handleUpdateService_def
    by (auto simp: lookupStatus_def notFoundStatus_def simp del: persistServiceUpdateTx_def dest!: respondQueued_ok split: sum.splits prod.splits if_splits)
  from t obtain e where "SnapshotServiceTx ''update'' i (dbOf w) = (Inr (), e)" and d: "UpdateServiceTx i (si_Name input) (si_Ports input)
      (si_SourcePorts input) (orDefault (si_Protocol input) ''tcp'') e = (Inr (), dbOf w1)"
    by (auto simp: onDb_def RunInTx_def bindS_def split: prod.splits sum.splits if_splits)
  then obtain rows where "e = (dbOf w)\<lparr>db_snapshots := rows\<rparr>" using serviceSnapshot_rows by blast
  with d have w1: "dbOf w1 = onServices (liveService i) (\<lambda>s. s\<lparr>s_name := si_Name input, s_ports := si_Ports input,
     s_source_ports := Some (si_SourcePorts input), s_protocol := orDefault (si_Protocol input) ''tcp''\<rparr>) ((dbOf w)\<lparr>db_snapshots := rows\<rparr>)"
    by (auto simp: UpdateServiceTx_def execUpdate_def split: if_splits)
  obtain changes where "dbOf w' = (dbOf w1)\<lparr>db_pending := changes\<rparr>" using serviceQueue_tables [OF q] by blast
  then show ?thesis by (intro exI [of _ rows] exI [of _ changes]) (simp add: w1 onServices_def)
qed

lemma createdPolicy_db:
  assumes "handleCreatePolicy i input w = (201, w')" and "createPolicyRow input = Inr p"
  shows "\<exists>rows changes. dbOf w' = (dbOf w)\<lparr>db_policies := db_policies (dbOf w) @ [p\<lparr>pl_id := i, pl_pending_delete := False\<rparr>],
     db_snapshots := rows, db_pending := changes\<rparr>"
proof -
  from assms obtain u w1 ids sm where c: "onDb (policiesCreate i p) w = (Inr u, w1)"
    and q: "enqueuePeerChange ids ''policy'' ''create'' i sm w1 = (None, w')"
    unfolding handleCreatePolicy_def by (auto dest!: respondQueued_ok split: sum.splits prod.splits simp del: policiesCreate_def)
  from c obtain e where e: "CreatePolicy i p (dbOf w) = (Inr (), e)" and "policySnapshotTx ''create'' i e = (Inr (), dbOf w1)"
    by (auto simp: onDb_def bindS_def split: prod.splits sum.splits)
  then obtain rows where "dbOf w1 = e\<lparr>db_snapshots := rows\<rparr>" using snapshot_rows by blast
  with e enqueue_tables [OF q] show ?thesis by (auto simp: CreatePolicy_def split: if_splits)
qed

definition exBadPorts :: serviceInput where
  "exBadPorts = \<lparr>si_Name = ''any'', si_Ports = ''0'', si_SourcePorts = [], si_Protocol = []\<rparr>"

definition exBadDB :: database where
  "exBadDB = exDB\<lparr>db_services := [exService\<lparr>s_name := ''any'', s_ports := ''0'', s_source_ports := Some []\<rparr>]\<rparr>"

lemma exBadDB_fails: "\<exists>e. Compile exBadDB ''t'' 2 = Inl e"
proof -
  have "isl (CompileLines exBadDB ''t'' 2)" by code_simp
  then show ?thesis by (cases "CompileLines exBadDB ''t'' 2") (auto simp: Compile_def)
qed

lemma exBadDB_services: "onServices (liveService 1) (\<lambda>s. s\<lparr>s_name := si_Name exBadPorts, s_ports := si_Ports exBadPorts,
     s_source_ports := Some (si_SourcePorts exBadPorts), s_protocol := orDefault (si_Protocol exBadPorts) ''tcp''\<rparr>) exDB = exBadDB"
  by (simp add: onServices_def exBadDB_def exDB_def exService_def exBadPorts_def orDefault_def liveService_def)

lemma dbOf_NewChangeWorker: "dbOf (NewChangeWorker b db) = db"
  by (simp add: NewChangeWorker_def newWorker_def)


definition exLineBreak :: policyInput where
  "exLineBreak = \<lparr>in_Name = ''x'' @ [NL], in_SourceID = 1, in_SourceType = ''peer'', in_ServiceID = 1, in_TargetID = 2,
     in_TargetType = ''peer'', in_SourceIP = None, in_TargetIP = None, in_Action = [], in_Priority = 0, in_Enabled = None,
     in_TargetScope = [], in_Direction = []\<rparr>"

definition exBroken :: policy_row where
  "exBroken = exPolicy\<lparr>pl_id := 2, pl_name := ''x'' @ [NL], pl_target_scope := ''both''\<rparr>"

definition exBrokenDB :: database where
  "exBrokenDB = exDB\<lparr>db_policies := [exPolicy, exBroken]\<rparr>"

lemma exBroken_row: "createPolicyRow exLineBreak = Inr (exBroken\<lparr>pl_id := 0\<rparr>)"
  by code_simp

lemma exBrokenDB_policies: "exDB\<lparr>db_policies := db_policies exDB @ [exBroken\<lparr>pl_id := 0, pl_id := 2, pl_pending_delete := False\<rparr>],
    db_snapshots := rows, db_pending := changes\<rparr> = exBrokenDB\<lparr>db_snapshots := rows, db_pending := changes\<rparr>"
  by (simp add: exBrokenDB_def exBroken_def exDB_def exPolicy_def)

text \<open>A line with a newline inside is read as two lines or more.\<close>

lemma broken_line_read:
  assumes "a @ NL # b \<in> set ls" and "NL \<notin> set b"
  shows "b \<in> set (splitByte NL (unlines ls))"
proof -
  from assms(1) obtain us vs where "ls = us @ (a @ NL # b) # vs" by (auto simp: in_set_conv_decomp)
  then have "unlines ls = (unlines us @ a) @ NL # (b @ NL # unlines vs)" by simp
  then show ?thesis by (simp only: splitByte_append splitByte_no_sep [OF assms(2)]) simp
qed

lemma exBrokenDB_line: "\<exists>t. Compile exBrokenDB ''t'' 2 = Inr t \<and> '' ---'' \<in> set (splitByte NL t)"
proof -
  have "case CompileLines exBrokenDB ''t'' 2 of Inl _ \<Rightarrow> False | Inr ls \<Rightarrow> list_ex (\<lambda>l. l = ''# --- Policy: x'' @ NL # '' ---'') ls"
    by code_simp
  then obtain ls where "CompileLines exBrokenDB ''t'' 2 = Inr ls" "(''# --- Policy: x'') @ NL # '' ---'' \<in> set ls"
    by (auto simp: list_ex_iff split: sum.splits)
  then show ?thesis using broken_line_read [of "''# --- Policy: x''" "'' ---''" ls] by (simp add: Compile_def)
qed


definition exPartial :: policyInput where
  "exPartial = \<lparr>in_Name = ''p'', in_SourceID = 0, in_SourceType = [], in_ServiceID = 0, in_TargetID = 0, in_TargetType = [],
     in_SourceIP = None, in_TargetIP = Some ''10.0.0.9'', in_Action = [], in_Priority = 0, in_Enabled = None,
     in_TargetScope = [], in_Direction = []\<rparr>"

text \<open>
  Omitted fields of an update are taken from the stored policy, but the first check runs before
  that: an address for a peer target is refused unless the request repeats the type.
\<close>

lemma partial_update_refused:
  "fst (handleUpdatePolicy 1 exPartial (NewChangeWorker True exDB)) = 400"
  "fst (handleUpdatePolicy 1 (exPartial\<lparr>in_TargetType := ''peer''\<rparr>) (NewChangeWorker True exDB)) = 200"
  by code_simp+

end
