(* ===== verification/Diff.thy ===== *)
theory Diff
  imports Prelude "HOL-Library.Sublist"
begin

text \<open>
  The textual difference shown with a pending bundle (\<^verbatim>\<open>internal/api/pending/diff.go\<close>): a
  table of two rows for the longest common subsequence of the lines, and the walk back through it.
\<close>

section \<open>Definitions\<close>

text \<open>The loop of \<^verbatim>\<open>splitLines\<close>; \<open>cur\<close> is the text since the last line break.\<close>

fun splitLinesLoop :: "string \<Rightarrow> string \<Rightarrow> string list" where
  "splitLinesLoop cur [] = (if cur = [] then [] else [cur])"
| "splitLinesLoop cur (c # s) = (if c = NL then cur # splitLinesLoop [] s else splitLinesLoop (cur @ [c]) s)"

definition splitLines :: "string \<Rightarrow> string list" where
  "splitLines s = splitLinesLoop [] s"

text \<open>The inner loop: the row of one old line from the row before it. The first entry of a row is always 0.\<close>

fun rowLoop :: "'a \<Rightarrow> 'a list \<Rightarrow> nat list \<Rightarrow> nat \<Rightarrow> nat list" where
  "rowLoop x (y # ys) (p0 # p1 # ps) left =
     (let c = (if x = y then p0 + 1 else if p1 > left then p1 else left) in c # rowLoop x ys (p1 # ps) c)"
| "rowLoop x _ _ left = []"

definition dpRow :: "'a \<Rightarrow> 'a list \<Rightarrow> nat list \<Rightarrow> nat list" where
  "dpRow x ys prev = 0 # rowLoop x ys prev 0"

text \<open>The two rows of the table; row \<open>i\<close> is stored at the parity of \<open>i\<close>.\<close>

definition rowAt :: "nat list \<times> nat list \<Rightarrow> nat \<Rightarrow> nat list" where
  "rowAt dp i = (if i mod 2 = 0 then fst dp else snd dp)"

definition setRow :: "nat \<Rightarrow> nat list \<Rightarrow> nat list \<times> nat list \<Rightarrow> nat list \<times> nat list" where
  "setRow i row dp = (if i mod 2 = 0 then (row, snd dp) else (fst dp, row))"

fun fillRows :: "nat \<Rightarrow> 'a list \<Rightarrow> 'a list \<Rightarrow> nat list \<times> nat list \<Rightarrow> nat list \<times> nat list" where
  "fillRows i [] ys dp = dp"
| "fillRows i (x # xs) ys dp = fillRows (Suc i) xs ys (setRow i (dpRow x ys (rowAt dp (i - 1))) dp)"

definition dpTable :: "'a list \<Rightarrow> 'a list \<Rightarrow> nat list \<times> nat list" where
  "dpTable xs ys = (let zeros = replicate (length ys + 1) 0 in fillRows 1 xs ys (zeros, zeros))"

function backtrack :: "string list \<Rightarrow> string list \<Rightarrow> nat list \<times> nat list \<Rightarrow> nat \<Rightarrow> nat \<Rightarrow> (string \<times> string) list" where
  "backtrack old new dp i j =
     (if i = 0 \<and> j = 0 then []
      else if i > 0 \<and> j > 0 \<and> old ! (i - 1) = new ! (j - 1)
      then (''  '', old ! (i - 1)) # backtrack old new dp (i - 1) (j - 1)
      else if j > 0 \<and> (i = 0 \<or> rowAt dp i ! (j - 1) \<ge> rowAt dp (i - 1) ! j)
      then (''+ '', new ! (j - 1)) # backtrack old new dp i (j - 1)
      else (''- '', old ! (i - 1)) # backtrack old new dp (i - 1) j)"
  by pat_completeness auto
termination
  by (relation "measure (\<lambda>(old, new, dp, i, j). i + j)") auto

declare backtrack.simps [simp del]

definition diffEntries :: "string list \<Rightarrow> string list \<Rightarrow> (string \<times> string) list" where
  "diffEntries old new = rev (backtrack old new (dpTable old new) (length old) (length new))"

definition generateDiff :: "string \<Rightarrow> string \<Rightarrow> string" where
  "generateDiff oldContent newContent =
     (if oldContent = newContent then ''No changes detected.''
      else concat (map (\<lambda>(prefix, line). prefix @ line @ [NL]) (diffEntries (splitLines oldContent) (splitLines newContent))))"

section \<open>Lines\<close>

lemma splitLinesLoop_line: "NL \<notin> set l \<Longrightarrow> splitLinesLoop cur (l @ NL # s) = (cur @ l) # splitLinesLoop [] s"
  by (induction l arbitrary: cur) auto

lemma splitLines_unlines: "\<forall>l \<in> set ls. NL \<notin> set l \<Longrightarrow> splitLines (unlines ls) = ls"
  by (induction ls) (auto simp: splitLines_def splitLinesLoop_line)

lemma splitLinesLoop_clean: "NL \<notin> set cur \<Longrightarrow> l \<in> set (splitLinesLoop cur s) \<Longrightarrow> NL \<notin> set l"
  by (induction cur s arbitrary: l rule: splitLinesLoop.induct) (auto split: if_splits)

lemma splitLines_clean: "l \<in> set (splitLines s) \<Longrightarrow> NL \<notin> set l"
  by (auto simp: splitLines_def dest: splitLinesLoop_clean [rotated])

section \<open>The walk gives both texts\<close>

lemma backtrack_sides:
  assumes "i \<le> length old" and "j \<le> length new"
  shows "map snd (filter (\<lambda>e. fst e \<noteq> ''+ '') (rev (backtrack old new dp i j))) = take i old \<and>
    map snd (filter (\<lambda>e. fst e \<noteq> ''- '') (rev (backtrack old new dp i j))) = take j new \<and>
    set (map fst (backtrack old new dp i j)) \<subseteq> {''  '', ''+ '', ''- ''} \<and>
    set (map snd (backtrack old new dp i j)) \<subseteq> set old \<union> set new"
  using assms
proof (induction old new dp i j rule: backtrack.induct)
  case (1 old new dp i j)
  have t: "take i old = take (i - 1) old @ [old ! (i - 1)]" "old ! (i - 1) \<in> set old" if "i > 0"
    using that 1(4) take_Suc_conv_app_nth [of "i - 1" old] by auto
  have u: "take j new = take (j - 1) new @ [new ! (j - 1)]" "new ! (j - 1) \<in> set new" if "j > 0"
    using that 1(5) take_Suc_conv_app_nth [of "j - 1" new] by auto
  consider "i = 0" "j = 0"
    | (keep) "i > 0" "j > 0" "old ! (i - 1) = new ! (j - 1)"
    | (add) "\<not> (i = 0 \<and> j = 0)" "\<not> (i > 0 \<and> j > 0 \<and> old ! (i - 1) = new ! (j - 1))" "j > 0" "i = 0 \<or> rowAt dp i ! (j - 1) \<ge> rowAt dp (i - 1) ! j"
    | (del) "\<not> (i = 0 \<and> j = 0)" "\<not> (i > 0 \<and> j > 0 \<and> old ! (i - 1) = new ! (j - 1))" "\<not> (j > 0 \<and> (i = 0 \<or> rowAt dp i ! (j - 1) \<ge> rowAt dp (i - 1) ! j))"
    by blast
  then show ?case
  proof cases
    case keep
    with 1(1) 1(4,5) t u show ?thesis by (subst (1 2 3 4) backtrack.simps) auto
  next
    case add
    with 1(2) 1(4,5) u show ?thesis by (subst (1 2 3 4) backtrack.simps) auto
  next
    case del
    then have "i > 0" by (cases i) auto
    with del 1(3) 1(4,5) t show ?thesis by (subst (1 2 3 4) backtrack.simps) auto
  qed (simp add: backtrack.simps)
qed

lemma diffEntries_sides:
  "map snd (filter (\<lambda>e. fst e \<noteq> ''+ '') (diffEntries old new)) = old"
  "map snd (filter (\<lambda>e. fst e \<noteq> ''- '') (diffEntries old new)) = new"
  "e \<in> set (diffEntries old new) \<Longrightarrow> fst e \<in> {''  '', ''+ '', ''- ''}"
  "e \<in> set (diffEntries old new) \<Longrightarrow> snd e \<in> set old \<union> set new"
  using backtrack_sides [OF order_refl order_refl, of old new "dpTable old new"] by (auto simp: diffEntries_def)

text \<open>The lines of the text are the entries, each with its prefix of two bytes.\<close>

lemma generateDiff_lines:
  assumes "oldContent \<noteq> newContent"
  shows "splitLines (generateDiff oldContent newContent) = map (\<lambda>e. fst e @ snd e) (diffEntries (splitLines oldContent) (splitLines newContent))"
proof -
  let ?es = "diffEntries (splitLines oldContent) (splitLines newContent)"
  have "generateDiff oldContent newContent = unlines (map (\<lambda>e. fst e @ snd e) ?es)"
    using assms by (simp add: generateDiff_def unlines_def comp_def split_def)
  moreover have "NL \<notin> set (fst e @ snd e)" if "e \<in> set ?es" for e
    using diffEntries_sides(3,4) [OF that] splitLines_clean by auto
  ultimately show ?thesis by (simp add: splitLines_unlines)
qed

lemma prefixed_side:
  assumes "\<forall>e \<in> set es. fst e \<in> {''  '', ''+ '', ''- ''}" and "length p = 2"
  shows "map (drop 2) (filter (\<lambda>l. take 2 l \<noteq> p) (map (\<lambda>e. fst e @ snd e) es)) = map snd (filter (\<lambda>e. fst e \<noteq> p) es)"
  using assms by (induction es) auto

text \<open>
  C30 (DIFF): The difference of two texts tells both apart and gives both back: the lines not marked as
  added are the lines of the old text, those not marked as removed are the lines of the new one, in
  order and with nothing else. Equal texts, and only they, give the message that nothing changed.
\<close>

theorem generateDiff_sides:
  "(let ls = splitLines (generateDiff old new) in
    if old = new then ls = [''No changes detected.'']
    else map (drop 2) (filter (\<lambda>l. take 2 l \<noteq> ''+ '') ls) = splitLines old \<and>
         map (drop 2) (filter (\<lambda>l. take 2 l \<noteq> ''- '') ls) = splitLines new)"
proof (cases "old = new")
  case True
  then show ?thesis by (simp add: generateDiff_def splitLines_def)
next
  case False
  have p: "\<forall>e \<in> set (diffEntries (splitLines old) (splitLines new)). fst e \<in> {''  '', ''+ '', ''- ''}"
    using diffEntries_sides(3) by blast
  show ?thesis
    using False by (simp add: Let_def generateDiff_lines prefixed_side [OF p] diffEntries_sides)
qed

section \<open>The table holds the longest common subsequence\<close>

fun lcsLen :: "'a list \<Rightarrow> 'a list \<Rightarrow> nat" where
  "lcsLen (x # xs) (y # ys) = (if x = y then Suc (lcsLen xs ys) else max (lcsLen xs (y # ys)) (lcsLen (x # xs) ys))"
| "lcsLen _ _ = 0"

lemma lcsLen_Nil [simp]: "lcsLen xs [] = 0"
  by (cases xs) simp_all

lemma lcsLen_attained: "\<exists>zs. subseq zs xs \<and> subseq zs ys \<and> length zs = lcsLen xs ys"
proof (induction xs ys rule: lcsLen.induct)
  case (1 x xs y ys)
  show ?case
  proof (cases "x = y")
    case True
    with 1(1) obtain zs where "subseq zs xs" "subseq zs ys" "length zs = lcsLen xs ys" by blast
    with True show ?thesis by (intro exI [of _ "x # zs"]) simp
  next
    case False
    with 1(2,3) show ?thesis by (cases "lcsLen xs (y # ys) \<le> lcsLen (x # xs) ys") (auto simp: max_def intro: list_emb_Cons)
  qed
qed auto

lemma lcsLen_longest: "subseq zs xs \<Longrightarrow> subseq zs ys \<Longrightarrow> length zs \<le> lcsLen xs ys"
proof (induction xs ys arbitrary: zs rule: lcsLen.induct)
  case (1 x xs y ys)
  show ?case
  proof (cases "x = y")
    case True
    have "subseq (tl zs) xs" "subseq (tl zs) ys" using 1(4,5) by (cases zs; auto split: if_splits dest: subseq_Cons')+
    with 1(1) True have "length (tl zs) \<le> lcsLen xs ys" by blast
    with True show ?thesis by simp
  next
    case False
    then have "subseq zs xs \<or> subseq zs ys" using 1(4,5) by (cases zs) (auto split: if_splits)
    with False 1(2-5) show ?thesis by fastforce
  qed
qed auto

text \<open>A row of the table, as a function of the prefixes of the new lines.\<close>

fun rowOf :: "('a list \<Rightarrow> nat) \<Rightarrow> 'a list \<Rightarrow> 'a list \<Rightarrow> nat list" where
  "rowOf f a [] = [f a]"
| "rowOf f a (y # ys) = f a # rowOf f (a @ [y]) ys"

lemma rowLoop_rowOf:
  "g a # rowLoop x ys (rowOf f a ys) (g a) = rowOf g a ys"
  if "\<And>a y. g (a @ [y]) = (if x = y then f a + 1 else max (f (a @ [y])) (g a))"
proof (induction ys arbitrary: a)
  case (Cons y ys)
  have "rowOf f (a @ [y]) ys = f (a @ [y]) # tl (rowOf f (a @ [y]) ys)" by (cases ys) simp_all
  then have "rowLoop x (y # ys) (rowOf f a (y # ys)) (g a) = g (a @ [y]) # rowLoop x ys (rowOf f (a @ [y]) ys) (g (a @ [y]))"
    using that [of a y] by (cases ys) (auto simp: Let_def max_def)
  then show ?case using Cons.IH [of "a @ [y]"] by simp
qed simp

lemma dpRow_lcs: "dpRow x ys (rowOf (\<lambda>a. lcsLen xs (rev a)) [] ys) = rowOf (\<lambda>a. lcsLen (x # xs) (rev a)) [] ys"
  unfolding dpRow_def using rowLoop_rowOf [where g = "\<lambda>a. lcsLen (x # xs) (rev a)" and f = "\<lambda>a. lcsLen xs (rev a)" and x = x and a = "[]"] by simp

lemma rowAt_setRow [simp]: "rowAt (setRow i row dp) i = row" "i > 0 \<Longrightarrow> rowAt (setRow i row dp) (i - 1) = rowAt dp (i - 1)"
  by (auto simp: rowAt_def setRow_def) presburger+

lemma fillRows_last:
  "rowAt dp i = rowOf (\<lambda>a. lcsLen (rev pre) (rev a)) [] ys \<Longrightarrow> rowAt (fillRows (Suc i) xs ys dp) (i + length xs) = rowOf (\<lambda>a. lcsLen (rev (pre @ xs)) (rev a)) [] ys"
proof (induction xs arbitrary: i pre dp)
  case (Cons x xs)
  have "rowAt (setRow (Suc i) (dpRow x ys (rowAt dp i)) dp) (Suc i) = rowOf (\<lambda>a. lcsLen (rev (pre @ [x])) (rev a)) [] ys"
    by (simp add: Cons.prems dpRow_lcs)
  from Cons.IH [OF this] show ?case by simp
qed simp

lemma rowOf_nth: "j \<le> length ys \<Longrightarrow> rowOf f a ys ! j = f (a @ take j ys)"
proof (induction ys arbitrary: a j)
  case (Cons y ys)
  then show ?case by (cases j) auto
qed simp

lemma rowOf_zero: "rowOf (\<lambda>a. 0) a ys = replicate (length ys + 1) 0"
  by (induction ys arbitrary: a) auto

lemma dpTable_lcs: "rowAt (dpTable xs ys) (length xs) ! length ys = lcsLen (rev xs) (rev ys)"
proof -
  have "rowAt (replicate (length ys + 1) 0, replicate (length ys + 1) 0) 0 = rowOf (\<lambda>a. lcsLen (rev []) (rev a)) [] ys"
    by (simp add: rowAt_def rowOf_zero del: replicate_Suc)
  from fillRows_last [OF this, of xs] show ?thesis by (simp add: dpTable_def Let_def rowOf_nth)
qed

lemma subseq_rev: "subseq zs xs \<Longrightarrow> subseq (rev zs) (rev xs)"
proof (induction rule: list_emb.induct)
  case (list_emb_Cons2 x y xs ys)
  then show ?case using list_emb_append_mono [of "(=)" "rev xs" "rev ys" "[x]" "[y]"] by simp
qed (auto intro: subseq_rev_drop_many)

lemma lcsLen_Max: "lcsLen (rev xs) (rev ys) = Max (length ` {zs. subseq zs xs \<and> subseq zs ys})"
proof (rule Max_eqI [symmetric])
  have "{zs. subseq zs xs \<and> subseq zs ys} \<subseteq> set (subseqs xs)" by auto
  then show "finite (length ` {zs. subseq zs xs \<and> subseq zs ys})" by (meson finite_imageI finite_set finite_subset)
  show "lcsLen (rev xs) (rev ys) \<in> length ` {zs. subseq zs xs \<and> subseq zs ys}"
    proof -
    obtain zs where "subseq zs (rev xs)" "subseq zs (rev ys)" "length zs = lcsLen (rev xs) (rev ys)" using lcsLen_attained by blast
    with subseq_rev [of zs "rev xs"] subseq_rev [of zs "rev ys"] show ?thesis by (intro image_eqI [of _ _ "rev zs"]) simp_all
  qed
  show "n \<le> lcsLen (rev xs) (rev ys)" if "n \<in> length ` {zs. subseq zs xs \<and> subseq zs ys}" for n
    using that lcsLen_longest [OF subseq_rev subseq_rev] by fastforce
qed

definition keptLines :: "string list \<Rightarrow> string list \<Rightarrow> nat" where
  "keptLines old new = length (filter (\<lambda>e. fst e = ''  '') (diffEntries old new))"

definition exOld :: "string list" where
  "exOld = [''a'', ''b'']"

definition exNew :: "string list" where
  "exNew = [''a'', ''b'', ''b'']"

text \<open>
  C40 (DIFFMIN): The last entry of the two-row table is the length of a longest common subsequence of
  the lines. The walk back, though, reads rows that are already overwritten, and the difference it
  prints can keep fewer lines: of two lines to which a third is added, it marks three as changed.
\<close>

theorem diff_not_minimal:
  "rowAt (dpTable xs ys) (length xs) ! length ys = Max (length ` {zs. subseq zs xs \<and> subseq zs ys}) \<and>
   subseq exOld exNew \<and> diffEntries exOld exNew = [(''+ '', ''a''), (''+ '', ''b''), (''- '', ''a''), (''  '', ''b'')] \<and>
   keptLines exOld exNew < length exOld"
proof -
  have "subseq exOld exNew" by code_simp
  moreover have d: "diffEntries exOld exNew = [(''+ '', ''a''), (''+ '', ''b''), (''- '', ''a''), (''  '', ''b'')]" by code_simp
  moreover have "keptLines exOld exNew < length exOld" by code_simp
  ultimately show ?thesis using dpTable_lcs lcsLen_Max by metis
qed

end
