(* ===== verification/Approval.thy ===== *)
theory Approval
  imports Handlers Cleanup Push_Worker Diff "HOL-Library.List_Lexorder" "HOL-Library.Char_ord"
begin

text \<open>
  The handlers of pending changes (\<^verbatim>\<open>internal/api/pending/handlers.go\<close>): listing, preview,
  approval for a peer, for all peers and for one entity, rollback, and the creation of push jobs.
  A handler works on the database and the list of notifications handed to the event hub, whose
  outcome is only logged. Decoding of requests, the texts of responses and the event streams are not
  modelled; the clock and the random identifier of a job are arguments.
\<close>

section \<open>Reading\<close>

text \<open>The row with the largest identifier.\<close>

definition latestBundle :: "database \<Rightarrow> int \<Rightarrow> bundle_row option" where
  "latestBundle db peerID =
     (case filter (\<lambda>b. b_peer_id b = peerID) (db_bundles db) of
        [] \<Rightarrow> None
      | b # bs \<Rightarrow> Some (foldl (\<lambda>x y. if b_id y > b_id x then y else x) b bs))"

definition GetLatestBundleForPeer :: "database \<Rightarrow> int \<Rightarrow> bundle_row res" where
  "GetLatestBundleForPeer db peerID =
     wrapE ''get latest bundle for peer'' (queryRow db (QEntity ''latest'' ''rule_bundles'' peerID)
       (case latestBundle db peerID of None \<Rightarrow> [] | Some b \<Rightarrow> [b]))"

definition GetNextBundleVersionNumber :: "database \<Rightarrow> int \<Rightarrow> int res" where
  "GetNextBundleVersionNumber db peerID =
     wrapE ''get next bundle version number'' (queryRow db (QEntity ''next'' ''rule_bundles'' peerID) [nextVersionNumber db peerID])"

definition CheckPendingChangeExists :: "database \<Rightarrow> int \<Rightarrow> string \<Rightarrow> int \<Rightarrow> bool res" where
  "CheckPendingChangeExists db peerID changeType changeID =
     (case queryRow db (QEntity ''exists'' ''pending_changes'' peerID)
             (filter (\<lambda>c. c_peer_id c = peerID \<and> c_change_type c = changeType \<and> c_change_id c = changeID) (db_pending db)) of
        Inl e \<Rightarrow> if errIs e ErrNoRows then Inr False else Inl (Wrap ''check pending change exists'' [e])
      | Inr _ \<Rightarrow> Inr True)"

definition GetPeerWithIP :: "database \<Rightarrow> int \<Rightarrow> (string \<times> string) res" where
  "GetPeerWithIP db peerID =
     wrapE ''get peer with IP'' (queryRow db (QEntity ''ip'' ''peers'' peerID)
       (map (\<lambda>p. (p_hostname p, p_ip_address p)) (filter (\<lambda>p. p_id p = peerID) (db_peers db))))"

text \<open>Called with these three tables only; names are looked up for softly deleted rows, too.\<close>

definition getNameByID :: "database \<Rightarrow> string \<Rightarrow> int \<Rightarrow> string res" where
  "getNameByID db table i =
     (if table \<notin> {''groups'', ''policies'', ''services''} then Inl (Leaf ''getNameByID: table not in safelist'')
      else wrapE ''get name by id'' (queryRow db (QEntity ''nameByID'' table i)
        (if table = ''groups'' then map g_name (filter (\<lambda>g. g_id g = i) (db_groups db))
         else if table = ''policies'' then map pl_name (filter (\<lambda>p. pl_id p = i) (db_policies db))
         else map s_name (filter (\<lambda>s. s_id s = i) (db_services db)))))"

definition lookupEntityName :: "database \<Rightarrow> string \<Rightarrow> int \<Rightarrow> string res" where
  "lookupEntityName db changeType changeID =
     (if changeType = ''group'' then getNameByID db ''groups'' changeID
      else if changeType = ''policy'' then getNameByID db ''policies'' changeID
      else if changeType = ''service'' then getNameByID db ''services'' changeID
      else if changeType = ''peer'' then GetPeerHostname db changeID
      else Inr ''Unknown'')"

text \<open>A change with the name of its entity; a failed lookup gives the empty name.\<close>

definition buildPendingChangeDetails :: "database \<Rightarrow> change_row list \<Rightarrow> (change_row \<times> string) list" where
  "buildPendingChangeDetails db changes =
     map (\<lambda>c. (c, case lookupEntityName db (c_change_type c) (c_change_id c) of Inl _ \<Rightarrow> [] | Inr n \<Rightarrow> n)) changes"

record peerChangeGroup =
  pg_PeerID :: int
  pg_Hostname :: string
  pg_IPAddress :: string
  pg_Changes :: "(change_row \<times> string) list"

definition peerChanges :: "database \<Rightarrow> int \<Rightarrow> peerChangeGroup res" where
  "peerChanges db peerID =
     bindE (GetPeerWithIP db peerID) (\<lambda>(hostname, ipAddress).
     bindE (GetPendingChangesForPeer db peerID) (\<lambda>changes.
       Inr \<lparr>pg_PeerID = peerID, pg_Hostname = hostname, pg_IPAddress = ipAddress, pg_Changes = buildPendingChangeDetails db changes\<rparr>))"

text \<open>A peer whose rows cannot be read is left out of the list.\<close>

definition ListPendingChanges :: "database \<Rightarrow> nat \<times> peerChangeGroup list" where
  "ListPendingChanges db =
     (case GetPeersWithPendingChanges db of
        Inl _ \<Rightarrow> (500, [])
      | Inr peerIDs \<Rightarrow> (200, concat (map (\<lambda>i. case peerChanges db i of Inl _ \<Rightarrow> [] | Inr g \<Rightarrow> [g]) peerIDs)))"

definition GetPeerPendingChanges :: "database \<Rightarrow> int \<Rightarrow> nat + peerChangeGroup" where
  "GetPeerPendingChanges db peerID = (case peerChanges db peerID of Inl e \<Rightarrow> Inl (lookupStatus e) | Inr g \<Rightarrow> Inr g)"

section \<open>Preview\<close>

record previewReply =
  pr_Version :: string
  pr_CurrentVersion :: string
  pr_CurrentVersionNumber :: int
  pr_NewVersionNumber :: int
  pr_IsDifferent :: bool
  pr_Diff :: string
  pr_Rules :: string

definition PreviewPeerPendingBundle :: "crypto \<Rightarrow> string \<Rightarrow> int \<Rightarrow> database \<Rightarrow> (nat + previewReply) \<times> database" where
  "PreviewPeerPendingBundle C now peerID db =
     (case GetPeerHostname db peerID of
        Inl e \<Rightarrow> (Inl (lookupStatus e), db)
      | Inr _ \<Rightarrow>
          (case Compile db now peerID of
             Inl _ \<Rightarrow> (Inl 500, db)
           | Inr content \<Rightarrow>
               (let version = Version C content;
                    (currentContent, currentVersion, currentVersionNumber) =
                      (case GetLatestBundleForPeer db peerID of
                         Inl _ \<Rightarrow> ([], [], 0) | Inr b \<Rightarrow> (b_rules_content b, b_version b, b_version_number b));
                    versionNumber = (case GetNextBundleVersionNumber db peerID of Inl _ \<Rightarrow> 0 | Inr n \<Rightarrow> n);
                    diffContent = generateDiff currentContent content in
                case SavePendingBundlePreview peerID content diffContent version db of
                  (Inl _, db') \<Rightarrow> (Inl 500, db')
                | (Inr _, db') \<Rightarrow>
                    (Inr \<lparr>pr_Version = version, pr_CurrentVersion = currentVersion, pr_CurrentVersionNumber = currentVersionNumber,
                          pr_NewVersionNumber = versionNumber, pr_IsDifferent = (version \<noteq> currentVersion), pr_Diff = diffContent,
                          pr_Rules = content\<rparr>, db'))))"

section \<open>Approval\<close>

record approval =
  ap_db :: database
  ap_sent :: "(string \<times> string) list"

definition notifyBundleUpdated :: "string \<Rightarrow> string \<Rightarrow> approval \<Rightarrow> approval" where
  "notifyBundleUpdated hostname version s = s\<lparr>ap_sent := ap_sent s @ [(''host-'' @ hostname, version)]\<rparr>"

definition clearPeerTx :: "int \<Rightarrow> (unit, database) step" where
  "clearPeerTx peerID =
     RunInTx (bindS (wrapS ''failed to clear pending changes'' (wrapS ''clear pending changes for peer'' (ClearPendingChangesForPeer peerID))) (\<lambda>_.
       wrapS ''failed to delete pending bundle preview'' (wrapS ''delete pending bundle preview'' (DeletePendingBundlePreview peerID))))"

definition ApplyPeerPendingBundle :: "crypto \<Rightarrow> string \<Rightarrow> int \<Rightarrow> approval \<Rightarrow> nat \<times> approval" where
  "ApplyPeerPendingBundle C now peerID s =
     (case GetPeerHostname (ap_db s) peerID of
        Inl e \<Rightarrow> (lookupStatus e, s)
      | Inr hostname \<Rightarrow>
          (case CompileAndStore C (ap_db s) now peerID of
             Inl _ \<Rightarrow> (500, s)
           | Inr (db1, bundle) \<Rightarrow>
               (case clearPeerTx peerID db1 of
                  (Inl _, db2) \<Rightarrow> (500, s\<lparr>ap_db := db2\<rparr>)
                | (Inr _, db2) \<Rightarrow> (200, notifyBundleUpdated hostname (b_version bundle) (s\<lparr>ap_db := ignoreS CleanupIfComplete db2\<rparr>)))))"

definition applyBundleForPeer :: "crypto \<Rightarrow> string \<Rightarrow> int \<Rightarrow> (unit, approval) step" where
  "applyBundleForPeer C now peerID s =
     (case GetPeerHostname (ap_db s) peerID of
        Inl e \<Rightarrow> (Inl (Wrap ''peer not found'' [e]), s)
      | Inr hostname \<Rightarrow>
          (case CompileAndStore C (ap_db s) now peerID of
             Inl e \<Rightarrow> (Inl (Wrap ''compile failed'' [e]), s)
           | Inr (db1, bundle) \<Rightarrow>
               (case clearPeerTx peerID db1 of
                  (Inl e, db2) \<Rightarrow> (Inl e, s\<lparr>ap_db := db2\<rparr>)
                | (Inr _, db2) \<Rightarrow> (Inr (), notifyBundleUpdated hostname (b_version bundle) (s\<lparr>ap_db := db2\<rparr>)))))"

fun applyEach :: "crypto \<Rightarrow> (int \<Rightarrow> string) \<Rightarrow> int list \<Rightarrow> nat \<Rightarrow> (int \<times> goerr) list \<Rightarrow> approval \<Rightarrow> nat \<times> (int \<times> goerr) list \<times> approval" where
  "applyEach C now [] applied errs s = (applied, errs, s)"
| "applyEach C now (peerID # peers) applied errs s =
     (case applyBundleForPeer C (now peerID) peerID s of
        (Inl e, s') \<Rightarrow> applyEach C now peers applied (errs @ [(peerID, e)]) s'
      | (Inr _, s') \<Rightarrow> applyEach C now peers (applied + 1) errs s')"

text \<open>The result has the status, the number of peers applied and the errors of the others.\<close>

definition ApplyAllPendingBundles :: "crypto \<Rightarrow> (int \<Rightarrow> string) \<Rightarrow> approval \<Rightarrow> (nat \<times> nat \<times> (int \<times> goerr) list) \<times> approval" where
  "ApplyAllPendingBundles C now s =
     (case GetPeersWithPendingChanges (ap_db s) of
        Inl _ \<Rightarrow> ((500, 0, []), s)
      | Inr peerIDs \<Rightarrow>
          if peerIDs = [] then ((200, 0, []), s)
          else (case applyEach C now peerIDs 0 [] s of
            (applied, errs, s') \<Rightarrow> ((200, applied, errs), s'\<lparr>ap_db := ignoreS CleanupIfComplete (ap_db s')\<rparr>)))"

text \<open>The transaction of the approval of one entity; a failure to write the preview is only logged.\<close>

definition applyEntityTx :: "int \<Rightarrow> string \<Rightarrow> int \<Rightarrow> string \<Rightarrow> string \<Rightarrow> string \<Rightarrow> (int, database) step" where
  "applyEntityTx peerID entityType entityID content diff version =
     RunInTx (bindS (DeleteSnapshot entityType entityID) (\<lambda>_.
       bindS (DeletePendingChangeForEntity peerID entityType entityID) (\<lambda>_.
       bindS (liftQ (\<lambda>db. CountPendingChangesForPeer db peerID)) (\<lambda>remaining db.
         (Inr remaining,
          if remaining > 0 then ignoreS (SavePendingBundlePreview peerID content diff version) db
          else ignoreS (DeletePendingBundlePreview peerID) db)))))"

definition ApplyEntityPendingChanges :: "crypto \<Rightarrow> string \<Rightarrow> int \<Rightarrow> string \<Rightarrow> int \<Rightarrow> approval \<Rightarrow> nat \<times> approval" where
  "ApplyEntityPendingChanges C now peerID entityType entityID s =
     (let db = ap_db s in
      if entityType \<notin> {''group'', ''policy'', ''service'', ''peer''} \<or> entityID \<le> 0 then (400, s)
      else case CheckPendingChangeExists db peerID entityType entityID of
        Inl _ \<Rightarrow> (500, s)
      | Inr False \<Rightarrow> (404, s)
      | Inr True \<Rightarrow>
          (case (case GetLatestBundleForPeer db peerID of
                   Inl e \<Rightarrow> if errIs e ErrNoRows then Inr [] else Inl e
                 | Inr b \<Rightarrow> Inr (b_rules_content b)) of
             Inl _ \<Rightarrow> (500, s)
           | Inr currentContent \<Rightarrow>
               (case CompileAndStore C db now peerID of
                  Inl _ \<Rightarrow> (500, s)
                | Inr (db1, bundle) \<Rightarrow>
                    (case applyEntityTx peerID entityType entityID (b_rules_content bundle)
                            (generateDiff currentContent (b_rules_content bundle)) (b_version bundle) db1 of
                       (Inl _, db2) \<Rightarrow> (500, s\<lparr>ap_db := db2\<rparr>)
                     | (Inr remaining, db2) \<Rightarrow>
                         (let s1 = s\<lparr>ap_db := db2\<rparr>;
                              s2 = (case GetPeerHostname db2 peerID of
                                      Inl _ \<Rightarrow> s1
                                    | Inr hostname \<Rightarrow> if hostname = [] then s1 else notifyBundleUpdated hostname (b_version bundle) s1) in
                          (200, if remaining = 0 then s2\<lparr>ap_db := ignoreS CleanupIfComplete db2\<rparr> else s2))))))"

section \<open>Rollback\<close>

definition RollbackPendingChanges :: "string \<Rightarrow> int \<Rightarrow> database \<Rightarrow> nat \<times> database" where
  "RollbackPendingChanges entityType entityID db =
     (if entityType \<noteq> [] \<and> entityID \<noteq> 0 then
        (case RollbackEntitySnapshot entityType entityID db of
           (Inl e, db') \<Rightarrow> (if e = constraintError then 409 else 500, db')
         | (Inr _, db') \<Rightarrow> (200, ignoreS DeleteAllPendingBundlePreviews db'))
      else
        (case RollbackSnapshots db of
           (Inl _, db') \<Rightarrow> (500, db')
         | (Inr _, db') \<Rightarrow> (200, ignoreS DeleteAllPendingBundlePreviews db')))"

section \<open>Push jobs\<close>

definition ListAgentBasedPeers :: "database \<Rightarrow> (int \<times> string) list res" where
  "ListAgentBasedPeers db =
     queryRows db (QEntity ''agents'' ''peers'' 0)
       (map (\<lambda>p. (p_id p, p_hostname p)) (sort_key p_hostname (filter (\<lambda>p. \<not> p_is_manual p) (db_peers db))))"

text \<open>The part both handlers share: the rows of the job, then the queue; a job that cannot be queued is finished as failed.\<close>

definition createJob :: "string \<Rightarrow> string \<Rightarrow> string \<Rightarrow> (int \<times> string) list \<Rightarrow> pushWorker \<Rightarrow> nat \<times> pushWorker" where
  "createJob now jobID initiatedBy peers w =
     (let onPush = (\<lambda>db w. w\<lparr>wk_data := (wk_data w)\<lparr>pu_db := db\<rparr>\<rparr>);
          orphaned = (\<lambda>w. onPush (ignoreS (FinalizePushJobWithCounts now jobID 0 (int (length peers))) (pu_db (wk_data w))) w) in
      case CreatePushJob jobID initiatedBy (int (length peers)) (pu_db (wk_data w)) of
        (Inl _, db1) \<Rightarrow> (500, onPush db1 w)
      | (Inr _, db1) \<Rightarrow>
          (case CreatePushJobPeersT jobID peers db1 of
             (Inl _, db2) \<Rightarrow> (500, orphaned (onPush db2 w))
           | (Inr _, db2) \<Rightarrow>
               (case Enqueue jobID (onPush db2 w) of
                  (Some _, w1) \<Rightarrow> (503, orphaned w1)
                | (None, w1) \<Rightarrow> (202, w1))))"

definition PushAllRules :: "string \<Rightarrow> string \<Rightarrow> string \<Rightarrow> pushWorker \<Rightarrow> nat \<times> pushWorker" where
  "PushAllRules now jobID initiatedBy w =
     (case ListAgentBasedPeers (pu_db (wk_data w)) of
        Inl _ \<Rightarrow> (500, w)
      | Inr allPeers \<Rightarrow> if allPeers = [] then (200, w) else createJob now jobID initiatedBy allPeers w)"

definition GetPeerWithAgentVersion :: "database \<Rightarrow> int \<Rightarrow> (string \<times> bool) res" where
  "GetPeerWithAgentVersion db peerID =
     wrapE ''get peer with agent version'' (queryRow db (QEntity ''agent'' ''peers'' peerID)
       (map (\<lambda>p. (p_hostname p, p_is_manual p)) (filter (\<lambda>p. p_id p = peerID) (db_peers db))))"

definition PushCurrentRules :: "string \<Rightarrow> string \<Rightarrow> string \<Rightarrow> int \<Rightarrow> pushWorker \<Rightarrow> nat \<times> pushWorker" where
  "PushCurrentRules now jobID initiatedBy peerID w =
     (case GetPeerWithAgentVersion (pu_db (wk_data w)) peerID of
        Inl e \<Rightarrow> (lookupStatus e, w)
      | Inr (hostname, isManual) \<Rightarrow> if isManual then (400, w) else createJob now jobID initiatedBy [(peerID, hostname)] w)"

section \<open>What an approval changes\<close>

interpretation ap: same_live db "db\<lparr>db_bundles := bs, db_pending := ps, db_previews := vs\<rparr>" for db bs ps vs
  by unfold_locales (simp_all add: inGroup_def liveGroup_def groupMemberRows_def fun_eq_iff)

lemma foldl_newest_in: "foldl (\<lambda>x y. if b_id y > b_id x then y else x) b bs \<in> insert b (set bs)"
proof (induction bs arbitrary: b)
  case (Cons y bs)
  show ?case using Cons.IH [of "if b_id y > b_id b then y else b"] by (auto split: if_splits)
qed simp

lemma latestBundle_snoc:
  assumes "\<And>b. b \<in> set (db_bundles db) \<Longrightarrow> b_id b < b_id row"
  shows "latestBundle (db\<lparr>db_bundles := db_bundles db @ [row]\<rparr>) p = (if b_peer_id row = p then Some row else latestBundle db p)"
proof (cases "filter (\<lambda>b. b_peer_id b = p) (db_bundles db)")
  case Nil
  then show ?thesis by (simp add: latestBundle_def)
next
  case (Cons b bs)
  let ?m = "foldl (\<lambda>x y. if b_id y > b_id x then y else x) b bs"
  have "set (b # bs) \<subseteq> set (db_bundles db)" using filter_is_subset [of "\<lambda>b. b_peer_id b = p" "db_bundles db"] unfolding Cons .
  then have "?m \<in> set (db_bundles db)" using foldl_newest_in [of b bs] by auto
  then have "b_id ?m < b_id row" using assms by blast
  then show ?thesis by (simp add: latestBundle_def Cons)
qed

lemma CompileAndStore_latest:
  assumes "CompileAndStore C db now p = Inr (db1, row)"
  shows "latestBundle db1 q = (if q = p then Some row else latestBundle db q)"
proof -
  note r = CompileAndStore_Inr [OF assms]
  have "b_id b < b_id row" if "b \<in> set (db_bundles db)" for b
    using r foldl_max_ge [of "b_id b" 0 "map b_id (db_bundles db)"] that by auto
  with r show ?thesis using latestBundle_snoc [of db row q] by auto
qed

lemma clearPeerTx_cases:
  assumes "clearPeerTx p db = (r, db')"
  shows "if r = Inr () then db' = db\<lparr>db_pending := filter (\<lambda>c. c_peer_id c \<noteq> p) (db_pending db), db_previews := filter (\<lambda>v. pv_peer_id v \<noteq> p) (db_previews db)\<rparr>
    else db' = db"
  using assms
  by (auto simp: clearPeerTx_def RunInTx_def bindS_def wrapS_def wrapE_def execS_def ClearPendingChangesForPeer_def DeletePendingBundlePreview_def
      split: if_splits)

text \<open>The newest stored bundle of the peer is what the compiler now gives for it.\<close>

definition upToDate :: "(int \<Rightarrow> string) \<Rightarrow> database \<Rightarrow> int \<Rightarrow> bool" where
  "upToDate now db p = (\<exists>b. latestBundle db p = Some b \<and> Compile db (now p) p = Inr (b_rules_content b))"

text \<open>Between two databases of an approval only bundles, pending changes and previews differ.\<close>

definition sameRest :: "database \<Rightarrow> database \<Rightarrow> bool" where
  "sameRest db db' = (\<exists>bs ps vs. db' = db\<lparr>db_bundles := bs, db_pending := ps, db_previews := vs\<rparr>)"

lemma sameRest_refl: "sameRest db db"
  unfolding sameRest_def by (intro exI [of _ "db_bundles db"] exI [of _ "db_pending db"] exI [of _ "db_previews db"]) simp

lemma sameRest_trans: "sameRest a b \<Longrightarrow> sameRest b c \<Longrightarrow> sameRest a c"
  by (auto simp: sameRest_def) blast

lemma sameRest_Compile: "sameRest db db' \<Longrightarrow> Compile db' now p = Compile db now p"
  unfolding sameRest_def using ap.live_Compile by blast

lemma sameRest_other: "sameRest db db' \<Longrightarrow> wf_db db' = wf_db db \<and> peerRow db' p = peerRow db p"
  by (auto simp: sameRest_def wf_db_def peerRow_def)


lemma sameRest_store: "CompileAndStore C db now p = Inr (db1, row) \<Longrightarrow> sameRest db db1 \<and> db_pending db1 = db_pending db"
  by (frule CompileAndStore_Inr)
    (auto simp: sameRest_def intro!: exI [of _ "db_bundles db @ [row]"] exI [of _ "db_pending db"] exI [of _ "db_previews db"])

lemma sameRest_clear: "clearPeerTx p db = (r, db') \<Longrightarrow> sameRest db db' \<and> db_bundles db' = db_bundles db \<and>
    db_pending db' = (if r = Inr () then filter (\<lambda>c. c_peer_id c \<noteq> p) (db_pending db) else db_pending db)"
proof (cases "r = Inr ()")
  case True
  moreover assume "clearPeerTx p db = (r, db')"
  ultimately have d: "db' = db\<lparr>db_bundles := db_bundles db, db_pending := filter (\<lambda>c. c_peer_id c \<noteq> p) (db_pending db), db_previews := filter (\<lambda>v. pv_peer_id v \<noteq> p) (db_previews db)\<rparr>"
    using clearPeerTx_cases [of p db r db'] by simp
  then have "sameRest db db'" unfolding sameRest_def by blast
  with d True show ?thesis by simp
next
  case False
  moreover assume "clearPeerTx p db = (r, db')"
  ultimately show ?thesis using clearPeerTx_cases [of p db r db'] sameRest_refl by auto
qed

lemma latestBundle_cong: "db_bundles db' = db_bundles db \<Longrightarrow> latestBundle db' p = latestBundle db p"
  by (simp add: latestBundle_def)

text \<open>One peer: a failure keeps its pending changes; a success clears them and leaves the peer up to date.\<close>

lemma applyBundleForPeer_step:
  assumes "applyBundleForPeer C (now p) p s = (r, s')"
  shows "sameRest (ap_db s) (ap_db s')"
    and "q \<noteq> p \<Longrightarrow> latestBundle (ap_db s') q = latestBundle (ap_db s) q"
    and "db_pending (ap_db s') = (if r = Inr () then filter (\<lambda>c. c_peer_id c \<noteq> p) (db_pending (ap_db s)) else db_pending (ap_db s))"
    and "r = Inr () \<Longrightarrow> upToDate now (ap_db s') p"
proof -
  consider (early) e where "r = Inl e" "s' = s"
    | (stored) db1 row db2 where "CompileAndStore C (ap_db s) (now p) p = Inr (db1, row)" "clearPeerTx p db1 = (r, db2)" "ap_db s' = db2"
    using assms by (auto simp: applyBundleForPeer_def notifyBundleUpdated_def split: sum.splits prod.splits)
  then have "sameRest (ap_db s) (ap_db s') \<and> (q \<noteq> p \<longrightarrow> latestBundle (ap_db s') q = latestBundle (ap_db s) q) \<and>
    db_pending (ap_db s') = (if r = Inr () then filter (\<lambda>c. c_peer_id c \<noteq> p) (db_pending (ap_db s)) else db_pending (ap_db s)) \<and>
    (r = Inr () \<longrightarrow> upToDate now (ap_db s') p)"
  proof cases
    case early
    then show ?thesis using sameRest_refl by simp
  next
    case stored
    note c = sameRest_store [OF stored(1)] sameRest_clear [OF stored(2)] CompileAndStore_latest [OF stored(1)]
    have l: "latestBundle (ap_db s') x = (if x = p then Some row else latestBundle (ap_db s) x)" for x
      using c latestBundle_cong [of "ap_db s'" db1 x] stored(3) by simp
    have r: "sameRest (ap_db s) (ap_db s')" using c stored(3) sameRest_trans by blast
    have "upToDate now (ap_db s') p"
      using l [of p] CompileAndStore_Inr [OF stored(1)] sameRest_Compile [OF r] by (simp add: upToDate_def)
    with l r c stored(3) show ?thesis by simp
  qed
  then show "sameRest (ap_db s) (ap_db s')" and "q \<noteq> p \<Longrightarrow> latestBundle (ap_db s') q = latestBundle (ap_db s) q"
    and "db_pending (ap_db s') = (if r = Inr () then filter (\<lambda>c. c_peer_id c \<noteq> p) (db_pending (ap_db s)) else db_pending (ap_db s))"
    and "r = Inr () \<Longrightarrow> upToDate now (ap_db s') p"
    by blast+
qed

lemma upToDate_other:
  assumes "sameRest db db'" and "latestBundle db' p = latestBundle db p"
  shows "upToDate now db' p = upToDate now db p"
  using assms sameRest_Compile by (simp add: upToDate_def)

text \<open>The loop over distinct peers.\<close>

lemma applyEach_rest:
  "applyEach C now peers a errs s = (a', errs', s') \<Longrightarrow> sameRest (ap_db s) (ap_db s') \<and> set errs \<subseteq> set errs' \<and>
    fst ` set errs' \<subseteq> fst ` set errs \<union> set peers \<and> (\<forall>q. q \<notin> set peers \<longrightarrow> latestBundle (ap_db s') q = latestBundle (ap_db s) q)"
proof (induction peers arbitrary: a errs s)
  case Nil
  then show ?case using sameRest_refl by simp
next
  case (Cons p peers)
  obtain r s1 where st: "applyBundleForPeer C (now p) p s = (r, s1)" by (metis surj_pair)
  from Cons.prems obtain a1 errs1 where "applyEach C now peers a1 errs1 s1 = (a', errs', s')" "set errs \<subseteq> set errs1" "fst ` set errs1 \<subseteq> insert p (fst ` set errs)"
    by (force simp: st split: sum.splits)
  note ih = Cons.IH [OF this(1)] this(2,3) and step = applyBundleForPeer_step [where now = now, OF st]
  have "sameRest (ap_db s) (ap_db s')" by (rule sameRest_trans [OF step(1) conjunct1 [OF ih(1)]])
  moreover have "set errs \<subseteq> set errs'" using ih by blast
  moreover have "fst ` set errs' \<subseteq> fst ` set errs1 \<union> set peers" using ih(1) by (elim conjE)
  then have "fst ` set errs' \<subseteq> fst ` set errs \<union> set (p # peers)" using ih(3) by (simp only: list.simps) blast
  moreover have "latestBundle (ap_db s') q = latestBundle (ap_db s) q" if "q \<notin> set (p # peers)" for q
    using ih that step(2) [of q] by simp
  ultimately show ?case by blast
qed

lemma applyEach_approves:
  assumes "applyEach C now peers a errs s = (a', errs', s')" and "distinct peers" and "set peers \<inter> fst ` set errs = {}"
  shows "(\<forall>c. c \<in> set (db_pending (ap_db s')) \<longleftrightarrow>
      c \<in> set (db_pending (ap_db s)) \<and> (c_peer_id c \<in> set peers \<longrightarrow> c_peer_id c \<in> fst ` set errs')) \<and>
    (\<forall>p \<in> set peers. p \<in> fst ` set errs' \<or> upToDate now (ap_db s') p)"
  using assms
proof (induction peers arbitrary: a errs s)
  case (Cons p peers)
  obtain r s1 where st: "applyBundleForPeer C (now p) p s = (r, s1)" by (metis surj_pair)
  note step = applyBundleForPeer_step [where now = now, OF st]
  show ?case
  proof (cases r)
    case (Inl e)
    then have rest: "applyEach C now peers a (errs @ [(p, e)]) s1 = (a', errs', s')" using Cons.prems(1) st by simp
    have "p \<in> fst ` set errs'" using applyEach_rest [OF rest] by force
    moreover have "set peers \<inter> fst ` set (errs @ [(p, e)]) = {}" using Cons.prems by auto
    ultimately show ?thesis using Cons.IH [OF rest] Cons.prems(2) step(3) Inl by auto
  next
    case (Inr u)
    then have rest: "applyEach C now peers (a + 1) errs s1 = (a', errs', s')" using Cons.prems(1) st by simp
    have p: "p \<notin> fst ` set errs'" using applyEach_rest [OF rest] Cons.prems by auto
    have "upToDate now (ap_db s') p"
      using step(4) Inr applyEach_rest [OF rest] Cons.prems(2) upToDate_other [of "ap_db s1" "ap_db s'" p now] by simp
    moreover have "set peers \<inter> fst ` set errs = {}" using Cons.prems by auto
    ultimately show ?thesis using Cons.IH [OF rest] Cons.prems(2) step(3) Inr p by auto
  qed
qed simp

lemma cleanup_rest:
  assumes "wf_db db"
  shows "Compile (ignoreS CleanupIfComplete db) now p = Compile db now p"
    and "db_pending (ignoreS CleanupIfComplete db) = db_pending db" and "db_bundles (ignoreS CleanupIfComplete db) = db_bundles db"
proof -
  obtain r db' where c: "CleanupIfComplete db = (r, db')" by (metis surj_pair)
  then have i: "ignoreS CleanupIfComplete db = db'" by (simp add: ignoreS_def)
  have d: "db' = db \<or> db' = purge db" using CleanupIfComplete_cases [OF c] by (auto split: if_splits)
  then show "Compile (ignoreS CleanupIfComplete db) now p = Compile db now p"
    unfolding i using same_live.live_Compile [OF purge_same_live [OF assms], of now p] by blast
  from d show "db_pending (ignoreS CleanupIfComplete db) = db_pending db" "db_bundles (ignoreS CleanupIfComplete db) = db_bundles db"
    unfolding i by (elim disjE; simp add: purge_def)+
qed

lemma upToDate_cleanup: "wf_db db \<Longrightarrow> upToDate now (ignoreS CleanupIfComplete db) p = upToDate now db p"
  unfolding upToDate_def cleanup_rest(1) latestBundle_cong [OF cleanup_rest(3)] by (rule refl)



definition exSnapshot :: snapshot_row where
  "exSnapshot = \<lparr>sn_entity_type = ''policy'', sn_entity_id = 1, sn_action = ''update'', sn_data = Some (PolicySnapshot exPolicy)\<rparr>"

definition exPending :: "int \<Rightarrow> change_row" where
  "exPending p = \<lparr>c_peer_id = p, c_change_type = ''policy'', c_change_id = 1, c_change_action = ''update'', c_summary = ''s''\<rparr>"

text \<open>The example network after its policy was switched off and the change recorded for both peers.\<close>

definition exPatched :: database where
  "exPatched = exDB\<lparr>db_policies := [exPolicy\<lparr>pl_enabled := False\<rparr>], db_snapshots := [exSnapshot], db_pending := [exPending 1, exPending 2]\<rparr>"


section \<open>Rollback after a partial approval\<close>

lemma exPatched_edit: "applyEdit (PatchPolicy 1 False) exDB = (Inr (), exPatched\<lparr>db_pending := []\<rparr>)"
  by (simp add: RunInTx_def bindS_def policySnapshotTx_def wrapS_def liftQ_def GetPolicyTx_def queryRow_def readPolicy_def livePolicy_def
      CreateSnapshot_def execS_def hasSnapshot_def PatchPolicyEnabledTx_def execUpdate_def onPolicies_def ex_defs exPatched_def exSnapshot_def
      nullableIP_def coalesce_def)

lemma exPatched_queued: "queueEach ''policy'' ''update'' 1 ''s'' [1, 2] None [] (exPatched\<lparr>db_pending := []\<rparr>) = (None, [1, 2], exPatched)"
  by (simp add: queueChangeForPeer_def wrapS_def AddPendingChange_def hasPending_def samePending_def peerRow_def exPatched_def ex_defs exPending_def)

lemma exPatched_differs: "Compile exDB ''t'' 2 \<noteq> Compile exPatched ''t'' 2"
  by code_simp

lemma exPatched_applied:
  assumes "CompileAndStore exCrypto exPatched ''t'' 2 = Inr (db1, row)"
  shows "ApplyPeerPendingBundle exCrypto ''t'' 2 \<lparr>ap_db = exPatched, ap_sent = []\<rparr> =
    (200, \<lparr>ap_db = exPatched\<lparr>db_bundles := [row], db_pending := [exPending 1]\<rparr>, ap_sent = [(''host-b'', b_version row)]\<rparr>)"
proof -
  have h: "GetPeerHostname exPatched 2 = Inr ''b''" by code_simp
  have "db1 = exPatched\<lparr>db_bundles := [row]\<rparr>" using CompileAndStore_Inr [OF assms] by (simp add: exPatched_def exDB_def)
  then have c: "clearPeerTx 2 db1 = (Inr (), exPatched\<lparr>db_bundles := [row], db_pending := [exPending 1]\<rparr>)"
    by (simp add: clearPeerTx_def RunInTx_def bindS_def wrapS_def execS_def ClearPendingChangesForPeer_def DeletePendingBundlePreview_def
        exPatched_def exDB_def exPending_def)
  have "ignoreS CleanupIfComplete (exPatched\<lparr>db_bundles := [row], db_pending := [exPending 1]\<rparr>) = exPatched\<lparr>db_bundles := [row], db_pending := [exPending 1]\<rparr>"
    by (simp add: ignoreS_def CleanupIfComplete_def bindS_def wrapS_def liftQ_def queryRow_def exPatched_def exDB_def)
  then show ?thesis by (simp add: ApplyPeerPendingBundle_def h assms c notifyBundleUpdated_def)
qed

lemma exPatched_rolled_back:
  "RollbackPendingChanges [] 0 (exPatched\<lparr>db_bundles := [row], db_pending := [exPending 1]\<rparr>) = (200, exDB\<lparr>db_bundles := [row]\<rparr>)"
  by (simp add: RollbackPendingChanges_def RollbackSnapshots_def RunInTx_def bindS_def wrapS_def liftQ_def queryRows_def rollbackOne_def
      rollbackUpdateDeleteEntity_def restorePolicy_def onPolicies_def policyViolates_def execS_def ignoreS_def DeleteAllPendingBundlePreviews_def
      coalesce_def exPatched_def exSnapshot_def ex_defs)


end
