(* ===== verification/Spec2Isabelle.thy ===== *)
theory Spec2Isabelle
  imports Delivery Cleanup Change_Worker Push_Worker Iptparse Preview Affected Approval
begin

text \<open>
  This is a verification of the core of runic, a control plane that compiles network policies into
  iptables rule bundles, signs them and ships them to agents, which apply them.

  \<^bold>\<open>The program.\<close> Administrators store peers, groups, services and policies. The engine
  (\<^verbatim>\<open>internal/engine\<close>, with \<^verbatim>\<open>internal/resolve\<close> for addresses) loads the policies of
  a peer, resolves their endpoints to addresses or sets, expands services to port matches, writes
  the rules and signs and stores the result. A preview runs the same builders for a policy that is
  not stored. When a group changes, the affected peers are computed and recompiled. The agent
  (\<^verbatim>\<open>internal/agent/apply\<close>) verifies a bundle, validates it, separates the set definitions
  from the table and applies both. The importer (\<^verbatim>\<open>internal/iptparse\<close>) reads existing rules of
  a host. Requests are validated, edits are recorded with snapshots from
  which they can be undone until they are applied (\<^verbatim>\<open>internal/api\<close>, \<^verbatim>\<open>internal/store\<close>,
  \<^verbatim>\<open>internal/db\<close>), and are queued to a background worker that records pending
  changes of the affected peers (\<^verbatim>\<open>internal/change\<close>), and a second one compiles and announces
  bundles for the peers of a push job (\<^verbatim>\<open>internal/api/common\<close>).

  \<^bold>\<open>The theories.\<close>
  \<^item> \<^verbatim>\<open>Prelude\<close>: results and errors as values, loops over slices, builders of lines.
  \<^item> \<^verbatim>\<open>Go_Strings\<close>, \<^verbatim>\<open>Go_Net\<close>: the functions of the Go library the sources call, on
    byte strings.
  \<^item> \<^verbatim>\<open>Resolve\<close> (\<^verbatim>\<open>resolve.go\<close>): validation and normalisation of addresses, broadcast
    addresses.
  \<^item> \<^verbatim>\<open>Database\<close>: the tables and the statements as functions; \<^verbatim>\<open>db_fails\<close> is an oracle
    that says which statements fail. \<^verbatim>\<open>Example_Network\<close>: the data of the witnesses.
  \<^item> \<^verbatim>\<open>Resolver\<close>, \<^verbatim>\<open>Ports\<close> (\<^verbatim>\<open>resolver.go\<close>): endpoints to addresses, group sets,
    port texts to matches.
  \<^item> \<^verbatim>\<open>Rules\<close>, \<^verbatim>\<open>Compiler\<close> (\<^verbatim>\<open>compiler.go\<close>): the rule builders with their abstract
    meaning, the loading of a peer, the payload and its storage. \<^verbatim>\<open>Signer\<close>
    (\<^verbatim>\<open>signer.go\<close>): versions and signatures over abstract hash functions.
  \<^item> \<^verbatim>\<open>Bundle_Text\<close>: properties of the whole compiled text.
  \<^item> \<^verbatim>\<open>Preview\<close>, \<^verbatim>\<open>Affected\<close> (\<^verbatim>\<open>compiler.go\<close>): previews; affected peers and
    recompilation.
  \<^item> \<^verbatim>\<open>Iptparse\<close> (\<^verbatim>\<open>internal/iptparse\<close>): the parser of the importer.
  \<^item> \<^verbatim>\<open>Agent_Bundle\<close> (\<^verbatim>\<open>validate.go\<close>, \<^verbatim>\<open>ipset.go\<close>): what the agent reads from a
    bundle. \<^verbatim>\<open>Agent_Apply\<close> (\<^verbatim>\<open>applier.go\<close>, \<^verbatim>\<open>revert.go\<close>,
    \<^verbatim>\<open>restore.go\<close>, \<^verbatim>\<open>ipset.go\<close>): how it applies one, over an environment of commands.
    \<^verbatim>\<open>Delivery\<close> (\<^verbatim>\<open>GetBundle\<close>, \<^verbatim>\<open>PullBundle\<close>): how a stored bundle gets there.
  \<^item> \<^verbatim>\<open>Worker\<close>: the background worker that \<^verbatim>\<open>change_worker.go\<close> and
    \<^verbatim>\<open>pushworker.go\<close> have in common, as a step relation in which the goroutine, its clients
    and the rest of the program interleave, and the contract of such a worker as a locale.
    \<^verbatim>\<open>Change_Worker\<close> and \<^verbatim>\<open>Push_Worker\<close> interpret it; \<^verbatim>\<open>Pending\<close>
    (\<^verbatim>\<open>db/pending.go\<close>) has the tables of the former, the latter its own
    (\<^verbatim>\<open>db/push_jobs.go\<close>).
  \<^item> \<^verbatim>\<open>Regexp\<close>, \<^verbatim>\<open>Validation\<close> (\<^verbatim>\<open>api/common/validate.go\<close>,
    \<^verbatim>\<open>validation.go\<close> and the validators of the handlers): what a request may contain.
  \<^item> \<^verbatim>\<open>Snapshots\<close> (\<^verbatim>\<open>db/snapshots.go\<close>, \<^verbatim>\<open>db/rollback.go\<close>, the stores of
    policies, services and groups): the edits with the snapshots that undo them.
    \<^verbatim>\<open>Rollback\<close>: that they do, by a contract of undo logs. \<^verbatim>\<open>Cleanup\<close>: the hard
    deletion after everything is applied. \<^verbatim>\<open>Handlers\<close> (\<^verbatim>\<open>api/policies\<close>,
    \<^verbatim>\<open>api/services\<close>, \<^verbatim>\<open>api/groups\<close>): the handlers that call them and queue the
    change.
  \<^item> \<^verbatim>\<open>Diff\<close> (\<^verbatim>\<open>api/pending/diff.go\<close>): the difference shown with a pending bundle.
    \<^verbatim>\<open>Approval\<close> (\<^verbatim>\<open>api/pending/handlers.go\<close>): preview, approval and rollback of pending
    changes, and the creation of push jobs.

  \<^bold>\<open>What is shown.\<close> A policy between two peers opens the same flow at both ends; every bundle ends
  in a default deny; stored text without line breaks cannot add lines; accept rules are exactly the rendering of
  abstract flows, and rejecting policies emit no accepting rule; exactly the policies with a role
  for the peer are loaded; storing keeps versions increasing and signatures valid; previews agree
  with compilation; the affected peers include every peer whose bundle changes, and a recompilation
  that succeeds has covered all of them; the agent accepts what the compiler writes and reads back
  its sets, changes nothing for a bundle that does not verify, and on success has loaded exactly
  the rules of the bundle; a failed probe restores the rules of before; a bundle just stored reaches a healthy host that
  pulls it. Queued work is processed in order, once, and completely after a stop; an acknowledged
  change is queued or recorded; a group change reaches every peer it concerns; a push job accounts
  for each of its peers and touches nothing else. The importer loses no rule and reads back the compiler's rules.
  Whatever a session edited, a rollback that succeeds gives back the state of before; the cleanup
  changes no bundle. Requests keep the stored policies well formed, and one answered with success
  leaves no peer without its pending change; an approval clears pending changes only together with a
  bundle that is up to date. Where the code falls short of this the theory says so:
  a rollback can be blocked by the session's own edits or leave a bundle that was already approved, an update of a service can store ports that
  no longer compile, and a name can break a line of the bundle. The difference of two bundles gives
  both back, but is not always the shortest.

  \<^bold>\<open>Conventions.\<close> Go strings are lists of bytes and Go integers are \<^typ>\<open>int\<close>; no arithmetic of
  the modelled code comes near 64 bits except \<^verbatim>\<open>strconv.Atoi\<close>, whose range check is written
  out. Errors are values of a sum type and carry the sentinels that \<^verbatim>\<open>errors.Is\<close> looks for. A
  loop is a recursive function with a termination proof, so no definition needs fuel. Contexts and
  timeouts are failing statements; the clock is an argument; log output is left out, as are the
  guards for a nil compiler. A statement fails as a whole: a failure in the middle of the rows is a
  failing statement.

  \<^bold>\<open>Not modelled.\<close> The HTTP handlers of peers and agents other than the one serving bundles, the
  decoding of requests, authentication, alerts, metrics and log cleanup, the schema
  and its migrations, the stores of peers and imports, the event stream and the main loop
  of the agent, the time limit of a stop, the importer after parsing, and the web interface: they are input and output around
  the logic above.
\<close>

end
